(* ===== verification/Prelude.thy ===== *)
theory Prelude
  imports Main "HOL-Library.Word" "HOL-Library.Multiset"
begin

text \<open>
  Shared vocabulary of the development: the C integer types, the result type in which
  every early exit, undefined behaviour and non-terminating loop of the tools is a value,
  the word lemmas that turn shifts and masks into division, first-match search in arrays,
  C strings in fixed-size arrays, and number printing as \<open>snprintf\<close> does it.
\<close>

unbundle bit_operations_syntax

section \<open>Types and results\<close>

type_synonym u8 = "8 word"
type_synonym u16 = "16 word"
type_synonym u32 = "32 word"
type_synonym u64 = "64 word"

text \<open>
  \<open>ErrExit\<close> is \<open>ERR_MSG\<close>, which prints and calls \<open>exit(1)\<close>, so nothing after it runs;
  \<open>HelpExit\<close> is \<open>show_help\<close>, which prints these lines, each a first and a second column, and
  calls \<open>exit(0)\<close>. \<open>NullDeref\<close>, \<open>OutOfBounds\<close> and
  \<open>DivByZero\<close> are undefined behaviour of the C code at that point. \<open>OutOfFuel\<close> is the
  only constructor the C code has no counterpart for: it is the value of a loop whose
  iteration budget in the model is used up.
\<close>

type_synonym help_text = "(string \<times> string) list"

datatype exn =
    ErrExit string
  | HelpExit help_text
  | NullDeref
  | OutOfBounds
  | DivByZero
  | OutOfFuel

type_synonym 'a res = "exn + 'a"

definition bind_res :: "'a res \<Rightarrow> ('a \<Rightarrow> 'b res) \<Rightarrow> 'b res" where
  "bind_res m f = (case m of Inl e \<Rightarrow> Inl e | Inr x \<Rightarrow> f x)"

named_theorems wordnat \<open>rewriting word operations to arithmetic on nat\<close>
named_theorems res_simps \<open>rules for results\<close>

lemma bind_res_simps [simp, res_simps]:
  "bind_res (Inl e) f = Inl e"
  "bind_res (Inr x) f = f x"
  by (simp_all add: bind_res_def)

lemma bind_res_Inr_iff:
  "bind_res m f = Inr y \<longleftrightarrow> (\<exists>x. m = Inr x \<and> f x = Inr y)"
  by (cases m) auto

lemma bind_res_cong [fundef_cong]:
  "m = m' \<Longrightarrow> (\<And>x. m' = Inr x \<Longrightarrow> f x = g x) \<Longrightarrow> bind_res m f = bind_res m' g"
  by (cases m') auto

lemma bind_res_assoc [simp]:
  "bind_res (bind_res m f) g = bind_res m (\<lambda>x. bind_res (f x) g)"
  by (cases m) auto

section \<open>Words as numbers\<close>

lemma unat_drop_bit_div [wordnat]:
  "unat (drop_bit n (x :: 'a::len word)) = unat x div 2 ^ n"
  by (simp only: unat_drop_bit_eq drop_bit_eq_div [where 'a = nat])

lemma unat_push_bit_mod [wordnat]:
  "unat (push_bit n (x :: 'a::len word)) = unat x * 2 ^ n mod 2 ^ LENGTH('a)"
  by (simp only: unsigned_push_bit_eq take_bit_eq_mod push_bit_eq_mult [where 'a = nat])

lemma unat_push_bit_nowrap:
  "unat x * 2 ^ n < 2 ^ LENGTH('a) \<Longrightarrow> unat (push_bit n (x :: 'a::len word)) = unat x * 2 ^ n"
  by (simp add: unat_push_bit_mod)

lemma unat_ucast_mod [wordnat]:
  "unat (ucast (x :: 'a::len word) :: 'b::len word) = unat x mod 2 ^ LENGTH('b)"
  by (simp only: unsigned_ucast_eq take_bit_eq_mod)

lemma unat_ucast_up [wordnat]:
  "LENGTH('a) \<le> LENGTH('b) \<Longrightarrow> unat (ucast (x :: 'a::len word) :: 'b::len word) = unat x"
proof -
  assume "LENGTH('a) \<le> LENGTH('b)"
  then have "(2::nat) ^ LENGTH('a) \<le> 2 ^ LENGTH('b)" by simp
  with unsigned_less [of x, where 'a = nat] have "unat x < 2 ^ LENGTH('b)" by linarith
  then show ?thesis by (simp add: unat_ucast_mod)
qed

lemma unat_and_not_mask [wordnat]:
  "unat ((x :: 'a::len word) AND NOT (mask n)) = unat x div 2 ^ n * 2 ^ n"
proof -
  have "uint (x AND NOT (mask n)) = push_bit n (drop_bit n (uint x))"
    by (rule bit_eqI) (auto simp: bit_simps dest: bit_imp_le_length)
  then have "uint (x AND NOT (mask n)) = uint x div 2 ^ n * 2 ^ n"
    by (simp add: push_bit_eq_mult drop_bit_eq_div)
  then have "int (unat (x AND NOT (mask n))) = int (unat x div 2 ^ n * 2 ^ n)"
    by (simp add: zdiv_int)
  then show ?thesis by linarith
qed

lemma unat_add_mod [wordnat]:
  "unat ((x :: 'a::len word) + y) = (unat x + unat y) mod 2 ^ LENGTH('a)"
  by (simp add: unat_word_ariths)

lemma unat_add_nowrap:
  "unat x + unat y < 2 ^ LENGTH('a) \<Longrightarrow> unat ((x :: 'a::len word) + y) = unat x + unat y"
  by (simp add: unat_word_ariths)

lemma unat_sub_nowrap:
  "unat y \<le> unat x \<Longrightarrow> unat ((x :: 'a::len word) - y) = unat x - unat y"
  by (simp add: unat_sub word_le_nat_alt)

lemma unat_mult_mod [wordnat]:
  "unat ((x :: 'a::len word) * y) = unat x * unat y mod 2 ^ LENGTH('a)"
  by (simp add: unat_word_ariths)

lemma unat_lt64 [simp]: "unat (x :: u64) < 18446744073709551616"
  using unsigned_less [of x, where 'a = nat] by simp

lemma unat_lt32 [simp]: "unat (x :: u32) < 4294967296"
  using unsigned_less [of x, where 'a = nat] by simp

lemma of_nat_Suc_word: "(of_nat n :: 'a::len word) + 1 = of_nat (Suc n)"
  by simp

section \<open>First match in an array\<close>

text \<open>The loop \<open>for (i = 0; i < n; i++) if (P(a[i])) ...\<close> as a search for an index.\<close>

fun index_of :: "('a \<Rightarrow> bool) \<Rightarrow> 'a list \<Rightarrow> nat option" where
  "index_of P [] = None"
| "index_of P (x # xs) = (if P x then Some 0 else map_option Suc (index_of P xs))"

lemma index_of_None: "index_of P xs = None \<longleftrightarrow> (\<forall>x\<in>set xs. \<not> P x)"
  by (induction xs) auto

lemma index_of_Some_iff:
  "index_of P xs = Some i \<longleftrightarrow> i < length xs \<and> P (xs ! i) \<and> (\<forall>j<i. \<not> P (xs ! j))"
proof (induction xs arbitrary: i)
  case Nil
  then show ?case by simp
next
  case (Cons x xs)
  show ?case
  proof (cases "P x")
    case True
    then show ?thesis by (cases i) force+
  next
    case False
    have "index_of P (x # xs) = Some i \<longleftrightarrow> (\<exists>k. i = Suc k \<and> index_of P xs = Some k)"
      using False by auto
    also have "\<dots> \<longleftrightarrow> i < length (x # xs) \<and> P ((x # xs) ! i) \<and> (\<forall>j<i. \<not> P ((x # xs) ! j))"
      using False by (cases i) (auto simp: Cons.IH less_Suc_eq_0_disj)
    finally show ?thesis .
  qed
qed

lemma index_of_less: "index_of P xs = Some i \<Longrightarrow> i < length xs"
  by (simp add: index_of_Some_iff)

section \<open>C strings\<close>

text \<open>
  A C string is modelled by its characters before the terminating NUL. \<open>strcpy_n n s\<close> is
  what an array of \<open>n\<close> characters holds, read as a string, after
  \<open>strncpy(a, s, n - 1); a[n - 1] = 0\<close>.
\<close>

definition strcpy_n :: "nat \<Rightarrow> string \<Rightarrow> string" where
  "strcpy_n n s = take (n - 1) s"

text \<open>The comparison the tools use: equal lengths and \<open>strncmp\<close> over at most \<open>n\<close> characters.\<close>

definition str_eq_n :: "nat \<Rightarrow> string \<Rightarrow> string \<Rightarrow> bool" where
  "str_eq_n n a b \<longleftrightarrow> length a = length b \<and> take n a = take n b"

lemma str_eq_n_exact: "length a \<le> n \<Longrightarrow> str_eq_n n a b \<longleftrightarrow> a = b"
  by (auto simp: str_eq_n_def)

lemma length_strcpy_n: "0 < n \<Longrightarrow> length (strcpy_n n s) < n"
  by (simp add: strcpy_n_def)

section \<open>Printing numbers\<close>

definition digit_char :: "nat \<Rightarrow> char" where
  "digit_char d = (''0123456789abcdef'' ! d)"

fun show_base :: "nat \<Rightarrow> nat \<Rightarrow> string" where
  "show_base b n =
     (if b < 2 \<or> n < b then [digit_char n] else show_base b (n div b) @ [digit_char (n mod b)])"

declare show_base.simps [simp del]

definition dec_string :: "nat \<Rightarrow> string" where
  "dec_string n = show_base 10 n"

definition hex_string :: "nat \<Rightarrow> string" where
  "hex_string n = show_base 16 n"

text \<open>\<open>%d\<close> of a signed value.\<close>

definition int_string :: "int \<Rightarrow> string" where
  "int_string i = (if i < 0 then CHR ''-'' # dec_string (nat (- i)) else dec_string (nat i))"

text \<open>\<open>snprintf(buf, n, ...)\<close> keeps at most \<open>n - 1\<close> characters.\<close>

definition snprintf_n :: "nat \<Rightarrow> string \<Rightarrow> string" where
  "snprintf_n n s = take (n - 1) s"

lemma digit_char_inj:
  "i < 16 \<Longrightarrow> j < 16 \<Longrightarrow> digit_char i = digit_char j \<Longrightarrow> i = j"
proof -
  assume "i < 16" "j < 16" "digit_char i = digit_char j"
  moreover have "distinct ''0123456789abcdef''" by simp
  ultimately show "i = j"
    by (simp add: digit_char_def nth_eq_iff_index_eq)
qed

lemma show_base_nonempty: "show_base b n \<noteq> []"
  by (subst show_base.simps) simp

lemma show_base_eq_single:
  assumes "2 \<le> b" "b \<le> 16" "n < b" "show_base b n = show_base b m"
  shows "n = m"
proof (cases "m < b")
  case True
  with assms have "digit_char n = digit_char m" by (simp add: show_base.simps)
  with digit_char_inj [of n m] True assms show ?thesis by simp
next
  case False
  with assms show ?thesis
    by (simp add: show_base.simps [of b m] show_base.simps [of b n] append_eq_Cons_conv
        show_base_nonempty Cons_eq_append_conv)
qed

lemma show_base_inj:
  assumes "2 \<le> b" "b \<le> 16"
  shows "show_base b n = show_base b m \<Longrightarrow> n = m"
proof (induction n arbitrary: m rule: less_induct)
  case (less n)
  show ?case
  proof (cases "n < b \<or> m < b")
    case True
    with less.prems assms show_base_eq_single [of b n m] show_base_eq_single [of b m n]
    show ?thesis by auto
  next
    case False
    with less.prems assms have "show_base b (n div b) = show_base b (m div b)"
      and d: "digit_char (n mod b) = digit_char (m mod b)"
      by (simp_all add: show_base.simps [of b n] show_base.simps [of b m])
    with less.IH [of "n div b" "m div b"] False assms have q: "n div b = m div b" by simp
    have "n mod b < 16" "m mod b < 16"
      using assms mod_less_divisor [of b n] mod_less_divisor [of b m]
      by linarith+
    with d have "n mod b = m mod b" by (rule digit_char_inj [rotated 2])
    with q show ?thesis by (metis div_mult_mod_eq)
  qed
qed

lemma dec_string_inj: "dec_string n = dec_string m \<Longrightarrow> n = m"
  by (simp add: dec_string_def show_base_inj [of 10])

lemma hex_string_inj: "hex_string n = hex_string m \<Longrightarrow> n = m"
  by (simp add: hex_string_def show_base_inj [of 16])

lemma length_show_base_le:
  assumes "2 \<le> b"
  shows "n < b ^ Suc k \<Longrightarrow> length (show_base b n) \<le> Suc k"
proof (induction k arbitrary: n)
  case 0
  then show ?case by (simp add: show_base.simps)
next
  case (Suc k)
  show ?case
  proof (cases "n < b")
    case True
    then show ?thesis by (simp add: show_base.simps)
  next
    case False
    have "n div b < b ^ Suc k"
      using Suc.prems assms by (simp add: less_mult_imp_div_less mult.commute)
    then have "length (show_base b (n div b)) \<le> Suc k" by (rule Suc.IH)
    with False assms show ?thesis by (simp add: show_base.simps [of b n])
  qed
qed

lemma length_show_base_ge:
  assumes "2 \<le> b"
  shows "b ^ k \<le> n \<Longrightarrow> Suc k \<le> length (show_base b n)"
proof (induction k arbitrary: n)
  case 0
  then show ?case using show_base_nonempty [of b n] by (cases "show_base b n") auto
next
  case (Suc k)
  have "b \<le> n" using Suc.prems assms
    by (metis One_nat_def dual_order.trans le_add2 le_add_same_cancel2 mult_le_mono2 mult.right_neutral
        numeral_2_eq_2 one_le_power plus_1_eq_Suc power_Suc)
  have "b ^ k \<le> n div b"
    using Suc.prems assms by (simp add: less_eq_div_iff_mult_less_eq mult.commute)
  then have "Suc k \<le> length (show_base b (n div b))" by (rule Suc.IH)
  with \<open>b \<le> n\<close> assms show ?case by (simp add: show_base.simps [of b n])
qed

section \<open>Reading numbers\<close>

definition digit_val :: "char \<Rightarrow> nat" where
  "digit_val ch = of_char ch - 48"

definition is_digit :: "char \<Rightarrow> bool" where
  "is_digit ch \<longleftrightarrow> 48 \<le> (of_char ch :: nat) \<and> (of_char ch :: nat) \<le> 57"

definition is_space :: "char \<Rightarrow> bool" where
  "is_space ch \<longleftrightarrow> (of_char ch :: nat) = 32 \<or> (9 \<le> (of_char ch :: nat) \<and> (of_char ch :: nat) \<le> 13)"

fun read_digits :: "nat \<Rightarrow> string \<Rightarrow> nat" where
  "read_digits acc [] = acc"
| "read_digits acc (ch # s) = (if is_digit ch then read_digits (10 * acc + digit_val ch) s else acc)"

text \<open>\<open>atoi\<close> of the C library: white space, an optional sign, then decimal digits.\<close>

definition atoi :: "string \<Rightarrow> int" where
  "atoi s =
     (case dropWhile is_space s of
        [] \<Rightarrow> 0
      | ch # r \<Rightarrow>
          if ch = CHR ''-'' then - int (read_digits 0 r)
          else if ch = CHR ''+'' then int (read_digits 0 r)
          else int (read_digits 0 (ch # r)))"

end
