(* ===== verification/Tool_State.thy ===== *)
theory Tool_State
  imports Prelude
begin

text \<open>
  The data model of \<open>zns-tools.fs/include/zns-tools.h\<close> (and the segment records of
  \<open>include/f2fs.h\<close>): the device, extent, zone and file-counter structures, the global
  \<open>struct control\<close>, what the tools print, and the kernel interface they read.

  Fields keep the C names; a prefix is added where two structures use the same name.
  A \<open>uint8_t\<close> that is only ever 0 or 1 is a \<open>bool\<close>; a pointer that may be NULL is an
  \<open>option\<close>; the singly linked list of a zone is a list (\<open>Zone_List\<close> proves that the
  pointer code implements the list operations).
\<close>

section \<open>F2FS segment information (f2fs.h)\<close>

text \<open>
  \<open>enum type\<close>. The value comes from \<open>atoi\<close> of a kernel file, so it may be none of the
  enumerators; \<open>OTHER_TYPE\<close> holds such a value.
\<close>

datatype seg_type =
    CURSEG_HOT_DATA | CURSEG_WARM_DATA | CURSEG_COLD_DATA
  | CURSEG_HOT_NODE | CURSEG_WARM_NODE | CURSEG_COLD_NODE
  | NO_CHECK_TYPE | OTHER_TYPE int

definition seg_type_of_int :: "int \<Rightarrow> seg_type" where
  "seg_type_of_int i =
     (if i = 0 then CURSEG_HOT_DATA else if i = 1 then CURSEG_WARM_DATA
      else if i = 2 then CURSEG_COLD_DATA else if i = 3 then CURSEG_HOT_NODE
      else if i = 4 then CURSEG_WARM_NODE else if i = 5 then CURSEG_COLD_NODE
      else if i = 6 then NO_CHECK_TYPE else OTHER_TYPE i)"

record segment_info =
  si_id :: u32
  si_type :: seg_type
  si_valid_blocks :: u32

record segment_manager =
  nr_segments :: u32
  segments :: "segment_info list"

section \<open>Devices, extents, zones (zns-tools.h)\<close>

definition MAX_FILE_LENGTH :: nat where "MAX_FILE_LENGTH = 50"
definition MAX_DEV_NAME :: nat where "MAX_DEV_NAME = 15"
definition MAX_PATH_LEN :: nat where "MAX_PATH_LEN = 64"
definition ZNS_TOOLS_MAX_DEVS :: nat where "ZNS_TOOLS_MAX_DEVS = 2"
definition F2FS_SEGMENT_BYTES :: u64 where "F2FS_SEGMENT_BYTES = 2097152"
definition F2FS_SECS_PER_BLOCK :: u64 where "F2FS_SECS_PER_BLOCK = 9"
definition BTRFS_MAGIC :: u64 where "BTRFS_MAGIC = 0x9123683E"
definition F2FS_MAGIC :: u64 where "F2FS_MAGIC = 0xF2F52010"

record bdev =
  dev_name :: string
  dev_path :: string
  link_name :: string
  b_is_zoned :: bool
  b_nr_zones :: u32
  b_zone_size :: u64
  b_zone_mask :: u32

record extent =
  e_zone :: u32
  e_flags :: u32
  ext_nr :: u32
  fileID :: u32
  logical_blk :: u64
  phy_blk :: u64
  zone_lbas :: u64
  zone_cap :: u64
  e_len :: u64
  e_zone_size :: u64
  zone_wp :: u64
  zone_lbae :: u64
  fs_info :: "segment_info option"
  e_file :: string

record zone =
  zone_number :: u32
  z_start :: u64
  z_end :: u64
  z_capacity :: u64
  z_wp :: u64
  z_state :: u8
  z_mask :: u32
  z_extent_ctr :: u32
  extents :: "extent list"

record zone_map =
  zm_nr_zones :: u32
  zm_extent_ctr :: u64
  cum_extent_size :: u64
  zone_ctr :: u32
  zones :: "zone list"

record file_counter =
  fc_file :: string
  fc_ext_ctr :: u32
  fc_segment_ctr :: u32
  fc_zone_ctr :: u32
  cold_ctr :: u32
  warm_ctr :: u32
  hot_ctr :: u32
  last_segment_id :: u64
  fc_last_zone :: u32

text \<open>\<open>files\<close> is the whole allocated array; the first \<open>file_ctr\<close> entries are in use.\<close>

record file_counter_map =
  file_ctr :: u32
  files :: "file_counter list"

text \<open>The values of zeroed memory (\<open>calloc\<close>, \<open>memset\<close> to 0).\<close>

definition zero_bdev :: bdev where
  "zero_bdev = \<lparr>dev_name = [], dev_path = [], link_name = [], b_is_zoned = False,
     b_nr_zones = 0, b_zone_size = 0, b_zone_mask = 0\<rparr>"

definition zero_extent :: extent where
  "zero_extent = \<lparr>e_zone = 0, e_flags = 0, ext_nr = 0, fileID = 0, logical_blk = 0,
     phy_blk = 0, zone_lbas = 0, zone_cap = 0, e_len = 0, e_zone_size = 0, zone_wp = 0,
     zone_lbae = 0, fs_info = None, e_file = []\<rparr>"

definition zero_file_counter :: file_counter where
  "zero_file_counter = \<lparr>fc_file = [], fc_ext_ctr = 0, fc_segment_ctr = 0, fc_zone_ctr = 0,
     cold_ctr = 0, warm_ctr = 0, hot_ctr = 0, last_segment_id = 0, fc_last_zone = 0\<rparr>"

section \<open>Output\<close>

text \<open>
  What is printed, one constructor per kind of line, with the values the \<open>printf\<close> call is
  given. \<open>Text\<close> is a line of fixed text (banners and rulers are left out).
\<close>

datatype parg = N nat | S string

datatype out =
    Text string
  | Info string "parg list"
  | Warn string "parg list"
  | Field string "parg list"
  | FlagLine "string list"
  | ZoneLine u32 u64 u64 u64 u64 u64 u32 u32
      \<comment> \<open>zone number, LBAS, LBAE, CAP, WP, SIZE, STATE, MASK\<close>
  | HoleLine u64 u64 u64 \<comment> \<open>PBAS, PBAE, SIZE\<close>
  | ExtentLine u32 u64 u64 u64 \<comment> \<open>EXTID, PBAS, PBAE, SIZE\<close>
  | StatsLine u64 u64 u64 u32 \<comment> \<open>NOE, TES, AES, NOZ\<close>
  | HoleStats u32 u64 u64 \<comment> \<open>NOH, THS, AHS\<close>
  | SegmentLine u64 u64 u64 u64 \<comment> \<open>SEGMENT, PBAS, PBAE, SIZE\<close>
  | SegmentRange u64 u64 u64 u64 u64 \<comment> \<open>first, last, PBAS, PBAE, SIZE\<close>
  | SegmentType seg_type u32 \<comment> \<open>TYPE, VALID BLOCKS\<close>
  | SegExtent u64 u64 u64 string u32 u32 \<comment> \<open>PBAS, PBAE, SIZE, FILE, EXTID, of how many\<close>
  | FileStats string u32 u32 u32 u32 u32 u32
      \<comment> \<open>name, extents, segments, zones, cold, warm, hot\<close>

section \<open>The control structure\<close>

text \<open>
  \<open>struct control\<close>. The \<open>zns.fpbench\<close> fields (\<open>const_fsync\<close>, \<open>o_direct\<close>,
  \<open>excl_streams\<close>, \<open>fpbench_streammap\<close>, \<open>fpbench_streammap_set\<close>), \<open>info\<close> and
  \<open>fs_super_block\<close> are not read by any tool of the repository and are left out. The
  function pointers an F2FS run installs are functions here. \<open>stdout\<close> is what the
  process has printed so far: \<open>MSG\<close>, \<open>INFO\<close>, \<open>WARN\<close> and \<open>REP\<close> append to it.
\<close>

record control =
  argv0 :: string
  bdev :: bdev
  znsdev :: bdev
  multi_dev :: bool
  log_level :: u8
  show_holes :: bool
  show_flags :: bool
  json_dump :: bool
  json_file :: string
  fs_magic :: u64
  sector_size :: u32
  sector_shift :: u32
  zns_sector_shift :: u32
  f2fs_segment_sectors :: u64
  f2fs_segment_mask :: u64
  segment_shift :: u32
  start_zone :: u32
  end_zone :: u32
  nr_files :: u32
  exclude_flags :: u32
  offset :: u64
  cur_segment :: u64
  show_superblock :: bool
  show_checkpoint :: bool
  procfs :: bool
  show_class_stats :: bool
  show_only_stats :: bool
  inlined_extent_ctr :: u64
  zonemap :: "zone_map option"
  file_counter_map :: "file_counter_map option"
  fs_manager :: "segment_manager option"
  fs_info_init :: "(segment_manager option \<Rightarrow> u32 \<Rightarrow> segment_info res) option"
  fs_info_show :: "(segment_info option \<Rightarrow> bool \<Rightarrow> u32 \<Rightarrow> out list res) option"
  fs_info_bytes :: u32
  stdout :: "out list"

definition zero_control :: control where
  "zero_control = \<lparr>argv0 = [], bdev = zero_bdev, znsdev = zero_bdev, multi_dev = False,
     log_level = 0, show_holes = False, show_flags = False, json_dump = False, json_file = [],
     fs_magic = 0, sector_size = 0, sector_shift = 0, zns_sector_shift = 0,
     f2fs_segment_sectors = 0, f2fs_segment_mask = 0, segment_shift = 0, start_zone = 0,
     end_zone = 0, nr_files = 0, exclude_flags = 0, offset = 0, cur_segment = 0,
     show_superblock = False, show_checkpoint = False, procfs = False,
     show_class_stats = False, show_only_stats = False, inlined_extent_ctr = 0,
     zonemap = None, file_counter_map = None, fs_manager = None, fs_info_init = None,
     fs_info_show = None, fs_info_bytes = 0, stdout = []\<rparr>"

text \<open>The print macros: \<open>MSG\<close>, \<open>WARN\<close>, \<open>INFO(n, ...)\<close> and \<open>REP(n, ...)\<close>.\<close>

definition msg :: "out \<Rightarrow> control \<Rightarrow> control" where
  "msg l c = c\<lparr>stdout := stdout c @ [l]\<rparr>"

definition info :: "nat \<Rightarrow> string \<Rightarrow> parg list \<Rightarrow> control \<Rightarrow> control" where
  "info n l as c = (if n \<le> unat (log_level c) then msg (Info l as) c else c)"

definition rep :: "bool \<Rightarrow> out \<Rightarrow> control \<Rightarrow> control" where
  "rep quiet l c = (if \<not> quiet then msg l c else c)"

section \<open>The kernel interface\<close>

text \<open>
  What the tools read from the kernel. The kernel is not part of the repository, so an
  \<open>os\<close> is a parameter of every definition that makes a system call; properties that rely
  on kernel behaviour name it as a hypothesis. One \<open>os\<close> is one state of the machine: the
  tools read a file system that does not change while they run.
  \<open>os_report_zones p s n\<close> is \<open>BLKREPORTZONE\<close> on device \<open>p\<close> from sector \<open>s\<close> for at most
  \<open>n\<close> zones; \<open>os_fiemap f s l n\<close> is \<open>FS_IOC_FIEMAP\<close> on file \<open>f\<close> with start \<open>s\<close>, length
  \<open>l\<close> and room for \<open>n\<close> extents: the number of mapped extents and the first of them;
  \<open>os_read p o n\<close> is \<open>lseek\<close> and \<open>read\<close> of at most \<open>n\<close> bytes; \<open>os_fresh\<close> is the
  content of uninitialised heap memory. \<open>None\<close> is a failed call.
\<close>

record blk_zone =
  bz_start :: u64
  bz_len :: u64
  bz_wp :: u64
  bz_cond :: u8
  bz_capacity :: u64

definition zero_blk_zone :: blk_zone where
  "zero_blk_zone = \<lparr>bz_start = 0, bz_len = 0, bz_wp = 0, bz_cond = 0, bz_capacity = 0\<rparr>"

record fiemap_extent =
  fe_logical :: u64
  fe_physical :: u64
  fe_length :: u64
  fe_flags :: u32

record stat =
  st_major :: u32
  st_minor :: u32
  st_ino :: u64
  st_blocks :: u64
  st_isdir :: bool

record os =
  os_open :: "string \<Rightarrow> bool"
  os_access :: "string \<Rightarrow> bool"
  os_readlink :: "string \<Rightarrow> string option"
  os_stat :: "string \<Rightarrow> stat option"
  os_statfs :: "string \<Rightarrow> u64 option"
  os_scanf :: "string option"
  os_sector_size :: "string \<Rightarrow> u32 option"
  os_dev_size :: "string \<Rightarrow> u64 option"
  os_zone_size :: "string \<Rightarrow> u32 option"
  os_nr_zones :: "string \<Rightarrow> u32 option"
  os_report_zones :: "string \<Rightarrow> u64 \<Rightarrow> u32 \<Rightarrow> blk_zone list option"
  os_fiemap :: "string \<Rightarrow> u64 \<Rightarrow> u64 \<Rightarrow> u32 \<Rightarrow> (u32 \<times> fiemap_extent) option"
  os_read :: "string \<Rightarrow> u64 \<Rightarrow> nat \<Rightarrow> u8 list option"
  os_lines :: "string \<Rightarrow> string list option"
  os_fresh :: file_counter

text \<open>Entry \<open>i\<close> of a zone report read into zeroed memory.\<close>

definition report_zone_at :: "blk_zone list \<Rightarrow> nat \<Rightarrow> blk_zone" where
  "report_zone_at zs i = (if i < length zs then zs ! i else zero_blk_zone)"

text \<open>Extent flags of \<open>linux/fiemap.h\<close>.\<close>

definition FIEMAP_EXTENT_LAST :: u32 where "FIEMAP_EXTENT_LAST = 0x1"
definition FIEMAP_EXTENT_UNKNOWN :: u32 where "FIEMAP_EXTENT_UNKNOWN = 0x2"
definition FIEMAP_EXTENT_DELALLOC :: u32 where "FIEMAP_EXTENT_DELALLOC = 0x4"
definition FIEMAP_EXTENT_ENCODED :: u32 where "FIEMAP_EXTENT_ENCODED = 0x8"
definition FIEMAP_EXTENT_DATA_ENCRYPTED :: u32 where "FIEMAP_EXTENT_DATA_ENCRYPTED = 0x80"
definition FIEMAP_EXTENT_NOT_ALIGNED :: u32 where "FIEMAP_EXTENT_NOT_ALIGNED = 0x100"
definition FIEMAP_EXTENT_DATA_INLINE :: u32 where "FIEMAP_EXTENT_DATA_INLINE = 0x200"
definition FIEMAP_EXTENT_DATA_TAIL :: u32 where "FIEMAP_EXTENT_DATA_TAIL = 0x400"
definition FIEMAP_EXTENT_UNWRITTEN :: u32 where "FIEMAP_EXTENT_UNWRITTEN = 0x800"
definition FIEMAP_EXTENT_MERGED :: u32 where "FIEMAP_EXTENT_MERGED = 0x1000"

definition EXIT_SUCCESS :: u8 where "EXIT_SUCCESS = 0"
definition EXIT_FAILURE :: u8 where "EXIT_FAILURE = 1"

lemmas fiemap_flag_defs =
  FIEMAP_EXTENT_LAST_def FIEMAP_EXTENT_UNKNOWN_def FIEMAP_EXTENT_DELALLOC_def
  FIEMAP_EXTENT_ENCODED_def FIEMAP_EXTENT_DATA_ENCRYPTED_def FIEMAP_EXTENT_NOT_ALIGNED_def
  FIEMAP_EXTENT_DATA_INLINE_def FIEMAP_EXTENT_DATA_TAIL_def FIEMAP_EXTENT_UNWRITTEN_def
  FIEMAP_EXTENT_MERGED_def

text \<open>Printing changes nothing but \<open>stdout\<close>.\<close>

lemma stdout_msg [simp]: "stdout (msg l c) = stdout c @ [l]"
  by (simp add: msg_def)

lemma control_eqI_msg: "msg l c = c\<lparr>stdout := stdout c @ [l]\<rparr>"
  by (simp add: msg_def)

lemma info_cases: "info n l as c = c \<or> info n l as c = c\<lparr>stdout := stdout c @ [Info l as]\<rparr>"
  by (simp add: info_def msg_def)

lemma rep_cases: "rep q l c = c \<or> rep q l c = c\<lparr>stdout := stdout c @ [l]\<rparr>"
  by (simp add: rep_def msg_def)

named_theorems print_frame \<open>the fields that printing leaves alone\<close>

lemma msg_frame [simp, print_frame]:
  "bdev (msg l c) = bdev c" "znsdev (msg l c) = znsdev c" "multi_dev (msg l c) = multi_dev c"
  "log_level (msg l c) = log_level c" "show_holes (msg l c) = show_holes c"
  "show_flags (msg l c) = show_flags c" "fs_magic (msg l c) = fs_magic c"
  "sector_size (msg l c) = sector_size c" "sector_shift (msg l c) = sector_shift c"
  "zns_sector_shift (msg l c) = zns_sector_shift c"
  "f2fs_segment_sectors (msg l c) = f2fs_segment_sectors c"
  "f2fs_segment_mask (msg l c) = f2fs_segment_mask c"
  "segment_shift (msg l c) = segment_shift c" "start_zone (msg l c) = start_zone c"
  "end_zone (msg l c) = end_zone c" "nr_files (msg l c) = nr_files c"
  "exclude_flags (msg l c) = exclude_flags c" "offset (msg l c) = offset c"
  "cur_segment (msg l c) = cur_segment c" "procfs (msg l c) = procfs c"
  "show_class_stats (msg l c) = show_class_stats c"
  "show_only_stats (msg l c) = show_only_stats c"
  "inlined_extent_ctr (msg l c) = inlined_extent_ctr c" "zonemap (msg l c) = zonemap c"
  "file_counter_map (msg l c) = file_counter_map c" "fs_manager (msg l c) = fs_manager c"
  "fs_info_init (msg l c) = fs_info_init c" "fs_info_show (msg l c) = fs_info_show c"
  "fs_info_bytes (msg l c) = fs_info_bytes c"
  by (simp_all add: msg_def)

lemma info_frame [simp, print_frame]:
  "bdev (info n l a c) = bdev c" "znsdev (info n l a c) = znsdev c"
  "log_level (info n l a c) = log_level c" "show_holes (info n l a c) = show_holes c"
  "show_flags (info n l a c) = show_flags c" "fs_magic (info n l a c) = fs_magic c"
  "sector_size (info n l a c) = sector_size c" "sector_shift (info n l a c) = sector_shift c"
  "zns_sector_shift (info n l a c) = zns_sector_shift c"
  "f2fs_segment_sectors (info n l a c) = f2fs_segment_sectors c"
  "f2fs_segment_mask (info n l a c) = f2fs_segment_mask c"
  "segment_shift (info n l a c) = segment_shift c" "nr_files (info n l a c) = nr_files c"
  "exclude_flags (info n l a c) = exclude_flags c" "offset (info n l a c) = offset c"
  "cur_segment (info n l a c) = cur_segment c"
  "inlined_extent_ctr (info n l a c) = inlined_extent_ctr c"
  "zonemap (info n l a c) = zonemap c" "file_counter_map (info n l a c) = file_counter_map c"
  "fs_manager (info n l a c) = fs_manager c" "fs_info_init (info n l a c) = fs_info_init c"
  "fs_info_bytes (info n l a c) = fs_info_bytes c"
  by (simp_all add: info_def)

lemma rep_frame [simp, print_frame]:
  "znsdev (rep q l c) = znsdev c" "sector_shift (rep q l c) = sector_shift c"
  "zns_sector_shift (rep q l c) = zns_sector_shift c"
  "f2fs_segment_sectors (rep q l c) = f2fs_segment_sectors c"
  "f2fs_segment_mask (rep q l c) = f2fs_segment_mask c"
  "segment_shift (rep q l c) = segment_shift c" "nr_files (rep q l c) = nr_files c"
  "exclude_flags (rep q l c) = exclude_flags c" "cur_segment (rep q l c) = cur_segment c"
  "procfs (rep q l c) = procfs c" "show_class_stats (rep q l c) = show_class_stats c"
  "show_only_stats (rep q l c) = show_only_stats c" "zonemap (rep q l c) = zonemap c"
  "file_counter_map (rep q l c) = file_counter_map c"
  "fs_info_show (rep q l c) = fs_info_show c"
  by (simp_all add: rep_def)

end
