(* ===== verification/Pow2_Geometry.thy ===== *)
theory Pow2_Geometry
  imports Prelude
begin

text \<open>
  The address arithmetic every tool does: a unit (a zone, an F2FS segment) of \<open>2 ^ shift\<close>
  blocks, a mask \<open>~(size - 1)\<close> that rounds an address down to its unit, and shifts that
  convert between addresses and unit numbers. The locale states what the code relies on;
  the theories that compute a size, a mask and a shift interpret it.
\<close>

locale pow2_geometry =
  fixes usize :: "'a::len word"
    and amask :: "'a word"
    and shift :: nat
  assumes shift_less: "shift < LENGTH('a)"
    and usize_pow2: "usize = 2 ^ shift"
    and amask_def: "amask = NOT (usize - 1)"
begin

lemma amask_mask: "amask = NOT (mask shift)"
  by (simp add: amask_def usize_pow2 mask_eq_exp_minus_1)

lemma unat_usize: "unat usize = 2 ^ shift"
proof -
  have "usize = push_bit shift 1" by (simp add: usize_pow2 push_bit_eq_mult)
  then show ?thesis
    using shift_less unat_push_bit_nowrap [of "1 :: 'a word" shift] by simp
qed

lemma unat_align: "unat (x AND amask) = unat x div 2 ^ shift * 2 ^ shift"
  by (simp add: amask_mask unat_and_not_mask)

lemma unat_unit: "unat (drop_bit shift (x AND amask)) = unat x div 2 ^ shift"
  by (simp only: unat_drop_bit_div unat_align) simp

lemma unit_start: "push_bit shift (drop_bit shift (x AND amask)) = x AND amask"
  by (rule bit_word_eqI) (auto simp: amask_mask bit_simps)

lemma unit_start': "push_bit shift (drop_bit shift x) = x AND amask"
  by (rule bit_word_eqI) (auto simp: amask_mask bit_simps)

lemma align_le: "unat (x AND amask) \<le> unat x"
  by (simp add: unat_align)

lemma align_upper: "unat x < unat (x AND amask) + 2 ^ shift"
  using dividend_less_div_times [of "2 ^ shift" "unat x"] by (simp add: unat_align add.commute)

lemma align_idem [simp]: "(x AND amask) AND amask = x AND amask"
  by (simp add: and.assoc)

lemma align_dvd: "2 ^ shift dvd unat (x AND amask)"
  by (simp add: unat_align)

lemma aligned_iff: "x AND amask = x \<longleftrightarrow> 2 ^ shift dvd unat x"
proof
  assume "x AND amask = x"
  with align_dvd [of x] show "2 ^ shift dvd unat x" by simp
next
  assume "2 ^ shift dvd unat x"
  then have "unat (x AND amask) = unat x" by (simp add: unat_align)
  then show "x AND amask = x" by (simp only: word_unat_eq_iff)
qed

lemma align_eq_iff: "x AND amask = y AND amask \<longleftrightarrow> unat x div 2 ^ shift = unat y div 2 ^ shift"
proof
  assume "x AND amask = y AND amask"
  then have "unat (drop_bit shift (x AND amask)) = unat (drop_bit shift (y AND amask))" by simp
  then show "unat x div 2 ^ shift = unat y div 2 ^ shift" by (simp only: unat_unit)
next
  assume "unat x div 2 ^ shift = unat y div 2 ^ shift"
  then have "unat (x AND amask) = unat (y AND amask)" by (simp only: unat_align)
  then show "x AND amask = y AND amask" by (simp only: word_unat_eq_iff)
qed

lemma align_end_nowrap: "unat (x AND amask) + 2 ^ shift \<le> 2 ^ LENGTH('a)"
proof -
  let ?q = "unat x div 2 ^ shift"
  have "unat x < 2 ^ (LENGTH('a) - shift) * 2 ^ shift"
    using unsigned_less [of x, where 'a = nat] shift_less by (simp add: power_add [symmetric])
  then have "?q < 2 ^ (LENGTH('a) - shift)"
    by (simp add: less_mult_imp_div_less)
  then have "?q + 1 \<le> 2 ^ (LENGTH('a) - shift)" by simp
  then have "(?q + 1) * 2 ^ shift \<le> 2 ^ (LENGTH('a) - shift) * 2 ^ shift"
    by (rule mult_le_mono1)
  then show ?thesis
    using shift_less by (simp add: unat_align power_add [symmetric])
qed

lemma unat_align_end:
  "unat (x AND amask) + 2 ^ shift < 2 ^ LENGTH('a) \<Longrightarrow>
   unat ((x AND amask) + usize) = unat (x AND amask) + 2 ^ shift"
  using unat_add_nowrap [of "x AND amask" usize] by (simp add: unat_usize)

lemma unit_mono: "unat x \<le> unat y \<Longrightarrow> unat (x AND amask) \<le> unat (y AND amask)"
  by (simp add: unat_align div_le_mono)

lemma div_size_unit: "unat (x div usize) = unat x div 2 ^ shift"
  by (simp add: unat_div_distrib unat_usize)

end

end
