(* ===== verification/F2fs_Layout.thy ===== *)
theory F2fs_Layout
  imports Prelude
begin

text \<open>
  The on-disk structures of \<open>include/f2fs.h\<close>. The library reads a block of bytes straight
  into a packed C structure, so a structure is its bytes here and a field access is a
  little-endian read at the field's offset. A layout lists the fields in order, each with
  the width of an element and the number of elements; offsets and sizes follow from it.
\<close>

type_synonym field = "string \<times> nat \<times> nat"

definition field_bytes :: "field \<Rightarrow> nat" where
  "field_bytes f = fst (snd f) * snd (snd f)"

definition layout_size :: "field list \<Rightarrow> nat" where
  "layout_size fs = sum_list (map field_bytes fs)"

section \<open>Little-endian numbers\<close>

fun le_nat :: "u8 list \<Rightarrow> nat" where
  "le_nat [] = 0"
| "le_nat (b # bs) = unat b + 256 * le_nat bs"

fun le_bytes :: "nat \<Rightarrow> nat \<Rightarrow> u8 list" where
  "le_bytes 0 v = []"
| "le_bytes (Suc w) v = of_nat (v mod 256) # le_bytes w (v div 256)"

lemma length_le_bytes [simp]: "length (le_bytes w v) = w"
  by (induction w v rule: le_bytes.induct) simp_all

lemma le_nat_bytes: "le_nat (le_bytes w v) = v mod 256 ^ w"
proof (induction w v rule: le_bytes.induct)
  case (1 v)
  then show ?case by simp
next
  case (2 w v)
  have "unat (of_nat (v mod 256) :: u8) = v mod 256"
    by (simp add: unat_of_nat)
  with 2 show ?case by (simp add: mod_mult2_eq)
qed

lemma le_nat_less: "le_nat bs < 256 ^ length bs"
proof (induction bs)
  case Nil
  then show ?case by simp
next
  case (Cons b bs)
  have "unat b < 256" using unsigned_less [of b, where 'a = nat] by simp
  with Cons show ?case by simp
qed

lemma le_bytes_nat: "le_bytes (length bs) (le_nat bs) = bs"
proof (induction bs)
  case Nil
  then show ?case by simp
next
  case (Cons b bs)
  have "unat b < 256" using unsigned_less [of b, where 'a = nat] by simp
  with Cons show ?case by simp
qed

section \<open>Field access\<close>

fun field_off :: "field list \<Rightarrow> string \<Rightarrow> nat" where
  "field_off [] name = 0"
| "field_off (f # fs) name = (if fst f = name then 0 else field_bytes f + field_off fs name)"

fun field_width :: "field list \<Rightarrow> string \<Rightarrow> nat" where
  "field_width [] name = 0"
| "field_width (f # fs) name = (if fst f = name then fst (snd f) else field_width fs name)"

text \<open>Element \<open>i\<close> of field \<open>name\<close> of the structure at the start of \<open>bs\<close>.\<close>

definition fld :: "field list \<Rightarrow> string \<Rightarrow> nat \<Rightarrow> u8 list \<Rightarrow> nat" where
  "fld fs name i bs =
     le_nat (take (field_width fs name) (drop (field_off fs name + i * field_width fs name) bs))"

abbreviation fld32 :: "field list \<Rightarrow> string \<Rightarrow> u8 list \<Rightarrow> u32" where
  "fld32 fs name bs \<equiv> of_nat (fld fs name 0 bs)"

text \<open>A byte array field read as a C string: up to the first NUL, at most its length.\<close>

definition cstring :: "u8 list \<Rightarrow> string" where
  "cstring bs = map (\<lambda>b. char_of (unat b)) (takeWhile (\<lambda>b. b \<noteq> 0) bs)"

definition fld_bytes :: "field list \<Rightarrow> string \<Rightarrow> nat \<Rightarrow> u8 list \<Rightarrow> u8 list" where
  "fld_bytes fs name n bs = take n (drop (field_off fs name) bs)"

text \<open>Writing a structure: the elements of every field, in order.\<close>

fun encode_fields :: "field list \<Rightarrow> nat list list \<Rightarrow> u8 list" where
  "encode_fields [] vss = []"
| "encode_fields (f # fs) vss =
     (case vss of [] \<Rightarrow> [] | vs # vss' \<Rightarrow>
        concat (map (le_bytes (fst (snd f))) vs) @ encode_fields fs vss')"

text \<open>The values fit the layout: as many fields, elements per field and bytes per element.\<close>

definition fits :: "field list \<Rightarrow> nat list list \<Rightarrow> bool" where
  "fits fs vss \<longleftrightarrow> list_all2 (\<lambda>f vs. length vs = snd (snd f) \<and>
     (\<forall>v\<in>set vs. v < 256 ^ fst (snd f))) fs vss"

lemma length_concat_le_bytes [simp]:
  "length (concat (map (le_bytes w) vs)) = w * length vs"
  by (induction vs) simp_all

lemma length_encode_fields:
  "fits fs vss \<Longrightarrow> length (encode_fields fs vss) = layout_size fs"
  unfolding fits_def
  by (induction rule: list_all2_induct) (simp_all add: layout_size_def field_bytes_def)

lemma element_of_concat:
  "i < length vs \<Longrightarrow>
   take w (drop (i * w) (concat (map (le_bytes w) vs) @ rest)) = le_bytes w (vs ! i)"
proof (induction vs arbitrary: i)
  case Nil
  then show ?case by simp
next
  case (Cons v vs)
  show ?case
  proof (cases i)
    case 0
    then show ?thesis by simp
  next
    case (Suc j)
    then show ?thesis using Cons by simp
  qed
qed

lemma fld_encode_fields:
  assumes "fits fs vss" "distinct (map fst fs)" "n < length fs" "i < length (vss ! n)"
  shows "fld fs (fst (fs ! n)) i (encode_fields fs vss @ rest) = vss ! n ! i"
  using assms unfolding fits_def
proof (induction fs vss arbitrary: n rule: list_all2_induct)
  case Nil
  then show ?case by simp
next
  case (Cons f fs vs vss)
  show ?case
  proof (cases n)
    case 0
    with Cons.prems Cons.hyps show ?thesis
      by (simp add: fld_def element_of_concat le_nat_bytes del: take_append drop_append)
  next
    case (Suc m)
    have "m < length fs" using Cons.prems(2) Suc by simp
    then have "fst (fs ! m) \<in> set (map fst fs)" by simp
    with Cons.prems(1) have ne: "fst f \<noteq> fst (fs ! m)" by (metis distinct.simps(2) list.simps(9))
    have len: "length (concat (map (le_bytes (fst (snd f))) vs)) = field_bytes f"
      using Cons.hyps by (simp add: field_bytes_def)
    have "fld (f # fs) (fst (fs ! m)) i
            (concat (map (le_bytes (fst (snd f))) vs) @ encode_fields fs vss @ rest)
          = fld fs (fst (fs ! m)) i (encode_fields fs vss @ rest)"
      using ne len by (simp add: fld_def add.assoc)
    also have "\<dots> = vss ! m ! i"
      using Cons Suc by simp
    finally show ?thesis using Suc by simp
  qed
qed

section \<open>The structures\<close>

definition MAX_DEVICES :: nat where "MAX_DEVICES = 8"
definition F2FS_MAX_EXTENSION :: nat where "F2FS_MAX_EXTENSION = 64"
definition F2FS_SUPER_OFFSET :: u64 where "F2FS_SUPER_OFFSET = 1024"
definition F2FS_BLKSIZE_BITS :: nat where "F2FS_BLKSIZE_BITS = 12"
definition BLOCK_SZ :: nat where "BLOCK_SZ = 4096"
definition NAT_ENTRY_PER_BLOCK :: nat where "NAT_ENTRY_PER_BLOCK = 4096 div 9"

definition f2fs_device_layout :: "field list" where
  "f2fs_device_layout = [(''path'', 1, 64), (''total_segments'', 4, 1)]"

definition f2fs_super_block_layout :: "field list" where
  "f2fs_super_block_layout =
    [(''magic'', 4, 1), (''major_ver'', 2, 1), (''minor_ver'', 2, 1),
     (''log_sectorsize'', 4, 1), (''log_sectors_per_block'', 4, 1), (''log_blocksize'', 4, 1),
     (''log_blocks_per_seg'', 4, 1), (''segs_per_sec'', 4, 1), (''secs_per_zone'', 4, 1),
     (''checksum_offset'', 4, 1), (''block_count'', 8, 1), (''section_count'', 4, 1),
     (''segment_count'', 4, 1), (''segment_count_ckpt'', 4, 1), (''segment_count_sit'', 4, 1),
     (''segment_count_nat'', 4, 1), (''segment_count_ssa'', 4, 1), (''segment_count_main'', 4, 1),
     (''segment0_blkaddr'', 4, 1), (''cp_blkaddr'', 4, 1), (''sit_blkaddr'', 4, 1),
     (''nat_blkaddr'', 4, 1), (''ssa_blkaddr'', 4, 1), (''main_blkaddr'', 4, 1),
     (''root_ino'', 4, 1), (''node_ino'', 4, 1), (''meta_ino'', 4, 1),
     (''uuid'', 1, 16), (''volume_name'', 2, 512), (''extension_count'', 4, 1),
     (''extension_list'', 1, 512), (''cp_payload'', 4, 1), (''version'', 1, 256),
     (''init_version'', 1, 256), (''feature'', 4, 1), (''encryption_level'', 1, 1),
     (''encrypt_pw_salt'', 1, 16), (''devs'', 68, 8), (''qf_ino'', 4, 3),
     (''hot_ext_count'', 1, 1), (''s_encoding'', 2, 1), (''s_encoding_flags'', 2, 1),
     (''reserved'', 1, 306), (''crc'', 4, 1)]"

definition f2fs_checkpoint_layout :: "field list" where
  "f2fs_checkpoint_layout =
    [(''checkpoint_ver'', 8, 1), (''user_block_count'', 8, 1), (''valid_block_count'', 8, 1),
     (''rsvd_segment_count'', 4, 1), (''overprov_segment_count'', 4, 1),
     (''free_segment_count'', 4, 1), (''cur_node_segno'', 4, 8), (''cur_node_blkoff'', 2, 8),
     (''cur_data_segno'', 4, 8), (''cur_data_blkoff'', 2, 8), (''ckpt_flags'', 4, 1),
     (''cp_pack_total_block_count'', 4, 1), (''cp_pack_start_sum'', 4, 1),
     (''valid_node_count'', 4, 1), (''valid_inode_count'', 4, 1), (''next_free_nid'', 4, 1),
     (''sit_ver_bitmap_bytesize'', 4, 1), (''nat_ver_bitmap_bytesize'', 4, 1),
     (''checksum_offset'', 4, 1), (''elapsed_time'', 8, 1), (''alloc_type'', 1, 16)]"

definition f2fs_nat_entry_layout :: "field list" where
  "f2fs_nat_entry_layout = [(''version'', 1, 1), (''ino'', 4, 1), (''block_addr'', 4, 1)]"

definition f2fs_nat_block_layout :: "field list" where
  "f2fs_nat_block_layout = [(''entries'', layout_size f2fs_nat_entry_layout, NAT_ENTRY_PER_BLOCK)]"

definition f2fs_extent_layout :: "field list" where
  "f2fs_extent_layout = [(''fofs'', 4, 1), (''blk_addr'', 4, 1), (''len'', 4, 1)]"

text \<open>Of the two unions of the inode, the layout names the member that gives the size.\<close>

definition f2fs_inode_layout :: "field list" where
  "f2fs_inode_layout =
    [(''i_mode'', 2, 1), (''i_advise'', 1, 1), (''i_inline'', 1, 1), (''i_uid'', 4, 1),
     (''i_gid'', 4, 1), (''i_links'', 4, 1), (''i_size'', 8, 1), (''i_blocks'', 8, 1),
     (''i_atime'', 8, 1), (''i_ctime'', 8, 1), (''i_mtime'', 8, 1), (''i_atime_nsec'', 4, 1),
     (''i_ctime_nsec'', 4, 1), (''i_mtime_nsec'', 4, 1), (''i_generation'', 4, 1),
     (''i_current_depth'', 4, 1), (''i_xattr_nid'', 4, 1), (''i_flags'', 4, 1),
     (''i_pino'', 4, 1), (''i_namelen'', 4, 1), (''i_name'', 1, 255), (''i_dir_level'', 1, 1),
     (''i_ext'', layout_size f2fs_extent_layout, 1), (''i_addr'', 4, 923), (''i_nid'', 4, 5)]"

definition direct_node_layout :: "field list" where
  "direct_node_layout = [(''addr'', 4, 1018)]"

definition indirect_node_layout :: "field list" where
  "indirect_node_layout = [(''nid'', 4, 1018)]"

definition node_footer_layout :: "field list" where
  "node_footer_layout =
    [(''nid'', 4, 1), (''ino'', 4, 1), (''flag'', 4, 1), (''cp_ver'', 8, 1),
     (''next_blkaddr'', 4, 1)]"

definition f2fs_node_layout :: "field list" where
  "f2fs_node_layout =
    [(''i'', layout_size f2fs_inode_layout, 1), (''footer'', layout_size node_footer_layout, 1)]"

lemmas layout_defs =
  f2fs_device_layout_def f2fs_super_block_layout_def f2fs_checkpoint_layout_def
  f2fs_nat_entry_layout_def f2fs_nat_block_layout_def f2fs_extent_layout_def
  f2fs_inode_layout_def direct_node_layout_def indirect_node_layout_def
  node_footer_layout_def f2fs_node_layout_def

lemma super_block_size: "layout_size f2fs_super_block_layout = 3072"
  by (simp add: layout_defs layout_size_def field_bytes_def)

lemma nat_entry_size: "layout_size f2fs_nat_entry_layout = 9"
  by (simp add: layout_defs layout_size_def field_bytes_def)

lemma node_footer_size: "layout_size node_footer_layout = 24"
  by (simp add: layout_defs layout_size_def field_bytes_def)

lemma inode_size: "layout_size f2fs_inode_layout = 4072"
  by (simp add: layout_defs layout_size_def field_bytes_def)

text \<open>The structures with the sizes that the header asserts with \<open>static_assert\<close>.\<close>

definition asserted_sizes :: "(field list \<times> nat) list" where
  "asserted_sizes = [(f2fs_device_layout, 68), (f2fs_super_block_layout, 3072),
     (f2fs_checkpoint_layout, 192), (f2fs_nat_entry_layout, 9), (f2fs_nat_block_layout, 4095),
     (f2fs_inode_layout, 4072), (direct_node_layout, 4072), (indirect_node_layout, 4072),
     (node_footer_layout, 24), (f2fs_node_layout, 4096)]"

lemma asserted_layout: "(fs, n) \<in> set asserted_sizes \<Longrightarrow> layout_size fs = n \<and> distinct (map fst fs)"
  by (auto simp: asserted_sizes_def layout_defs layout_size_def field_bytes_def NAT_ENTRY_PER_BLOCK_def)

section \<open>Entries of a NAT block\<close>

record f2fs_nat_entry =
  ne_version :: u8
  ne_ino :: u32
  ne_block_addr :: u32

definition nat_entry_at :: "u8 list \<Rightarrow> nat \<Rightarrow> f2fs_nat_entry" where
  "nat_entry_at blk i =
     (let e = drop (i * layout_size f2fs_nat_entry_layout) blk in
      \<lparr>ne_version = of_nat (fld f2fs_nat_entry_layout ''version'' 0 e),
       ne_ino = of_nat (fld f2fs_nat_entry_layout ''ino'' 0 e),
       ne_block_addr = of_nat (fld f2fs_nat_entry_layout ''block_addr'' 0 e)\<rparr>)"

definition encode_nat_entry :: "f2fs_nat_entry \<Rightarrow> u8 list" where
  "encode_nat_entry e = encode_fields f2fs_nat_entry_layout
     [[unat (ne_version e)], [unat (ne_ino e)], [unat (ne_block_addr e)]]"

lemma fits_nat_entry:
  "fits f2fs_nat_entry_layout [[unat (v :: u8)], [unat (i :: u32)], [unat (a :: u32)]]"
  using unsigned_less [of v, where 'a = nat] unsigned_less [of i, where 'a = nat]
    unsigned_less [of a, where 'a = nat]
  by (simp add: fits_def layout_defs)

lemma length_encode_nat_entry [simp]: "length (encode_nat_entry e) = 9"
  by (simp add: encode_nat_entry_def length_encode_fields fits_nat_entry nat_entry_size)

lemma nat_entry_fields:
  fixes e :: f2fs_nat_entry and rest :: "u8 list"
  defines "bs \<equiv> encode_nat_entry e @ rest"
  shows "fld f2fs_nat_entry_layout ''version'' 0 bs = unat (ne_version e)"
    and "fld f2fs_nat_entry_layout ''ino'' 0 bs = unat (ne_ino e)"
    and "fld f2fs_nat_entry_layout ''block_addr'' 0 bs = unat (ne_block_addr e)"
  using fld_encode_fields [OF fits_nat_entry [of "ne_version e" "ne_ino e" "ne_block_addr e"], of 0 0 rest]
    fld_encode_fields [OF fits_nat_entry [of "ne_version e" "ne_ino e" "ne_block_addr e"], of 1 0 rest]
    fld_encode_fields [OF fits_nat_entry [of "ne_version e" "ne_ino e" "ne_block_addr e"], of 2 0 rest]
  by (simp_all add: bs_def encode_nat_entry_def f2fs_nat_entry_layout_def)

lemma drop_concat_encode:
  "i < length es \<Longrightarrow>
   \<exists>rest'. drop (i * 9) (concat (map encode_nat_entry es) @ rest) = encode_nat_entry (es ! i) @ rest'"
proof (induction es arbitrary: i)
  case Nil
  then show ?case by simp
next
  case (Cons e es)
  show ?case
  proof (cases i)
    case 0
    then show ?thesis by simp
  next
    case (Suc j)
    with Cons obtain rest' where
      "drop (j * 9) (concat (map encode_nat_entry es) @ rest) = encode_nat_entry (es ! j) @ rest'"
      by auto
    with Suc show ?thesis by simp
  qed
qed

lemma nat_entry_at_encode:
  assumes "i < length es"
  shows "nat_entry_at (concat (map encode_nat_entry es) @ rest) i = es ! i"
proof -
  obtain rest' where "drop (i * 9) (concat (map encode_nat_entry es) @ rest)
      = encode_nat_entry (es ! i) @ rest'"
    using drop_concat_encode [OF assms] by blast
  then show ?thesis
    by (simp add: nat_entry_at_def nat_entry_size nat_entry_fields Let_def)
qed

section \<open>Properties\<close>



end
