(* ===== verification/F2fs_Lib.thy ===== *)
theory F2fs_Lib
  imports Tool_State F2fs_Layout
begin

text \<open>
  \<open>lib/libf2fs.c\<close>: reading the superblock, the checkpoint, NAT entries and node blocks of an
  F2FS device, printing them, and the segment table read from procfs. The structures are the
  byte blocks of \<open>F2fs_Layout\<close>. The globals of the file are the record \<open>f2fs_lib\<close>.
\<close>

record f2fs_lib =
  f2fs_sb :: "u8 list"
  f2fs_cp :: "u8 list"
  nat_block_offset :: u32
  nat_entry_offset :: u32

definition zero_f2fs_lib :: f2fs_lib where
  "zero_f2fs_lib = \<lparr>f2fs_sb = replicate 3072 0, f2fs_cp = replicate 192 0,
     nat_block_offset = 0, nat_entry_offset = 0\<rparr>"

abbreviation sb32 :: "f2fs_lib \<Rightarrow> string \<Rightarrow> u32" where
  "sb32 l f \<equiv> fld32 f2fs_super_block_layout f (f2fs_sb l)"

section \<open>Reading blocks\<close>

text \<open>A read of fewer bytes leaves the rest of the destination as it was.\<close>

definition f2fs_read_block :: "os \<Rightarrow> string \<Rightarrow> u8 list \<Rightarrow> u64 \<Rightarrow> nat \<Rightarrow> u8 list option" where
  "f2fs_read_block k path dest off n =
     (case os_read k path off n of None \<Rightarrow> None
      | Some bs \<Rightarrow> Some (take n bs @ drop (length (take n bs)) dest))"

definition f2fs_read_super_block :: "os \<Rightarrow> string \<Rightarrow> f2fs_lib \<Rightarrow> f2fs_lib res" where
  "f2fs_read_super_block k path l =
     (if \<not> os_open k path then Inl (ErrExit ''opening device fd'')
      else case f2fs_read_block k path (f2fs_sb l) F2FS_SUPER_OFFSET
                  (layout_size f2fs_super_block_layout) of
             None \<Rightarrow> Inl (ErrExit ''reading superblock'')
           | Some sb \<Rightarrow> Inr (l\<lparr>f2fs_sb := sb\<rparr>))"

text \<open>\<open>cp_blkaddr << F2FS_BLKSIZE_BITS\<close> is a 32-bit shift; only its result is widened.\<close>

definition f2fs_read_checkpoint :: "os \<Rightarrow> string \<Rightarrow> f2fs_lib \<Rightarrow> f2fs_lib res" where
  "f2fs_read_checkpoint k path l =
     (if \<not> os_open k path then Inl (ErrExit ''opening device fd'')
      else case f2fs_read_block k path (f2fs_cp l)
                  (ucast (push_bit F2FS_BLKSIZE_BITS (sb32 l ''cp_blkaddr'')))
                  (layout_size f2fs_checkpoint_layout) of
             None \<Rightarrow> Inl (ErrExit ''reading checkpoint'')
           | Some cp \<Rightarrow> Inr (l\<lparr>f2fs_cp := cp\<rparr>))"

section \<open>Devices named in the superblock\<close>

text \<open>
  \<open>devs[i]\<close> starts 68 bytes after \<open>devs[i - 1]\<close>. A string read stops at the first NUL
  wherever it is, as \<open>%s\<close> does.
\<close>

definition sb_dev_off :: "nat \<Rightarrow> nat" where
  "sb_dev_off i = field_off f2fs_super_block_layout ''devs''
     + i * field_width f2fs_super_block_layout ''devs''"

definition sb_dev_path :: "nat \<Rightarrow> u8 list \<Rightarrow> string" where
  "sb_dev_path i sb = cstring (drop (sb_dev_off i) sb)"

definition sb_dev_segments :: "nat \<Rightarrow> u8 list \<Rightarrow> u32" where
  "sb_dev_segments i sb = fld32 f2fs_device_layout ''total_segments'' (drop (sb_dev_off i) sb)"

section \<open>Printing the superblock and the checkpoint\<close>

definition f2fs_show_super_block :: "u8 list \<Rightarrow> out list" where
  "f2fs_show_super_block sb =
     (let num = (\<lambda>f. Field f [N (fld f2fs_super_block_layout f 0 sb)]);
          str = (\<lambda>f. Field f [S (cstring (drop (field_off f2fs_super_block_layout f) sb))]);
          ext = (\<lambda>i. S (cstring (drop (field_off f2fs_super_block_layout ''extension_list'' + 8 * i) sb)))
      in [Text ''SUPERBLOCK'']
       @ map num [''magic'', ''major_ver'', ''minor_ver'', ''log_sectorsize'',
           ''log_sectors_per_block'', ''log_blocksize'', ''log_blocks_per_seg'', ''segs_per_sec'',
           ''secs_per_zone'', ''checksum_offset'', ''block_count'', ''section_count'',
           ''segment_count'', ''segment_count_ckpt'', ''segment_count_sit'', ''segment_count_nat'',
           ''segment_count_ssa'', ''segment_count_main'', ''segment0_blkaddr'', ''cp_blkaddr'',
           ''sit_blkaddr'', ''nat_blkaddr'', ''ssa_blkaddr'', ''main_blkaddr'', ''root_ino'',
           ''node_ino'', ''meta_ino'', ''extension_count'']
       @ [Field ''Extensions'' (map ext [0..<F2FS_MAX_EXTENSION])]
       @ [num ''cp_payload'', str ''version'', str ''init_version'', num ''feature'',
           num ''encryption_level'', str ''encrypt_pw_salt'']
       @ [Field ''Devices'' (map (\<lambda>i. S (sb_dev_path i sb))
            (takeWhile (\<lambda>i. sb_dev_segments i sb \<noteq> 0) [0..<MAX_DEVICES]))]
       @ map num [''hot_ext_count'', ''s_encoding'', ''s_encoding_flags'', ''crc''])"

definition f2fs_show_checkpoint :: "u8 list \<Rightarrow> out list" where
  "f2fs_show_checkpoint cp =
     (let num = (\<lambda>f. Field f [N (fld f2fs_checkpoint_layout f 0 cp)]);
          arr = (\<lambda>f i. Field f [N i, N (fld f2fs_checkpoint_layout f i cp)])
      in [Text ''CHECKPOINT'']
       @ map num [''checkpoint_ver'', ''user_block_count'', ''valid_block_count'',
           ''rsvd_segment_count'', ''overprov_segment_count'', ''free_segment_count'',
           ''ckpt_flags'', ''cp_pack_total_block_count'', ''cp_pack_start_sum'',
           ''valid_node_count'', ''valid_inode_count'', ''next_free_nid'',
           ''sit_ver_bitmap_bytesize'', ''nat_ver_bitmap_bytesize'', ''checksum_offset'',
           ''elapsed_time'']
       @ map (arr ''alloc_type'') [3, 4, 5]
       @ map (arr ''cur_node_segno'') [0, 1, 2] @ map (arr ''cur_node_blkoff'') [0, 1, 2]
       @ map (arr ''alloc_type'') [0, 1, 2]
       @ map (arr ''cur_data_segno'') [0, 1, 2] @ map (arr ''cur_data_blkoff'') [0, 1, 2])"

section \<open>NAT entries\<close>

text \<open>The byte address of the NAT block the cursor is in; all its arithmetic is 32-bit.\<close>

definition cur_nat_blkaddress :: "f2fs_lib \<Rightarrow> u64" where
  "cur_nat_blkaddress l =
     ucast (push_bit F2FS_BLKSIZE_BITS (sb32 l ''nat_blkaddr'')
            + nat_block_offset l * of_nat BLOCK_SZ)"

definition nat_next_block :: "f2fs_lib \<Rightarrow> f2fs_lib" where
  "nat_next_block l = l\<lparr>nat_block_offset := nat_block_offset l + 1, nat_entry_offset := 0\<rparr>"

definition nat_search_block :: "u8 list \<Rightarrow> u32 \<Rightarrow> nat \<Rightarrow> nat option" where
  "nat_search_block blk inode_number start =
     find (\<lambda>i. ne_ino (nat_entry_at blk i) = inode_number) [start..<NAT_ENTRY_PER_BLOCK]"

text \<open>The outer loop, with the number of iterations left; \<open>blk\<close> is the block buffer.\<close>

fun nat_scan :: "nat \<Rightarrow> os \<Rightarrow> string \<Rightarrow> u32 \<Rightarrow> u8 list \<Rightarrow> f2fs_lib
    \<Rightarrow> (f2fs_nat_entry option \<times> f2fs_lib) res" where
  "nat_scan 0 k path inode_number blk l = Inr (None, l)"
| "nat_scan (Suc n) k path inode_number blk l =
     (case f2fs_read_block k path blk (cur_nat_blkaddress l) BLOCK_SZ of
        None \<Rightarrow> Inl (ErrExit ''reading NAT Block'')
      | Some blk' \<Rightarrow>
          (case nat_search_block blk' inode_number (unat (nat_entry_offset l)) of
             Some i \<Rightarrow>
               Inr (Some (nat_entry_at blk' i),
                    if i = NAT_ENTRY_PER_BLOCK - 1 then nat_next_block l
                    else l\<lparr>nat_entry_offset := of_nat (i + 1)\<rparr>)
           | None \<Rightarrow> nat_scan n k path inode_number blk' (nat_next_block l)))"

definition nat_blocks :: "f2fs_lib \<Rightarrow> u32" where
  "nat_blocks l =
     push_bit (unat (sb32 l ''log_blocks_per_seg'')) (drop_bit 1 (sb32 l ''segment_count_nat''))"

definition f2fs_get_inode_nat_entry ::
    "os \<Rightarrow> string \<Rightarrow> u32 \<Rightarrow> f2fs_lib \<Rightarrow> (f2fs_nat_entry option \<times> f2fs_lib) res" where
  "f2fs_get_inode_nat_entry k path inode_number l =
     (if \<not> os_open k path then Inl (ErrExit ''opening device fd'')
      else nat_scan (unat (nat_blocks l)) k path inode_number (replicate BLOCK_SZ 0) l)"

section \<open>Node blocks\<close>

text \<open>\<open>block_addr << F2FS_BLKSIZE_BITS\<close> is a shift of a \<open>uint32_t\<close>.\<close>

definition f2fs_get_node_block :: "os \<Rightarrow> string \<Rightarrow> u32 \<Rightarrow> u8 list res" where
  "f2fs_get_node_block k path block_addr =
     (if \<not> os_open k path then Inl (ErrExit ''opening device fd'')
      else case f2fs_read_block k path (replicate (layout_size f2fs_node_layout) 0)
                  (ucast (push_bit F2FS_BLKSIZE_BITS block_addr))
                  (layout_size f2fs_node_layout) of
             None \<Rightarrow> Inl (ErrExit ''reading NAT Block'')
           | Some node \<Rightarrow> Inr node)"

definition node_footer :: "u8 list \<Rightarrow> string \<Rightarrow> u32" where
  "node_footer node f = fld32 node_footer_layout f (drop (field_off f2fs_node_layout ''footer'') node)"

definition IS_INODE :: "u8 list \<Rightarrow> bool" where
  "IS_INODE node \<longleftrightarrow> node_footer node ''nid'' = node_footer node ''ino''"

text \<open>The names of the flags set in a bit field, in the order they are tested.\<close>

definition flag_names :: "(nat \<times> string) list \<Rightarrow> nat \<Rightarrow> string list" where
  "flag_names tbl v = map snd (filter (\<lambda>(m, _). v AND m \<noteq> 0) tbl)"

definition show_inode_fadvise_flags :: "u8 list \<Rightarrow> out" where
  "show_inode_fadvise_flags inode = FlagLine (flag_names
     [(0x01, ''FADVISE_COLD_BIT''), (0x02, ''FADVISE_LOST_PINO_BIT''),
      (0x04, ''FADVISE_ENCRYPT_BIT''), (0x08, ''FADVISE_ENC_NAME_BIT''),
      (0x10, ''FADVISE_KEEP_SIZE_BIT''), (0x20, ''FADVISE_HOT_BIT''),
      (0x40, ''FADVISE_VERITY_BIT''), (0x80, ''FADVISE_TRUNC_BIT'')]
     (fld f2fs_inode_layout ''i_advise'' 0 inode))"

definition show_inode_flags :: "u8 list \<Rightarrow> out" where
  "show_inode_flags inode = FlagLine (flag_names
     [(0x00000004, ''F2FS_COMPR_FL''), (0x00000008, ''F2FS_SYNC_FL''),
      (0x00000010, ''F2FS_IMMUTABLE_FL''), (0x00000020, ''F2FS_APPEND_FL''),
      (0x00000040, ''F2FS_NODUMP_FL''), (0x00000080, ''F2FS_NOATIME_FL''),
      (0x00000400, ''F2FS_NOCOMP_FL''), (0x00001000, ''F2FS_INDEX_FL''),
      (0x00010000, ''F2FS_DIRSYNC_FL''), (0x20000000, ''F2FS_PROJINHERIT_FL''),
      (0x40000000, ''F2FS_CASEFOLD_FL'')]
     (fld f2fs_inode_layout ''i_flags'' 0 inode))"

definition f2fs_show_inode_info :: "u8 list \<Rightarrow> out list" where
  "f2fs_show_inode_info inode =
     (let num = (\<lambda>f. Field f [N (fld f2fs_inode_layout f 0 inode)]);
          nid = (\<lambda>i. Field ''i_nid'' [N i, N (fld f2fs_inode_layout ''i_nid'' i inode)])
      in [num ''i_mode'', show_inode_fadvise_flags inode]
       @ map num [''i_inline'', ''i_uid'', ''i_gid'', ''i_links'', ''i_size'', ''i_blocks'',
           ''i_atime'', ''i_ctime'', ''i_mtime'', ''i_atime_nsec'', ''i_ctime_nsec'',
           ''i_mtime_nsec'', ''i_generation'', ''i_xattr_nid'']
       @ [show_inode_flags inode, num ''i_flags'', num ''i_pino'', num ''i_namelen'',
          Field ''i_name'' [S (cstring (drop (field_off f2fs_inode_layout ''i_name'') inode))],
          num ''i_dir_level'']
       @ map nid [0, 1, 2, 3, 4])"

section \<open>The segment table from procfs\<close>

text \<open>The pieces \<open>strsep\<close> cuts a string into, empty pieces included.\<close>

fun split_on :: "(char \<Rightarrow> bool) \<Rightarrow> string \<Rightarrow> string list" where
  "split_on sep [] = [[]]"
| "split_on sep (ch # s) =
     (if sep ch then [] # split_on sep s
      else (case split_on sep s of [] \<Rightarrow> [[ch]] | p # ps \<Rightarrow> (ch # p) # ps))"

definition zero_segment_info :: segment_info where
  "zero_segment_info = \<lparr>si_id = 0, si_type = CURSEG_HOT_DATA, si_valid_blocks = 0\<rparr>"

text \<open>
  One token of a line. A token with a bar is an entry: the piece before the first bar is the
  type, every later piece is stored as the number of valid blocks, so the last one stays.
\<close>

definition procfs_token :: "string \<Rightarrow> segment_manager \<Rightarrow> segment_manager res" where
  "procfs_token tok sm =
     (if CHR ''|'' \<notin> set tok then Inr sm
      else if length (segments sm) \<le> unat (nr_segments sm) then Inl OutOfBounds
      else
        let ps = split_on (\<lambda>ch. ch = CHR ''|'') tok;
            e = \<lparr>si_id = nr_segments sm, si_type = seg_type_of_int (atoi (hd ps)),
                 si_valid_blocks = of_int (atoi (last ps))\<rparr>
        in Inr (sm\<lparr>segments := (segments sm)[unat (nr_segments sm) := e],
                   nr_segments := nr_segments sm + 1\<rparr>))"

fun procfs_tokens :: "string list \<Rightarrow> segment_manager \<Rightarrow> segment_manager res" where
  "procfs_tokens [] sm = Inr sm"
| "procfs_tokens (t # ts) sm = bind_res (procfs_token t sm) (procfs_tokens ts)"

fun procfs_lines :: "nat \<Rightarrow> u32 \<Rightarrow> string list \<Rightarrow> segment_manager \<Rightarrow> segment_manager res" where
  "procfs_lines line_ctr highest [] sm = Inr sm"
| "procfs_lines line_ctr highest (line # rest) sm =
     (if line_ctr < 2 then procfs_lines (line_ctr + 1) highest rest sm
      else bind_res (procfs_tokens (split_on (\<lambda>ch. ch = CHR '' '' \<or> ch = CHR 0x09) line) sm)
             (\<lambda>sm. if highest < nr_segments sm then Inr sm
                   else procfs_lines line_ctr highest rest sm))"

text \<open>\<open>None\<close> is \<open>EXIT_FAILURE\<close>, returned when the procfs file cannot be opened.\<close>

definition init_procfs_segment_bits ::
    "os \<Rightarrow> string \<Rightarrow> u32 \<Rightarrow> segment_manager \<Rightarrow> (segment_manager option \<times> out list) res" where
  "init_procfs_segment_bits k devname highest_segment segman =
     (let dev = last (split_on (\<lambda>ch. ch = CHR ''/'') devname);
          path = ''/proc/fs/f2fs/'' @ dev @ ''/segment_info''
      in if 50 \<le> length path then Inl OutOfBounds
         else case os_lines k path of
                None \<Rightarrow> Inr (None, [Warn (''Failed opening. Ensure Kernel is running with F2FS Debugging enabled. '' @
                    ''Falling back to disabling procfs segment resolving.'') [S path]])
              | Some ls \<Rightarrow>
                  bind_res (procfs_lines 0 highest_segment ls segman) (\<lambda>sm. Inr (Some sm, [])))"

definition f2fs_fs_manager_init ::
    "os \<Rightarrow> string \<Rightarrow> f2fs_lib \<Rightarrow> (segment_manager option \<times> out list) res" where
  "f2fs_fs_manager_init k devname l =
     (let n = sb32 l ''segment_count_main'';
          segman = \<lparr>nr_segments = 0, segments = replicate (unat n) zero_segment_info\<rparr>
      in init_procfs_segment_bits k devname n segman)"

section \<open>File-system information of an extent\<close>

definition get_fs_info_bytes :: u32 where
  "get_fs_info_bytes = 12"

definition fs_info_initialize :: "segment_manager option \<Rightarrow> u32 \<Rightarrow> segment_info res" where
  "fs_info_initialize mgr segment =
     (case mgr of
        None \<Rightarrow> Inl NullDeref
      | Some segman \<Rightarrow>
          if unat segment < length (segments segman)
          then let s = segments segman ! unat segment in
               Inr \<lparr>si_id = si_id s, si_type = si_type s, si_valid_blocks = si_valid_blocks s\<rparr>
          else Inl OutOfBounds)"

definition f2fs_show_segment :: "segment_info option \<Rightarrow> bool \<Rightarrow> u32 \<Rightarrow> out list res" where
  "f2fs_show_segment fsi quiet shift =
     (case fsi of
        None \<Rightarrow> Inl NullDeref
      | Some seg_i \<Rightarrow>
          Inr (if quiet then []
               else [SegmentType (si_type seg_i)
                       (drop_bit (unat shift)
                         (push_bit F2FS_BLKSIZE_BITS (si_valid_blocks seg_i)))]))"

end
