(* ===== verification/Device.thy ===== *)
theory Device
  imports Tool_State Pow2_Geometry F2fs_Lib
begin

text \<open>
  Devices and zones of \<open>lib/libzns-tools.c\<close>: probing a device, sizes and zone counts, the
  zone map, the zone of an address, printing a zone, and the initialisation of the control
  structure for a file on F2FS or Btrfs.
\<close>

section \<open>Probing a device\<close>

abbreviation zsh :: "control \<Rightarrow> nat" where
  "zsh c \<equiv> unat (zns_sector_shift c)"

definition is_zoned :: "os \<Rightarrow> string \<Rightarrow> control \<Rightarrow> (bool \<times> control) res" where
  "is_zoned k path c =
     (if \<not> os_open k path then Inl (ErrExit ''Failed opening fd'')
      else case os_report_zones k path (drop_bit (zsh c) 0) 1 of
             None \<Rightarrow> Inr (False, info 1 ''Device is conventional block device'' [S path] c)
           | Some _ \<Rightarrow> Inr (True, info 1 ''Device is ZNS'' [S path] c))"

definition get_sector_size :: "os \<Rightarrow> string \<Rightarrow> control \<Rightarrow> (u32 \<times> control) res" where
  "get_sector_size k path c =
     (if \<not> os_open k path then Inl (ErrExit ''opening device fd'')
      else case os_sector_size k path of
             None \<Rightarrow> Inl (ErrExit ''failed getting sector size'')
           | Some sz \<Rightarrow>
               let c = info 1 ''Device has sector size'' [S path, N (unat sz)] c;
                   c = (if sz = 4096 then c\<lparr>zns_sector_shift := 3\<rparr> else c)
               in Inr (sz, c))"

text \<open>\<open>basename\<close> of the C library.\<close>

definition base_name :: "string \<Rightarrow> string" where
  "base_name p =
     (let s = rev (dropWhile (\<lambda>ch. ch = CHR ''/'') (rev p)) in
      if p = [] then ''.'' else if s = [] then ''/''
      else rev (takeWhile (\<lambda>ch. ch \<noteq> CHR ''/'') (rev s)))"

definition init_dev :: "os \<Rightarrow> stat \<Rightarrow> control \<Rightarrow> control res" where
  "init_dev k st c =
     (let path = ''/dev/block/'' @ int_string (sint (st_major st)) @ '':''
                   @ int_string (sint (st_minor st))
      in if \<not> os_open k path then Inl (ErrExit ''opening device fd'')
         else case os_readlink k path of
                None \<Rightarrow> Inl (ErrExit ''opening device fd'')
              | Some l \<Rightarrow>
                  if MAX_PATH_LEN \<le> length l \<or> MAX_DEV_NAME \<le> length (base_name l)
                  then Inl OutOfBounds
                  else Inr (c\<lparr>bdev := (bdev c)\<lparr>dev_path := path, link_name := l,
                                              dev_name := base_name l\<rparr>\<rparr>))"

section \<open>The zone map\<close>

definition mk_zone :: "control \<Rightarrow> blk_zone list \<Rightarrow> nat \<Rightarrow> zone" where
  "mk_zone c zs i =
     (let z = report_zone_at zs i in
      \<lparr>zone_number = of_nat i,
       z_start = drop_bit (zsh c) (bz_start z),
       z_end = drop_bit (zsh c) (bz_start z) + drop_bit (zsh c) (bz_capacity z),
       z_capacity = drop_bit (zsh c) (bz_capacity z),
       z_wp = 0,
       z_state = push_bit 4 (bz_cond z),
       z_mask = b_zone_mask (znsdev c),
       z_extent_ctr = 0,
       extents = []\<rparr>)"

definition init_zone_map :: "os \<Rightarrow> control \<Rightarrow> control res" where
  "init_zone_map k c =
     (let dev = znsdev c in
      if \<not> os_open k (dev_path dev) then Inr c
      else case os_report_zones k (dev_path dev) 0 (b_nr_zones dev) of
             None \<Rightarrow> Inl (ErrExit ''getting Zone Info'')
           | Some zs \<Rightarrow>
               Inr (c\<lparr>zonemap := Some
                 \<lparr>zm_nr_zones = b_nr_zones dev, zm_extent_ctr = 0, cum_extent_size = 0,
                  zone_ctr = 0, zones = map (mk_zone c zs) [0..<unat (b_nr_zones dev)]\<rparr>\<rparr>))"

text \<open>A failed \<open>BLKGETSIZE64\<close> is \<open>(uint64_t)-1\<close>.\<close>

definition get_dev_size :: "os \<Rightarrow> string \<Rightarrow> u64" where
  "get_dev_size k path =
     (if \<not> os_open k path then - 1
      else case os_dev_size k path of None \<Rightarrow> - 1 | Some n \<Rightarrow> n)"

definition get_zone_size :: "os \<Rightarrow> control \<Rightarrow> u64" where
  "get_zone_size k c =
     (if \<not> os_open k (dev_path (znsdev c)) then 0
      else case os_zone_size k (dev_path (znsdev c)) of None \<Rightarrow> 0
           | Some n \<Rightarrow> drop_bit (zsh c) (ucast n))"

definition get_nr_zones :: "os \<Rightarrow> control \<Rightarrow> u32" where
  "get_nr_zones k c =
     (if \<not> os_open k (dev_path (znsdev c)) then 0
      else case os_nr_zones k (dev_path (znsdev c)) of None \<Rightarrow> 0 | Some n \<Rightarrow> n)"

text \<open>The address arithmetic that depends on the sector size of the device.\<close>

definition set_geometry :: "control \<Rightarrow> control" where
  "set_geometry c =
     (let sh = (if sector_size c = 512 then 9 else 12);
          secs = drop_bit sh F2FS_SEGMENT_BYTES
      in c\<lparr>sector_shift := of_nat sh,
           f2fs_segment_sectors := secs,
           f2fs_segment_mask := NOT (secs - 1),
           segment_shift := (if sector_size c = 512 then 12 else 9)\<rparr>)"

text \<open>
  \<open>sprintf\<close> into \<open>dev_path\<close>, the field after \<open>dev_name\<close>: a name that does not end
  inside \<open>dev_name\<close> overlaps the destination.
\<close>

definition init_znsdev :: "os \<Rightarrow> control \<Rightarrow> (u8 \<times> control) res" where
  "init_znsdev k c =
     (if MAX_DEV_NAME \<le> length (dev_name (znsdev c)) then Inl OutOfBounds
      else let c = c\<lparr>znsdev := (znsdev c)\<lparr>dev_path := ''/dev/'' @ dev_name (znsdev c)\<rparr>\<rparr>;
               path = dev_path (znsdev c)
           in if \<not> os_open k path then Inl (ErrExit ''opening device fd'')
              else bind_res (is_zoned k path c) (\<lambda>(zoned, c).
                let c = c\<lparr>znsdev := (znsdev c)\<lparr>b_is_zoned := zoned\<rparr>\<rparr> in
                bind_res (get_sector_size k path c) (\<lambda>(sz, c).
                let c = c\<lparr>sector_size := sz\<rparr>;
                    c = c\<lparr>znsdev := (znsdev c)\<lparr>b_nr_zones := get_nr_zones k c\<rparr>\<rparr>;
                    c = set_geometry c
                in bind_res (init_zone_map k c) (\<lambda>c. Inr (EXIT_SUCCESS, c)))))"

section \<open>Zones of addresses\<close>

text \<open>\<open>zone_mask\<close> is a \<open>uint32_t\<close>, so the mask that is applied is zero-extended.\<close>

definition get_zone_number :: "control \<Rightarrow> u64 \<Rightarrow> u32 res" where
  "get_zone_number c lba =
     (let zs = push_bit (zsh c) (b_zone_size (znsdev c));
          zone_mask = ucast (NOT (zs - 1)) :: u32;
          slba = lba AND ucast zone_mask
      in if zs = 0 then Inl DivByZero else Inr (ucast (slba div zs)))"

definition report_zone :: "os \<Rightarrow> u32 \<Rightarrow> control \<Rightarrow> blk_zone option res" where
  "report_zone k zone c =
     (let start_sector = push_bit (zsh c) (b_zone_size (znsdev c)) * ucast zone;
          path = dev_path (znsdev c)
      in if \<not> os_open k path then Inr None
         else case os_report_zones k path start_sector 1 of
                None \<Rightarrow> Inl (ErrExit ''getting Zone Info'')
              | Some zs \<Rightarrow> Inr (Some (report_zone_at zs 0)))"

definition print_zone_info :: "os \<Rightarrow> u32 \<Rightarrow> control \<Rightarrow> control res" where
  "print_zone_info k zone c =
     bind_res (report_zone k zone c) (\<lambda>r. case r of
        None \<Rightarrow> Inr c
      | Some z \<Rightarrow>
          Inr (msg (ZoneLine zone
                 (drop_bit (zsh c) (bz_start z))
                 (drop_bit (zsh c) (bz_start z) + drop_bit (zsh c) (bz_capacity z))
                 (drop_bit (zsh c) (bz_capacity z))
                 (drop_bit (zsh c) (bz_wp z))
                 (drop_bit (zsh c) (bz_len z))
                 (push_bit 4 (ucast (bz_cond z)))
                 (b_zone_mask (znsdev c))) c))"

definition get_zone_info :: "os \<Rightarrow> control \<Rightarrow> extent \<Rightarrow> extent res" where
  "get_zone_info k c e =
     bind_res (report_zone k (e_zone e) c) (\<lambda>r. case r of
        None \<Rightarrow> Inr e
      | Some z \<Rightarrow>
          Inr (e\<lparr>zone_wp := drop_bit (zsh c) (bz_wp z),
                 zone_lbae := drop_bit (zsh c) (bz_start z) + drop_bit (zsh c) (bz_capacity z),
                 zone_cap := drop_bit (zsh c) (bz_capacity z),
                 zone_lbas := drop_bit (zsh c) (bz_start z)\<rparr>))"

section \<open>The devices of an F2FS superblock\<close>

text \<open>
  \<open>memcpy\<close> of 64 bytes into the 15 bytes of \<open>dev_name\<close> runs on into \<open>dev_path\<close>. The first
  three fields of \<open>struct bdev\<close> are therefore taken as the 143 bytes they are in memory;
  a name is read from its field up to the first NUL.
\<close>

definition string_bytes :: "string \<Rightarrow> u8 list" where
  "string_bytes s = map (\<lambda>ch. of_nat (of_char ch)) s"

definition pad :: "nat \<Rightarrow> string \<Rightarrow> u8 list" where
  "pad n s = take n (string_bytes s @ replicate n 0)"

definition memcpy_at :: "nat \<Rightarrow> u8 list \<Rightarrow> u8 list \<Rightarrow> u8 list" where
  "memcpy_at off bs mem = take off mem @ bs @ drop (off + length bs) mem"

definition bdev_mem :: "bdev \<Rightarrow> u8 list" where
  "bdev_mem b = pad MAX_DEV_NAME (dev_name b) @ pad MAX_PATH_LEN (dev_path b)
     @ pad MAX_PATH_LEN (link_name b)"

definition bdev_of_mem :: "u8 list \<Rightarrow> bdev \<Rightarrow> bdev" where
  "bdev_of_mem mem b =
     b\<lparr>dev_name := cstring mem,
       dev_path := cstring (drop MAX_DEV_NAME mem),
       link_name := cstring (drop (MAX_DEV_NAME + MAX_PATH_LEN) mem)\<rparr>"

text \<open>Bytes of the superblock: 64 from the path of device \<open>i\<close> on, skipping the first \<open>n\<close>.\<close>

definition sb_path_bytes :: "nat \<Rightarrow> nat \<Rightarrow> u8 list \<Rightarrow> u8 list" where
  "sb_path_bytes i n sb = take MAX_PATH_LEN (drop (sb_dev_off i + n) sb)"

text \<open>
  \<open>memset(bdev.dev_name)\<close>, \<open>memcpy(bdev.dev_name, devs[0].path + 5, 64)\<close>,
  \<open>memcpy(bdev.dev_path, devs[0].path, 64)\<close>.
\<close>

definition copy_bdev_names :: "u8 list \<Rightarrow> bdev \<Rightarrow> bdev" where
  "copy_bdev_names sb b =
     (let mem = bdev_mem b;
          mem = memcpy_at 0 (replicate MAX_DEV_NAME 0) mem;
          mem = memcpy_at 0 (sb_path_bytes 0 5 sb) mem;
          mem = memcpy_at MAX_DEV_NAME (sb_path_bytes 0 0 sb) mem
      in bdev_of_mem mem b)"

definition copy_znsdev_name :: "u8 list \<Rightarrow> bdev \<Rightarrow> bdev" where
  "copy_znsdev_name sb b = bdev_of_mem (memcpy_at 0 (sb_path_bytes 1 5 sb) (bdev_mem b)) b"

text \<open>The loop over the devices tests \<open>devs[ZNS_TOOLS_MAX_DEVS]\<close> in every round.\<close>

fun show_sb_devs :: "nat list \<Rightarrow> u8 list \<Rightarrow> control \<Rightarrow> control" where
  "show_sb_devs [] sb c = c"
| "show_sb_devs (i # is) sb c =
     (if sb_dev_segments ZNS_TOOLS_MAX_DEVS sb > 0
      then msg (Warn ''Found more than 2 devices in F2FS superblock'' []) c
      else show_sb_devs is sb (info 1 ''Found device in superblock'' [S (sb_dev_path i sb)] c))"

definition set_super_block_info :: "os \<Rightarrow> u8 list \<Rightarrow> control \<Rightarrow> control res" where
  "set_super_block_info k sb c =
     (let c = show_sb_devs [0..<ZNS_TOOLS_MAX_DEVS] sb c;
          c = c\<lparr>bdev := copy_bdev_names sb (bdev c)\<rparr>
      in bind_res (is_zoned k (dev_path (bdev c)) c) (\<lambda>(zoned, c).
         let c = c\<lparr>bdev := (bdev c)\<lparr>b_is_zoned := zoned\<rparr>\<rparr> in
         bind_res (get_sector_size k (dev_path (bdev c)) c) (\<lambda>(sz, c).
         let c = c\<lparr>sector_size := sz, segment_shift := (if sz = 512 then 12 else 9)\<rparr>;
             c = c\<lparr>znsdev := copy_znsdev_name sb (znsdev c)\<rparr>
         in bind_res (init_znsdev k c) (\<lambda>(ret, c).
            if ret = EXIT_FAILURE then Inl (ErrExit ''Failed initializing'')
            else if \<not> b_is_zoned (znsdev c) then Inl (ErrExit ''is not a ZNS device'')
            else Inr c))))"

section \<open>Initialising the control structure\<close>

definition set_fs_magic :: "os \<Rightarrow> string \<Rightarrow> control \<Rightarrow> control res" where
  "set_fs_magic k name c =
     (case os_statfs k name of
        None \<Rightarrow> Inl (ErrExit ''failed getting file system magic value'')
      | Some m \<Rightarrow> Inr (c\<lparr>fs_magic := m\<rparr>))"

text \<open>Zone size, mask and count, set after the devices are known.\<close>

definition set_zone_sizes :: "os \<Rightarrow> control \<Rightarrow> control" where
  "set_zone_sizes k c =
     (let c = c\<lparr>znsdev := (znsdev c)\<lparr>b_zone_size := get_zone_size k c\<rparr>\<rparr>;
          c = c\<lparr>znsdev := (znsdev c)\<lparr>b_zone_mask := ucast (NOT (b_zone_size (znsdev c) - 1))\<rparr>\<rparr>
      in c\<lparr>znsdev := (znsdev c)\<lparr>b_nr_zones := get_nr_zones k c\<rparr>\<rparr>)"

definition init_f2fs_ctrl :: "os \<Rightarrow> stat \<Rightarrow> f2fs_lib \<Rightarrow> control \<Rightarrow> (f2fs_lib \<times> control) res" where
  "init_f2fs_ctrl k st l c =
     bind_res (init_dev k st c) (\<lambda>c.
     bind_res (f2fs_read_super_block k (dev_path (bdev c)) l) (\<lambda>l.
     bind_res (set_super_block_info k (f2fs_sb l) c) (\<lambda>c.
       let c = c\<lparr>multi_dev := True, offset := get_dev_size k (dev_path (bdev c))\<rparr>
       in Inr (l, set_zone_sizes k c))))"

text \<open>
  \<open>scanf("%s", ...)\<close> into the 15 bytes of \<open>dev_name\<close>; at end of input it returns -1, which
  the test \<open>!ret\<close> does not catch, and leaves the name alone.
\<close>

definition init_btrfs_ctrl :: "os \<Rightarrow> string \<Rightarrow> control \<Rightarrow> control res" where
  "init_btrfs_ctrl k filename c =
     (let c = msg (Warn ''is registered as being on Btrfs'' [S filename]) c;
          name = (case os_scanf k of None \<Rightarrow> dev_name (znsdev c) | Some w \<Rightarrow> w)
      in bind_res (init_znsdev k (c\<lparr>znsdev := (znsdev c)\<lparr>dev_name := name\<rparr>\<rparr>)) (\<lambda>(ret, c).
           if ret = EXIT_FAILURE then Inl (ErrExit ''Failed initializing'')
           else Inr (set_zone_sizes k (c\<lparr>multi_dev := False, offset := 0\<rparr>))))"

definition init_ctrl :: "os \<Rightarrow> string \<Rightarrow> stat \<Rightarrow> f2fs_lib \<Rightarrow> control \<Rightarrow> (f2fs_lib \<times> control) res" where
  "init_ctrl k filename st l c =
     bind_res (set_fs_magic k filename c) (\<lambda>c.
       if fs_magic c = F2FS_MAGIC then init_f2fs_ctrl k st l c
       else if fs_magic c = BTRFS_MAGIC
       then bind_res (init_btrfs_ctrl k filename c) (\<lambda>c. Inr (l, c))
       else Inr (l, c))"

end
