(* ===== verification/File_Counters.thy ===== *)
theory File_Counters
  imports Device
begin

text \<open>
  The per-file counters of \<open>lib/libzns-tools.c\<close>: \<open>increase_file_extent_counter\<close>,
  \<open>get_file_extent_count\<close>, \<open>increase_file_segment_counter\<close>, and \<open>contains_element\<close>. The
  counters are an array searched by file name.
\<close>

section \<open>The operations\<close>

definition active :: "file_counter_map \<Rightarrow> file_counter list" where
  "active m = take (unat (file_ctr m)) (files m)"

definition bump_extents :: "string \<Rightarrow> file_counter_map \<Rightarrow> file_counter_map res" where
  "bump_extents file m =
     (case index_of (\<lambda>f. fc_file f = file) (active m) of
        Some i \<Rightarrow>
          let f = files m ! i in
          Inr (m\<lparr>files := (files m)[i := f\<lparr>fc_ext_ctr := fc_ext_ctr f + 1\<rparr>]\<rparr>)
      | None \<Rightarrow>
          let i = unat (file_ctr m); f = files m ! i in
          if i < length (files m)
          then Inr (m\<lparr>files := (files m)[i := f\<lparr>fc_file := take MAX_FILE_LENGTH file, fc_ext_ctr := 1\<rparr>],
                     file_ctr := file_ctr m + 1\<rparr>)
          else Inl OutOfBounds)"

definition increase_file_extent_counter :: "string \<Rightarrow> control \<Rightarrow> control res" where
  "increase_file_extent_counter file c =
     (case file_counter_map c of
        None \<Rightarrow> Inl NullDeref
      | Some m \<Rightarrow> bind_res (bump_extents file m) (\<lambda>m. Inr (c\<lparr>file_counter_map := Some m\<rparr>)))"

definition same_file :: "string \<Rightarrow> file_counter \<Rightarrow> bool" where
  "same_file file f \<longleftrightarrow> str_eq_n (length (fc_file f)) (fc_file f) file"

definition get_file_extent_count :: "string \<Rightarrow> control \<Rightarrow> u32 res" where
  "get_file_extent_count file c =
     (case file_counter_map c of
        None \<Rightarrow> Inl NullDeref
      | Some m \<Rightarrow>
          Inr (case index_of (same_file file) (active m) of
                 None \<Rightarrow> 0
               | Some i \<Rightarrow> fc_ext_ctr (files m ! i)))"

text \<open>The heat counters of a file counter.\<close>

definition bump_class :: "seg_type \<Rightarrow> u32 \<Rightarrow> file_counter \<Rightarrow> file_counter" where
  "bump_class t n f =
     (case t of
        CURSEG_COLD_DATA \<Rightarrow> f\<lparr>cold_ctr := cold_ctr f + n\<rparr>
      | CURSEG_WARM_DATA \<Rightarrow> f\<lparr>warm_ctr := warm_ctr f + n\<rparr>
      | CURSEG_HOT_DATA \<Rightarrow> f\<lparr>hot_ctr := hot_ctr f + n\<rparr>
      | _ \<Rightarrow> f)"

definition bump_segments :: "seg_type \<Rightarrow> u32 \<Rightarrow> u32 \<Rightarrow> file_counter \<Rightarrow> file_counter" where
  "bump_segments t num cur f =
     (if last_segment_id f \<noteq> ucast cur
      then bump_class t num (f\<lparr>fc_segment_ctr := fc_segment_ctr f + num, last_segment_id := ucast cur\<rparr>)
      else f)"

text \<open>\<open>num * F2FS_SEGMENT_BYTES >> sector_shift\<close> is 32-bit arithmetic; the quotient is 64-bit.\<close>

definition bump_zones :: "control \<Rightarrow> u32 \<Rightarrow> u64 \<Rightarrow> u32 \<Rightarrow> file_counter \<Rightarrow> file_counter res" where
  "bump_zones c num cap zone f =
     (if fc_last_zone f \<noteq> zone
      then if cap = 0 then Inl DivByZero
           else Inr (f\<lparr>fc_zone_ctr := fc_zone_ctr f
                  + ucast (ucast (drop_bit (unat (sector_shift c)) (num * ucast F2FS_SEGMENT_BYTES) :: u32)
                            div cap + 1 :: u64),
                  fc_last_zone := zone\<rparr>)
      else Inr f)"

text \<open>
  Without a match the loop leaves \<open>i\<close> at \<open>file_ctr\<close>, the entry after the last one in use,
  and the function goes on with that entry.
\<close>

definition increase_file_segment_counter ::
    "string \<Rightarrow> u32 \<Rightarrow> u32 \<Rightarrow> segment_info option \<Rightarrow> u64 \<Rightarrow> control \<Rightarrow> control res" where
  "increase_file_segment_counter file num cur fsi cap c =
     (case (fsi, file_counter_map c) of
        (Some seg_i, Some m) \<Rightarrow>
          let i = (case index_of (same_file file) (active m) of
                     Some i \<Rightarrow> i | None \<Rightarrow> unat (file_ctr m))
          in if length (files m) \<le> i then Inl OutOfBounds
             else
               bind_res (get_zone_number c (ucast (drop_bit (zsh c)
                           (push_bit (unat (segment_shift c)) cur)))) (\<lambda>zone.
               bind_res (bump_zones c num cap zone
                           (bump_segments (si_type seg_i) num cur (files m ! i))) (\<lambda>f.
                 Inr (c\<lparr>file_counter_map := Some (m\<lparr>files := (files m)[i := f]\<rparr>)\<rparr>)))
      | _ \<Rightarrow> Inl NullDeref)"

fun contains_element :: "u32 list \<Rightarrow> u32 \<Rightarrow> nat \<Rightarrow> bool res" where
  "contains_element lst x 0 = Inr False"
| "contains_element [] x (Suc n) = Inl OutOfBounds"
| "contains_element (y # ys) x (Suc n) = (if y = x then Inr True else contains_element ys x n)"

lemma same_file_eq: "same_file file = (\<lambda>f. fc_file f = file)"
  by (simp add: fun_eq_iff same_file_def str_eq_n_exact)

section \<open>Counter tables\<close>

text \<open>
  A table of counters keyed by name, as its users see it: a count per name, and an action
  that adds an amount to the count of one name. The extent counters are one table; the
  per-file segment statistics of \<open>Segmap\<close> are another.
\<close>

locale counter_table =
  fixes count :: "'t \<Rightarrow> 'k \<Rightarrow> 'n::comm_monoid_add"
    and bump :: "'a \<Rightarrow> 't \<Rightarrow> 't res"
    and key_of :: "'a \<Rightarrow> 'k"
    and amount :: "'a \<Rightarrow> 'n"
    and valid :: "'a \<Rightarrow> bool"
    and keys :: "'t \<Rightarrow> 'k set"
    and inv :: "'t \<Rightarrow> bool"
  assumes bump_count: "inv t \<Longrightarrow> valid a \<Longrightarrow> bump a t = Inr t' \<Longrightarrow>
        count t' j = (if j = key_of a then count t j + amount a else count t j)"
    and bump_keys: "inv t \<Longrightarrow> valid a \<Longrightarrow> bump a t = Inr t' \<Longrightarrow> keys t' = insert (key_of a) (keys t)"
    and bump_inv: "inv t \<Longrightarrow> valid a \<Longrightarrow> bump a t = Inr t' \<Longrightarrow> inv t'"
    and count_absent: "inv t \<Longrightarrow> j \<notin> keys t \<Longrightarrow> count t j = 0"
begin

fun bump_all :: "'a list \<Rightarrow> 't \<Rightarrow> 't res" where
  "bump_all [] t = Inr t"
| "bump_all (a # as) t = bind_res (bump a t) (bump_all as)"

lemma bump_all_inv:
  "inv t \<Longrightarrow> \<forall>a\<in>set as. valid a \<Longrightarrow> bump_all as t = Inr t' \<Longrightarrow> inv t'"
  by (induction as arbitrary: t) (auto simp: bind_res_Inr_iff intro: bump_inv)

lemma bump_all_keys:
  "inv t \<Longrightarrow> \<forall>a\<in>set as. valid a \<Longrightarrow> bump_all as t = Inr t' \<Longrightarrow>
   keys t' = keys t \<union> key_of ` set as"
proof (induction as arbitrary: t)
  case Nil
  then show ?case by simp
next
  case (Cons a as)
  then obtain t1 where t1: "bump a t = Inr t1" "bump_all as t1 = Inr t'"
    by (auto simp: bind_res_Inr_iff)
  with Cons have "keys t' = keys t1 \<union> key_of ` set as"
    by (auto intro: bump_inv)
  with bump_keys [OF Cons.prems(1) _ t1(1)] Cons.prems(2) show ?case by auto
qed

lemma bump_all_count:
  "inv t \<Longrightarrow> \<forall>a\<in>set as. valid a \<Longrightarrow> bump_all as t = Inr t' \<Longrightarrow>
   count t' j = count t j + sum_list (map amount (filter (\<lambda>a. key_of a = j) as))"
proof (induction as arbitrary: t)
  case Nil
  then show ?case by simp
next
  case (Cons a as)
  then obtain t1 where t1: "bump a t = Inr t1" "bump_all as t1 = Inr t'"
    by (auto simp: bind_res_Inr_iff)
  with Cons have "count t' j = count t1 j + sum_list (map amount (filter (\<lambda>a. key_of a = j) as))"
    by (auto intro: bump_inv)
  then show ?case
    using bump_count [OF Cons.prems(1) _ t1(1), of j] Cons.prems(2) by (auto simp: add.assoc)
qed

end

section \<open>The extent counters are a counter table\<close>

definition fcm_keys :: "file_counter_map \<Rightarrow> string set" where
  "fcm_keys m = set (map fc_file (active m))"

definition fcm_inv :: "file_counter_map \<Rightarrow> bool" where
  "fcm_inv m \<longleftrightarrow> unat (file_ctr m) \<le> length (files m) \<and> length (files m) < 2 ^ 32 \<and>
     distinct (map fc_file (active m)) \<and> (\<forall>x\<in>fcm_keys m. length x < MAX_FILE_LENGTH)"

definition ext_count :: "file_counter_map \<Rightarrow> string \<Rightarrow> u32" where
  "ext_count m file =
     (case index_of (\<lambda>f. fc_file f = file) (active m) of
        None \<Rightarrow> 0 | Some i \<Rightarrow> fc_ext_ctr (files m ! i))"

lemma active_nth: "i < length (active m) \<Longrightarrow> active m ! i = files m ! i"
  by (simp add: active_def)

lemma length_active: "unat (file_ctr m) \<le> length (files m) \<Longrightarrow> length (active m) = unat (file_ctr m)"
  by (simp add: active_def)

lemma bump_extents_found:
  assumes "index_of (\<lambda>f. fc_file f = file) (active m) = Some i" "fcm_inv m"
  obtains f where "bump_extents file m = Inr (m\<lparr>files := (files m)[i := f\<lparr>fc_ext_ctr := fc_ext_ctr f + 1\<rparr>]\<rparr>)"
    "f = files m ! i" "fc_file f = file" "i < unat (file_ctr m)" "i < length (files m)"
  using assms
  by (auto simp: bump_extents_def Let_def index_of_Some_iff active_nth length_active fcm_inv_def)

lemma bump_extents_new:
  assumes "index_of (\<lambda>f. fc_file f = file) (active m) = None" "fcm_inv m"
    "bump_extents file m = Inr m'" "length file < MAX_FILE_LENGTH"
  shows "active m' = active m @ [(files m ! unat (file_ctr m))\<lparr>fc_file := file, fc_ext_ctr := 1\<rparr>]"
    "files m' = (files m)[unat (file_ctr m) := (files m ! unat (file_ctr m))\<lparr>fc_file := file, fc_ext_ctr := 1\<rparr>]"
    "unat (file_ctr m') = unat (file_ctr m) + 1" "unat (file_ctr m) < length (files m)"
proof -
  let ?i = "unat (file_ctr m)"
  have i: "?i < length (files m)"
    and m': "m' = m\<lparr>files := (files m)[?i := (files m ! ?i)\<lparr>fc_file := file, fc_ext_ctr := 1\<rparr>],
                   file_ctr := file_ctr m + 1\<rparr>"
    using assms by (auto simp: bump_extents_def Let_def split: if_splits)
  have n: "unat (file_ctr m + 1) = ?i + 1"
    using i assms(2) by (simp add: unat_add_mod fcm_inv_def)
  show "unat (file_ctr m') = ?i + 1" "?i < length (files m)"
    and "files m' = (files m)[?i := (files m ! ?i)\<lparr>fc_file := file, fc_ext_ctr := 1\<rparr>]"
    using n m' i by simp_all
  show "active m' = active m @ [(files m ! ?i)\<lparr>fc_file := file, fc_ext_ctr := 1\<rparr>]"
    using i n m' by (simp add: active_def take_Suc_conv_app_nth)
qed

lemma active_update:
  "i < unat (file_ctr m) \<Longrightarrow> active (m\<lparr>files := (files m)[i := f]\<rparr>) = (active m)[i := f]"
  by (simp add: active_def take_update_swap)

lemma index_of_update_same:
  "i < length xs \<Longrightarrow> key y = key (xs ! i) \<Longrightarrow>
   index_of (\<lambda>f. key f = k) (xs[i := y]) = index_of (\<lambda>f. key f = k) xs"
proof (induction xs arbitrary: i)
  case Nil
  then show ?case by simp
next
  case (Cons x xs)
  then show ?case by (cases i) auto
qed

lemma index_of_snoc:
  "index_of P (xs @ [y]) = (case index_of P xs of Some i \<Rightarrow> Some i
     | None \<Rightarrow> if P y then Some (length xs) else None)"
  by (induction xs) (auto split: option.splits)

lemma distinct_index_of:
  assumes "distinct (map key xs)" "i < length xs"
  shows "index_of (\<lambda>f. key f = key (xs ! i)) xs = Some i"
proof -
  have "key (xs ! j) \<noteq> key (xs ! i)" if "j < i" for j
    using assms that nth_eq_iff_index_eq [of "map key xs" j i] by simp
  with assms(2) show ?thesis by (simp add: index_of_Some_iff)
qed

lemma map_update_same:
  "i < length xs \<Longrightarrow> key y = key (xs ! i) \<Longrightarrow> map key (xs[i := y]) = map key xs"
  by (simp add: map_update list_update_same_conv)

lemma bump_extents_inv:
  assumes "fcm_inv m" "length file < MAX_FILE_LENGTH" "bump_extents file m = Inr m'"
  shows "fcm_inv m'"
proof (cases "index_of (\<lambda>f. fc_file f = file) (active m)")
  case None
  with assms show ?thesis
    using bump_extents_new [OF None assms(1,3,2)] by (auto simp: fcm_inv_def fcm_keys_def index_of_None)
next
  case (Some i)
  with assms obtain f where f: "m' = m\<lparr>files := (files m)[i := f\<lparr>fc_ext_ctr := fc_ext_ctr f + 1\<rparr>]\<rparr>"
    "f = files m ! i" "i < unat (file_ctr m)" "i < length (files m)"
    by (auto elim!: bump_extents_found)
  have fi: "fc_file (f\<lparr>fc_ext_ctr := fc_ext_ctr f + 1\<rparr>) = fc_file (active m ! i)"
    using f assms(1) by (simp add: active_nth length_active fcm_inv_def)
  have i: "i < length (active m)" using f assms(1) by (simp add: length_active fcm_inv_def)
  have "map fc_file (active m') = map fc_file (active m)"
    using map_update_same [OF i, of fc_file, OF fi] f by (simp add: active_update)
  with assms(1) f(1) show ?thesis
    by (simp add: fcm_inv_def fcm_keys_def del: set_map)
qed

lemma bump_extents_keys:
  assumes "fcm_inv m" "length file < MAX_FILE_LENGTH" "bump_extents file m = Inr m'"
  shows "fcm_keys m' = insert file (fcm_keys m)"
proof (cases "index_of (\<lambda>f. fc_file f = file) (active m)")
  case None
  with assms show ?thesis
    using bump_extents_new [OF None assms(1,3,2)] by (auto simp: fcm_keys_def)
next
  case (Some i)
  with assms obtain f where f: "m' = m\<lparr>files := (files m)[i := f\<lparr>fc_ext_ctr := fc_ext_ctr f + 1\<rparr>]\<rparr>"
    "f = files m ! i" "fc_file f = file" "i < unat (file_ctr m)" "i < length (files m)"
    by (auto elim!: bump_extents_found)
  have i: "i < length (active m)" using f assms(1) by (simp add: length_active fcm_inv_def)
  have fi: "fc_file (f\<lparr>fc_ext_ctr := fc_ext_ctr f + 1\<rparr>) = fc_file (active m ! i)"
    using f i by (simp add: active_nth)
  have "map fc_file (active m') = map fc_file (active m)"
    using map_update_same [OF i, of fc_file, OF fi] f by (simp add: active_update)
  moreover have "file \<in> set (map fc_file (active m))"
    using i f(2,3) active_nth [OF i] by (metis length_map nth_map nth_mem)
  ultimately show ?thesis by (simp add: fcm_keys_def insert_absorb)
qed

lemma ext_count_active:
  "ext_count m file = (case index_of (\<lambda>f. fc_file f = file) (active m) of
     None \<Rightarrow> 0 | Some i \<Rightarrow> fc_ext_ctr (active m ! i))"
  by (auto simp: ext_count_def active_nth dest!: index_of_less split: option.split)

lemma bump_extents_count:
  assumes "fcm_inv m" "length file < MAX_FILE_LENGTH" "bump_extents file m = Inr m'"
  shows "ext_count m' j = (if j = file then ext_count m j + 1 else ext_count m j)"
proof (cases "index_of (\<lambda>f. fc_file f = file) (active m)")
  case None
  have a: "active m' = active m @ [(files m ! unat (file_ctr m))\<lparr>fc_file := file, fc_ext_ctr := 1\<rparr>]"
    using bump_extents_new [OF None assms(1,3,2)] by simp
  show ?thesis
    using None by (auto simp: ext_count_active a index_of_snoc nth_append
        dest!: index_of_less split: option.split)
next
  case (Some i)
  with assms obtain f where f: "m' = m\<lparr>files := (files m)[i := f\<lparr>fc_ext_ctr := fc_ext_ctr f + 1\<rparr>]\<rparr>"
    "f = files m ! i" "fc_file f = file" "i < unat (file_ctr m)" "i < length (files m)"
    by (auto elim!: bump_extents_found)
  have i: "i < length (active m)" using f assms(1) by (simp add: length_active fcm_inv_def)
  have fi: "fc_file (f\<lparr>fc_ext_ctr := fc_ext_ctr f + 1\<rparr>) = fc_file (active m ! i)"
    using f i by (simp add: active_nth)
  have idx: "index_of (\<lambda>f. fc_file f = j) (active m') = index_of (\<lambda>f. fc_file f = j) (active m)"
    using index_of_update_same [OF i fi] f by (simp add: active_update)
  have act: "active m' = (active m)[i := f\<lparr>fc_ext_ctr := fc_ext_ctr f + 1\<rparr>]"
    using f by (simp add: active_update)
  show ?thesis
  proof (cases "j = file")
    case True
    then show ?thesis using Some i f(2,3) idx by (simp add: ext_count_active act active_nth)
  next
    case False
    have "k \<noteq> i" if "index_of (\<lambda>f. fc_file f = j) (active m) = Some k" for k
      using that False f i by (auto simp: index_of_Some_iff active_nth)
    then show ?thesis using False idx by (auto simp: ext_count_active act split: option.split)
  qed
qed

lemma ext_count_absent: "file \<notin> fcm_keys m \<Longrightarrow> ext_count m file = 0"
  by (auto simp: ext_count_def fcm_keys_def index_of_None split: option.split
      dest: index_of_less simp: index_of_Some_iff)

interpretation fec: counter_table ext_count bump_extents "\<lambda>f. f" "\<lambda>_. 1"
    "\<lambda>f. length f < MAX_FILE_LENGTH" fcm_keys fcm_inv
  by unfold_locales
    (simp_all add: bump_extents_count bump_extents_keys bump_extents_inv ext_count_absent)

text \<open>Under the invariant the lookup of \<open>get_file_extent_count\<close> is the count of the table.\<close>

lemma get_file_extent_count_table:
  "file_counter_map c = Some m \<Longrightarrow> get_file_extent_count file c = Inr (ext_count m file)"
  by (simp add: get_file_extent_count_def ext_count_def same_file_eq)

text \<open>A free slot is all an insertion needs.\<close>

lemma bump_extents_ok:
  "unat (file_ctr m) < length (files m) \<Longrightarrow> \<exists>m'. bump_extents file m = Inr m'"
  by (auto simp: bump_extents_def Let_def split: option.split)

end
