(* ===== verification/Zone_List.thy ===== *)
theory Zone_List
  imports Tool_State
begin

text \<open>
  The extents of a zone: a singly linked list kept in the order of the physical address
  (\<open>lib/libzns-tools.c\<close>, \<open>create_zone_extent_node\<close> to \<open>add_extent_to_zone_list\<close>, and
  \<open>cleanup_zonemap\<close>). The operations are modelled twice: on lists, as the rest of the
  development uses them, and on a heap of nodes with the pointer-to-pointer walk of the C
  code; the second refines the first.
\<close>

section \<open>The list operations\<close>

text \<open>The node holds a copy of the extent and of its file-system information.\<close>

definition create_zone_extent_node :: "extent \<Rightarrow> extent" where
  "create_zone_extent_node e =
     (case fs_info e of None \<Rightarrow> e | Some i \<Rightarrow> e\<lparr>fs_info := Some i\<rparr>)"

definition insert_zone_list_head :: "extent \<Rightarrow> extent list" where
  "insert_zone_list_head node = [node]"

fun sorted_zone_list_insert :: "extent list \<Rightarrow> extent \<Rightarrow> extent list" where
  "sorted_zone_list_insert [] node = [node]"
| "sorted_zone_list_insert (cur # rest) node =
     (if phy_blk cur < phy_blk node then cur # sorted_zone_list_insert rest node
      else node # cur # rest)"

definition zone_add :: "extent \<Rightarrow> zone \<Rightarrow> zone" where
  "zone_add e z =
     (let node = create_zone_extent_node e;
          z = (if z_extent_ctr z = 0 then z\<lparr>extents := insert_zone_list_head node\<rparr>
               else z\<lparr>extents := sorted_zone_list_insert (extents z) node\<rparr>)
      in z\<lparr>z_extent_ctr := z_extent_ctr z + 1\<rparr>)"

definition add_extent_to_zone_list :: "extent \<Rightarrow> control \<Rightarrow> control res" where
  "add_extent_to_zone_list e c =
     (case zonemap c of
        None \<Rightarrow> Inl NullDeref
      | Some m \<Rightarrow>
          let i = unat (e_zone e) in
          if i < length (zones m)
          then Inr (c\<lparr>zonemap := Some (m\<lparr>zones := (zones m)[i := zone_add e (zones m ! i)]\<rparr>)\<rparr>)
          else Inl OutOfBounds)"

lemma create_zone_extent_node_id [simp]: "create_zone_extent_node e = e"
  by (simp add: create_zone_extent_node_def split: option.split)

section \<open>Ordered stores\<close>

text \<open>
  What the users of a zone list rely on: an insertion that keeps the elements in key order
  and adds exactly the new element.
\<close>

locale ordered_store =
  fixes ins :: "'l \<Rightarrow> 'a \<Rightarrow> 'l"
    and elems :: "'l \<Rightarrow> 'a list"
    and key :: "'a \<Rightarrow> 'k::linorder"
  assumes ins_sorted: "sorted (map key (elems l)) \<Longrightarrow> sorted (map key (elems (ins l x)))"
    and ins_mset: "mset (elems (ins l x)) = add_mset x (mset (elems l))"
begin

lemma ins_length: "length (elems (ins l x)) = Suc (length (elems l))"
proof -
  have "size (mset (elems (ins l x))) = Suc (size (mset (elems l)))" by (simp add: ins_mset)
  then show ?thesis by simp
qed

lemma ins_set: "set (elems (ins l x)) = insert x (set (elems l))"
  using arg_cong [OF ins_mset, of set_mset] by simp

lemma foldl_sorted: "sorted (map key (elems l)) \<Longrightarrow> sorted (map key (elems (foldl ins l xs)))"
  by (induction xs arbitrary: l) (auto intro: ins_sorted)

lemma foldl_mset: "mset (elems (foldl ins l xs)) = mset (elems l) + mset xs"
  by (induction xs arbitrary: l) (auto simp: ins_mset)

end

lemma sorted_zone_list_insert_mset:
  "mset (sorted_zone_list_insert xs e) = add_mset e (mset xs)"
  by (induction xs) auto

lemma sorted_zone_list_insert_set:
  "set (sorted_zone_list_insert xs e) = insert e (set xs)"
  by (induction xs) auto

lemma sorted_zone_list_insert_sorted:
  "sorted (map phy_blk xs) \<Longrightarrow> sorted (map phy_blk (sorted_zone_list_insert xs e))"
  by (induction xs) (auto simp: sorted_zone_list_insert_set)

interpretation zl: ordered_store sorted_zone_list_insert "\<lambda>xs. xs" phy_blk
  by unfold_locales (auto simp: sorted_zone_list_insert_mset intro: sorted_zone_list_insert_sorted)

text \<open>Extents with equal addresses come out in reverse order of their insertion.\<close>

lemma sorted_zone_list_insert_split:
  "sorted (map phy_blk xs) \<Longrightarrow>
   sorted_zone_list_insert xs e =
     filter (\<lambda>x. phy_blk x < phy_blk e) xs @ e # filter (\<lambda>x. \<not> phy_blk x < phy_blk e) xs"
proof (induction xs)
  case Nil
  then show ?case by simp
next
  case (Cons x xs)
  show ?case
  proof (cases "phy_blk x < phy_blk e")
    case True
    with Cons show ?thesis by simp
  next
    case False
    with Cons.prems have "\<forall>y\<in>set xs. \<not> phy_blk y < phy_blk e"
      by fastforce
    with False show ?thesis by (simp add: filter_empty_conv)
  qed
qed

section \<open>The invariant of a zone\<close>

definition zone_wf :: "zone \<Rightarrow> bool" where
  "zone_wf z \<longleftrightarrow> sorted (map phy_blk (extents z)) \<and> unat (z_extent_ctr z) = length (extents z)"

lemma zone_add_extents:
  "zone_wf z \<Longrightarrow> extents (zone_add e z) = sorted_zone_list_insert (extents z) e"
  by (auto simp: zone_wf_def zone_add_def insert_zone_list_head_def Let_def)

lemma zone_add_fields [simp]:
  "z_extent_ctr (zone_add e z) = z_extent_ctr z + 1"
  "zone_number (zone_add e z) = zone_number z" "z_start (zone_add e z) = z_start z"
  "z_end (zone_add e z) = z_end z" "z_capacity (zone_add e z) = z_capacity z"
  by (simp_all add: zone_add_def Let_def)

lemma zone_add_wf:
  assumes "zone_wf z" "length (extents z) + 1 < 2 ^ 32"
  shows "zone_wf (zone_add e z)"
proof -
  have "unat (z_extent_ctr z + 1) = unat (z_extent_ctr z) + 1"
    using assms by (simp add: unat_add_mod zone_wf_def)
  with assms show ?thesis
    by (simp add: zone_wf_def zone_add_extents zl.ins_sorted zl.ins_length)
qed

section \<open>The pointer code\<close>

text \<open>
  The heap maps addresses to nodes; NULL is \<open>None\<close>. \<open>struct node **current\<close> points at the
  list head or at the \<open>next\<close> field of a node.
\<close>

record node =
  nd_extent :: extent
  nd_next :: "nat option"

type_synonym heap = "nat \<Rightarrow> node option"

datatype cell = Head | NextOf nat

definition load :: "heap \<Rightarrow> nat option \<Rightarrow> cell \<Rightarrow> nat option res" where
  "load h head cur =
     (case cur of Head \<Rightarrow> Inr head
      | NextOf a \<Rightarrow> (case h a of None \<Rightarrow> Inl OutOfBounds | Some n \<Rightarrow> Inr (nd_next n)))"

definition store :: "heap \<Rightarrow> nat option \<Rightarrow> cell \<Rightarrow> nat option \<Rightarrow> (heap \<times> nat option) res" where
  "store h head cur p =
     (case cur of Head \<Rightarrow> Inr (h, p)
      | NextOf a \<Rightarrow> (case h a of None \<Rightarrow> Inl OutOfBounds
                    | Some n \<Rightarrow> Inr (h(a \<mapsto> n\<lparr>nd_next := p\<rparr>), head)))"

partial_function (option) walk :: "heap \<Rightarrow> nat option \<Rightarrow> u64 \<Rightarrow> cell \<Rightarrow> cell res option" where
  "walk h head k cur =
     (case load h head cur of
        Inl e \<Rightarrow> Some (Inl e)
      | Inr None \<Rightarrow> Some (Inr cur)
      | Inr (Some a) \<Rightarrow>
          (case h a of
             None \<Rightarrow> Some (Inl OutOfBounds)
           | Some n \<Rightarrow> if phy_blk (nd_extent n) < k then walk h head k (NextOf a)
                       else Some (Inr cur)))"

definition ptr_sorted_insert :: "heap \<Rightarrow> nat option \<Rightarrow> nat \<Rightarrow> (heap \<times> nat option) res option" where
  "ptr_sorted_insert h head new =
     (case h new of
        None \<Rightarrow> Some (Inl OutOfBounds)
      | Some n \<Rightarrow>
          map_option (\<lambda>r. bind_res r (\<lambda>cur.
              bind_res (load h head cur) (\<lambda>p.
                store (h(new \<mapsto> n\<lparr>nd_next := p\<rparr>)) head cur (Some new))))
            (walk h head (phy_blk (nd_extent n)) Head))"

text \<open>\<open>path h p as\<close>: from \<open>p\<close> the list runs through the nodes at the addresses \<open>as\<close>.\<close>

fun path :: "heap \<Rightarrow> nat option \<Rightarrow> nat list \<Rightarrow> bool" where
  "path h p [] \<longleftrightarrow> p = None"
| "path h p (a # as) \<longleftrightarrow> p = Some a \<and> (\<exists>n. h a = Some n \<and> path h (nd_next n) as)"

definition contents :: "heap \<Rightarrow> nat list \<Rightarrow> extent list" where
  "contents h as = map (\<lambda>a. nd_extent (the (h a))) as"

lemma path_cong: "(\<And>a. a \<in> set as \<Longrightarrow> h a = h' a) \<Longrightarrow> path h p as = path h' p as"
  by (induction as arbitrary: p) auto

lemma contents_cong: "(\<And>a. a \<in> set as \<Longrightarrow> h a = h' a) \<Longrightarrow> contents h as = contents h' as"
  by (auto simp: contents_def)

lemma path_upd_other [simp]: "x \<notin> set as \<Longrightarrow> path (h(x := v)) p as = path h p as"
  by (rule path_cong) auto

lemma contents_upd_other [simp]: "x \<notin> set as \<Longrightarrow> contents (h(x := v)) as = contents h as"
  by (rule contents_cong) auto

lemma contents_simps [simp]:
  "contents h [] = []"
  "contents h (a # as) = nd_extent (the (h a)) # contents h as"
  by (simp_all add: contents_def)

lemma sorted_zone_list_insert_takeWhile:
  "sorted_zone_list_insert xs e =
     takeWhile (\<lambda>x. phy_blk x < phy_blk e) xs @ e # dropWhile (\<lambda>x. phy_blk x < phy_blk e) xs"
  by (induction xs) auto

text \<open>The cell the walk stops at: the one after the last node with a smaller address.\<close>

definition cell_after :: "cell \<Rightarrow> nat list \<Rightarrow> cell" where
  "cell_after cur as = (if as = [] then cur else NextOf (last as))"

definition node_before :: "heap \<Rightarrow> u64 \<Rightarrow> nat \<Rightarrow> bool" where
  "node_before h k a \<longleftrightarrow> phy_blk (nd_extent (the (h a))) < k"

lemma walk_path:
  "path h p as \<Longrightarrow> load h head cur = Inr p \<Longrightarrow>
   walk h head k cur = Some (Inr (cell_after cur (takeWhile (node_before h k) as)))"
proof (induction as arbitrary: p cur)
  case Nil
  then show ?case by (simp add: walk.simps cell_after_def)
next
  case (Cons a as)
  then obtain n where a: "p = Some a" "h a = Some n" "path h (nd_next n) as" by auto
  have "load h head (NextOf a) = Inr (nd_next n)" using a by (simp add: load_def)
  then have "walk h head k (NextOf a) =
      Some (Inr (cell_after (NextOf a) (takeWhile (node_before h k) as)))"
    by (rule Cons.IH [OF a(3)])
  with a Cons.prems(2) show ?case
    by (subst walk.simps) (auto simp: cell_after_def node_before_def)
qed

text \<open>The last node of a prefix gives access to the rest; relinking it inserts a node there.\<close>

lemma path_mid:
  "path h p (xs @ a # ys) \<Longrightarrow> \<exists>n. h a = Some n \<and> path h (nd_next n) ys"
  by (induction xs arbitrary: p) auto

lemma path_relink:
  "path h p (xs @ a # ys) \<Longrightarrow> distinct (xs @ a # ys) \<Longrightarrow> new \<notin> set (xs @ a # ys) \<Longrightarrow>
   h a = Some n \<Longrightarrow>
   path (h(new \<mapsto> m\<lparr>nd_next := nd_next n\<rparr>, a \<mapsto> n\<lparr>nd_next := Some new\<rparr>)) p (xs @ a # new # ys)"
  by (induction xs arbitrary: p) auto

lemma contents_takeWhile:
  "contents h (takeWhile (node_before h k) as) = takeWhile (\<lambda>x. phy_blk x < k) (contents h as)"
  by (induction as) (auto simp: node_before_def)

lemma contents_dropWhile:
  "contents h (dropWhile (node_before h k) as) = dropWhile (\<lambda>x. phy_blk x < k) (contents h as)"
  by (induction as) (auto simp: node_before_def)

lemma contents_append [simp]: "contents h (xs @ ys) = contents h xs @ contents h ys"
  by (simp add: contents_def)

lemma contents_relink:
  "a \<in> set as \<Longrightarrow> h a = Some n \<Longrightarrow> contents (h(a \<mapsto> n\<lparr>nd_next := q\<rparr>)) bs = contents h bs"
  by (auto simp: contents_def)

text \<open>What the insertion leaves: a list through the old nodes and the new one.\<close>

definition inserted :: "heap \<Rightarrow> nat list \<Rightarrow> nat \<Rightarrow> extent \<Rightarrow> heap \<Rightarrow> nat option \<Rightarrow> nat list \<Rightarrow> bool" where
  "inserted h as new e h' head' as' \<longleftrightarrow>
     path h' head' as' \<and> distinct as' \<and> set as' = insert new (set as) \<and>
     contents h' as' = sorted_zone_list_insert (contents h as) e \<and>
     (\<forall>b. b \<notin> insert new (set as) \<longrightarrow> h' b = h b)"

lemma ptr_sorted_insert_inserted:
  assumes p: "path h head as" "distinct as" "new \<notin> set as" "h new = Some n"
  defines "pre \<equiv> takeWhile (node_before h (phy_blk (nd_extent n))) as"
    and "suf \<equiv> dropWhile (node_before h (phy_blk (nd_extent n))) as"
  shows "\<exists>h' head'. ptr_sorted_insert h head new = Some (Inr (h', head')) \<and>
     inserted h as new (nd_extent n) h' head' (pre @ new # suf)"
proof -
  have as: "as = pre @ suf" by (simp add: pre_def suf_def)
  have w: "walk h head (phy_blk (nd_extent n)) Head = Some (Inr (cell_after Head pre))"
    using walk_path [OF p(1), of head Head] by (simp add: load_def pre_def)
  have c: "contents h pre @ nd_extent n # contents h suf
      = sorted_zone_list_insert (contents h as) (nd_extent n)"
    by (simp add: pre_def suf_def contents_takeWhile contents_dropWhile
        sorted_zone_list_insert_takeWhile)
  show ?thesis
  proof (cases pre rule: rev_cases)
    case Nil
    then show ?thesis
      using w p as c
      by (auto simp: ptr_sorted_insert_def cell_after_def load_def store_def inserted_def)
  next
    case (snoc pre' a)
    then have as': "as = pre' @ a # suf" using as by simp
    from path_mid p(1) as' obtain m where m: "h a = Some m" "path h (nd_next m) suf" by blast
    let ?h = "h(new \<mapsto> n\<lparr>nd_next := nd_next m\<rparr>, a \<mapsto> m\<lparr>nd_next := Some new\<rparr>)"
    have ne: "a \<noteq> new" using p(3) as' by auto
    have "path ?h head (pre' @ a # new # suf)"
      using p m as' by (intro path_relink) auto
    moreover have "ptr_sorted_insert h head new = Some (Inr (?h, head))"
      using w m ne p(4) snoc
      by (simp add: ptr_sorted_insert_def cell_after_def load_def store_def)
    moreover have "contents ?h (pre @ new # suf) = contents h pre @ nd_extent n # contents h suf"
      using p as' snoc m ne by (auto simp: contents_def)
    moreover have "\<forall>b. b \<notin> insert new (set as) \<longrightarrow> ?h b = h b" using as' by auto
    ultimately show ?thesis
      using p as as' snoc c by (auto simp: inserted_def)
  qed
qed

section \<open>Freeing a zone map\<close>

text \<open>The loop of \<open>cleanup_zonemap\<close> over one list; freeing a free address is an error.\<close>

partial_function (option) free_list :: "heap \<Rightarrow> nat option \<Rightarrow> heap res option" where
  "free_list h head =
     (case head of
        None \<Rightarrow> Some (Inr h)
      | Some a \<Rightarrow>
          (case h a of
             None \<Rightarrow> Some (Inl OutOfBounds)
           | Some n \<Rightarrow> free_list (h(a := None)) (nd_next n)))"

fun cleanup_zonemap :: "heap \<Rightarrow> nat option list \<Rightarrow> heap res option" where
  "cleanup_zonemap h [] = Some (Inr h)"
| "cleanup_zonemap h (head # heads) =
     (case free_list h head of
        None \<Rightarrow> None
      | Some (Inl e) \<Rightarrow> Some (Inl e)
      | Some (Inr h') \<Rightarrow> cleanup_zonemap h' heads)"

lemma free_list_path:
  "path h head as \<Longrightarrow> distinct as \<Longrightarrow> free_list h head = Some (Inr (h |` (- set as)))"
proof (induction as arbitrary: h head)
  case Nil
  then show ?case by (simp add: free_list.simps)
next
  case (Cons a as)
  then obtain n where a: "head = Some a" "h a = Some n" "path h (nd_next n) as" "a \<notin> set as"
    by auto
  have "path (h(a := None)) (nd_next n) as" using a by simp
  then have "free_list (h(a := None)) (nd_next n) = Some (Inr ((h(a := None)) |` (- set as)))"
    by (rule Cons.IH) (use Cons.prems(2) in simp)
  moreover have "(h(a := None)) |` (- set as) = h |` (- set (a # as))"
    by (auto simp: restrict_map_def fun_eq_iff)
  ultimately show ?case using a by (subst free_list.simps) simp
qed

lemma cleanup_zonemap_paths:
  "list_all2 (path h) heads ass \<Longrightarrow> distinct (concat ass) \<Longrightarrow>
   cleanup_zonemap h heads = Some (Inr (h |` (- set (concat ass))))"
proof (induction ass arbitrary: h heads)
  case Nil
  then show ?case by simp
next
  case (Cons as ass)
  then obtain head heads' where h: "heads = head # heads'" "path h head as"
    "list_all2 (path h) heads' ass"
    by (cases heads) auto
  let ?h = "h |` (- set as)"
  have "path ?h p bs = path h p bs" if "set bs \<inter> set as = {}" for p bs
    using that by (intro path_cong) (auto simp: restrict_map_def)
  then have "list_all2 (path ?h) heads' ass"
    using h(3) Cons.prems(2) by (auto simp: list_all2_conv_all_nth) (metis Int_commute UN_iff disjoint_iff nth_mem)
  then have "cleanup_zonemap ?h heads' = Some (Inr (?h |` (- set (concat ass))))"
    using Cons by simp
  moreover have "?h |` (- set (concat ass)) = h |` (- set (concat (as # ass)))"
    by (auto simp: restrict_map_def fun_eq_iff)
  ultimately show ?case
    using h Cons.prems(2) by (simp add: free_list_path)
qed

section \<open>Properties\<close>

text \<open>C6. The pointer code of the sorted insertion returns and implements the insertion into a
  list: from a well-formed list that does not hold the new node it makes a well-formed list
  through the old nodes and the new one, whose extents are the sorted insertion of the new
  extent, and it changes no node outside these.\<close>

theorem ptr_sorted_insert_refines:
  assumes "path h head as" "distinct as" "new \<notin> set as" "h new = Some n"
  shows "\<exists>h' head' as'. ptr_sorted_insert h head new = Some (Inr (h', head')) \<and>
    path h' head' as' \<and> distinct as' \<and> set as' = insert new (set as) \<and>
    contents h' as' = sorted_zone_list_insert (contents h as) (nd_extent n) \<and>
    (\<forall>b. b \<notin> insert new (set as) \<longrightarrow> h' b = h b)"
  using ptr_sorted_insert_inserted [OF assms] unfolding inserted_def by blast

definition two_nodes :: heap where
  "two_nodes = [0 \<mapsto> \<lparr>nd_extent = zero_extent\<lparr>phy_blk := 5\<rparr>, nd_next = None\<rparr>,
     1 \<mapsto> \<lparr>nd_extent = zero_extent, nd_next = None\<rparr>]"

theorem ptr_sorted_insert_refines_witness:
  "\<exists>h' head' as'. ptr_sorted_insert two_nodes (Some 0) 1 = Some (Inr (h', head')) \<and>
    path h' head' as' \<and> contents h' as' = [zero_extent, zero_extent\<lparr>phy_blk := 5\<rparr>]"
proof -
  have "path two_nodes (Some 0) [0]" "distinct [0 :: nat]" "1 \<notin> set [0 :: nat]"
    "two_nodes 1 = Some \<lparr>nd_extent = zero_extent, nd_next = None\<rparr>"
    by (simp_all add: two_nodes_def)
  moreover have "sorted_zone_list_insert (contents two_nodes [0]) zero_extent
      = [zero_extent, zero_extent\<lparr>phy_blk := 5\<rparr>]"
    by (simp add: two_nodes_def zero_extent_def)
  ultimately show ?thesis
    using ptr_sorted_insert_refines [of two_nodes "Some 0" "[0]" 1 "\<lparr>nd_extent = zero_extent, nd_next = None\<rparr>"]
    by simp blast
qed

text \<open>C20. The cleanup of the zone map returns, frees every node of every zone list exactly once
  (a second free or a read of freed memory would be an error) and frees nothing else.\<close>

theorem cleanup_zonemap_frees:
  "list_all2 (path h) heads ass \<Longrightarrow> distinct (concat ass) \<Longrightarrow>
   cleanup_zonemap h heads = Some (Inr (h |` (- set (concat ass))))"
  by (rule cleanup_zonemap_paths)

theorem cleanup_zonemap_frees_witness:
  "cleanup_zonemap two_nodes [Some 0, None, Some 1] = Some (Inr Map.empty)"
proof -
  have "list_all2 (path two_nodes) [Some 0, None, Some 1] [[0], [], [1]]" by (simp add: two_nodes_def)
  moreover have "two_nodes |` (- {0, 1}) = Map.empty" by (auto simp: two_nodes_def restrict_map_def)
  ultimately show ?thesis
    using cleanup_zonemap_frees [of two_nodes "[Some 0, None, Some 1]" "[[0], [], [1]]"] by simp
qed

end
