(* ===== verification/Extents.thy ===== *)
theory Extents
  imports File_Counters Zone_List
begin

text \<open>
  Collecting the extents of a file: \<open>get_extents\<close> of \<open>lib/libzns-tools.c\<close>, which asks the
  kernel for one extent at a time and files it under its zone, and \<open>show_extent_flags\<close>.
\<close>

section \<open>Flags\<close>

definition show_extent_flags :: "u32 \<Rightarrow> out" where
  "show_extent_flags flags = FlagLine (map snd (filter (\<lambda>(m, _). flags AND m \<noteq> 0)
     [(FIEMAP_EXTENT_UNKNOWN, ''FIEMAP_EXTENT_UNKNOWN''),
      (FIEMAP_EXTENT_DELALLOC, ''FIEMAP_EXTENT_DELALLOC''),
      (FIEMAP_EXTENT_ENCODED, ''FIEMAP_EXTENT_ENCODED''),
      (FIEMAP_EXTENT_DATA_ENCRYPTED, ''FIEMAP_EXTENT_DATA_ENCRYPTED''),
      (FIEMAP_EXTENT_NOT_ALIGNED, ''FIEMAP_EXTENT_NOT_ALIGNED''),
      (FIEMAP_EXTENT_DATA_INLINE, ''FIEMAP_EXTENT_DATA_INLINE''),
      (FIEMAP_EXTENT_DATA_TAIL, ''FIEMAP_EXTENT_DATA_TAIL''),
      (FIEMAP_EXTENT_UNWRITTEN, ''FIEMAP_EXTENT_UNWRITTEN''),
      (FIEMAP_EXTENT_MERGED, ''FIEMAP_EXTENT_MERGED'')]))"

section \<open>The file counter array of a call\<close>

text \<open>
  \<open>calloc\<close> of one entry on the first call, \<open>realloc\<close> to \<open>nr_files + 1\<close> entries on later
  calls, with the next free entry cleared. Memory is taken to be available.
\<close>

definition grow_file_counters :: "os \<Rightarrow> control \<Rightarrow> control res" where
  "grow_file_counters k c =
     (case file_counter_map c of
        None \<Rightarrow> Inr (c\<lparr>file_counter_map := Some \<lparr>file_ctr = 0, files = [zero_file_counter]\<rparr>\<rparr>)
      | Some m \<Rightarrow>
          let n = unat (nr_files c + 1);
              fs = take n (files m @ replicate (n - length (files m)) (os_fresh k));
              i = unat (file_ctr m)
          in if i < length fs
             then Inr (c\<lparr>file_counter_map := Some (m\<lparr>files := fs[i := zero_file_counter]\<rparr>)\<rparr>)
             else Inl OutOfBounds)"

section \<open>One extent\<close>

text \<open>The extent structure as filled in before the zone list gets a copy.\<close>

definition fill_extent :: "string \<Rightarrow> fiemap_extent \<Rightarrow> u64 \<Rightarrow> control \<Rightarrow> extent" where
  "fill_extent filename fe n c =
     zero_extent
       \<lparr>phy_blk := drop_bit (unat (sector_shift c)) (fe_physical fe - offset c),
        logical_blk := drop_bit (unat (sector_shift c)) (fe_logical fe),
        e_len := drop_bit (unat (sector_shift c)) (fe_length fe),
        e_zone_size := b_zone_size (znsdev c),
        ext_nr := ucast n,
        e_flags := fe_flags fe,
        e_file := strcpy_n MAX_FILE_LENGTH filename\<rparr>"

definition add_fs_info :: "control \<Rightarrow> extent \<Rightarrow> extent res" where
  "add_fs_info c e =
     (if 0 < fs_info_bytes c
      then case fs_info_init c of
             None \<Rightarrow> Inl NullDeref
           | Some f \<Rightarrow>
               bind_res (f (fs_manager c)
                   (ucast (drop_bit (unat (segment_shift c)) (phy_blk e AND f2fs_segment_mask c))))
                 (\<lambda>i. Inr (e\<lparr>fs_info := Some i\<rparr>))
      else Inr e)"

definition count_extent :: "control \<Rightarrow> control res" where
  "count_extent c =
     (case zonemap c of
        None \<Rightarrow> Inl NullDeref
      | Some m \<Rightarrow> Inr (c\<lparr>zonemap := Some (m\<lparr>zm_extent_ctr := zm_extent_ctr m + 1,
                                            zone_ctr := zone_ctr m + 1\<rparr>)\<rparr>))"

definition record_extent :: "os \<Rightarrow> string \<Rightarrow> fiemap_extent \<Rightarrow> u64 \<Rightarrow> control \<Rightarrow> control res" where
  "record_extent k filename fe n c =
     (case zonemap c of
        None \<Rightarrow> Inl NullDeref
      | Some m \<Rightarrow>
          let e = fill_extent filename fe n c;
              c = c\<lparr>zonemap := Some (m\<lparr>cum_extent_size := cum_extent_size m + e_len e\<rparr>)\<rparr>
          in bind_res (get_zone_number c (push_bit (zsh c) (phy_blk e))) (\<lambda>z.
             bind_res (get_zone_info k c (e\<lparr>e_zone := z\<rparr>)) (\<lambda>e.
             bind_res (add_fs_info c (e\<lparr>fileID := nr_files c\<rparr>)) (\<lambda>e.
             bind_res (add_extent_to_zone_list e c) (\<lambda>c.
             bind_res (increase_file_extent_counter (e_file e) c) count_extent)))))"

definition extent_note :: "string \<Rightarrow> fiemap_extent \<Rightarrow> control \<Rightarrow> control" where
  "extent_note filename fe c =
     (let sh = unat (sector_shift c) in
      info 2 ''Extent Reported on''
        [S filename, S (dev_name (bdev c)), N (unat (drop_bit sh (fe_physical fe))),
         N (unat (drop_bit sh (fe_physical fe + fe_length fe))),
         N (unat (drop_bit sh (fe_length fe)))] c)"

text \<open>
  One round of the loop body after the extent has been read: an extent in front of the ZNS
  address space and an extent with an excluded flag are only logged. The counter \<open>n\<close> is
  \<open>ext_ctr\<close>.
\<close>

definition handle_extent ::
    "os \<Rightarrow> string \<Rightarrow> fiemap_extent \<Rightarrow> u64 \<times> control \<Rightarrow> (u64 \<times> control) res" where
  "handle_extent k filename fe = (\<lambda>(n, c).
     bind_res
       (if fe_physical fe < offset c then
          let c = extent_note filename fe c in
          Inr (n, if 1 < log_level c \<and> show_flags c then msg (show_extent_flags (fe_flags fe)) c else c)
        else if fe_flags fe AND exclude_flags c \<noteq> 0 then
          let c = extent_note filename fe c in
          Inr (n, if 1 < log_level c
                  then msg (show_extent_flags (exclude_flags c))
                         (msg (Text ''Disregarding extent because exclude flag is set to:'')
                           (msg (show_extent_flags (fe_flags fe)) c))
                  else c)
        else bind_res (record_extent k filename fe n c) (\<lambda>c. Inr (n + 1, c)))
       (\<lambda>(n, c). Inr (n, if fe_flags fe AND FIEMAP_EXTENT_DATA_INLINE \<noteq> 0
                         then c\<lparr>inlined_extent_ctr := inlined_extent_ctr c + 1\<rparr> else c)))"

section \<open>The loop\<close>

text \<open>
  \<open>do ... while (last_ext == 0)\<close>. The first field of the result is the return code. The
  buffer has room for \<open>st_blocks\<close> extents, so reading the first one needs one block.
\<close>

fun get_extents_loop ::
    "nat \<Rightarrow> os \<Rightarrow> string \<Rightarrow> stat \<Rightarrow> u64 \<Rightarrow> u64 \<times> control \<Rightarrow> (u8 \<times> control) res" where
  "get_extents_loop 0 k filename st fm_start nc = Inl OutOfFuel"
| "get_extents_loop (Suc fuel) k filename st fm_start nc =
     (case os_fiemap k filename fm_start (push_bit 3 (st_blocks st)) (ucast (st_blocks st)) of
        None \<Rightarrow> Inr (EXIT_FAILURE, snd nc)
      | Some (mapped, fe) \<Rightarrow>
          if mapped = 0 then Inl (ErrExit ''no extents are mapped'')
          else if st_blocks st = 0 then Inl OutOfBounds
          else bind_res (handle_extent k filename fe nc) (\<lambda>nc.
            if fe_flags fe AND FIEMAP_EXTENT_LAST \<noteq> 0
            then Inr (EXIT_SUCCESS, (snd nc)\<lparr>nr_files := nr_files (snd nc) + 1\<rparr>)
            else get_extents_loop fuel k filename st (fe_logical fe + fe_length fe) nc))"

definition get_extents :: "nat \<Rightarrow> os \<Rightarrow> string \<Rightarrow> stat \<Rightarrow> control \<Rightarrow> (u8 \<times> control) res" where
  "get_extents fuel k filename st c =
     bind_res (grow_file_counters k c) (\<lambda>c. get_extents_loop fuel k filename st 0 (0, c))"

end
