(* ===== verification/Extents_Inv.thy ===== *)
theory Extents_Inv
  imports Extents
begin

text \<open>
  What \<open>get_extents\<close> establishes: the loop visits exactly the extents the kernel serves, the
  zone map holds exactly the recorded extents, each in its zone and in address order, and the
  counters of the zone map and of the files are the sizes of what is recorded.
\<close>

section \<open>The loop visits every extent once\<close>

fun handle_all :: "os \<Rightarrow> string \<Rightarrow> fiemap_extent list \<Rightarrow> u64 \<times> control \<Rightarrow> (u64 \<times> control) res" where
  "handle_all k filename [] nc = Inr nc"
| "handle_all k filename (e # es) nc = bind_res (handle_extent k filename e nc) (handle_all k filename es)"

text \<open>
  The documented behaviour of \<open>FS_IOC_FIEMAP\<close> on a file with extents \<open>es\<close>: asked from where
  an extent ends (from \<open>s\<close> for the first), it reports the next one, and the last extent, and no
  other, carries \<open>FIEMAP_EXTENT_LAST\<close>.
\<close>

fun fiemap_serves :: "os \<Rightarrow> string \<Rightarrow> stat \<Rightarrow> u64 \<Rightarrow> fiemap_extent list \<Rightarrow> bool" where
  "fiemap_serves k filename st s [] \<longleftrightarrow> False"
| "fiemap_serves k filename st s (e # es) \<longleftrightarrow>
     (case os_fiemap k filename s (push_bit 3 (st_blocks st)) (ucast (st_blocks st)) of
        None \<Rightarrow> False | Some (mapped, fe) \<Rightarrow> mapped \<noteq> 0 \<and> fe = e) \<and>
     (if es = [] then fe_flags e AND FIEMAP_EXTENT_LAST \<noteq> 0
      else fe_flags e AND FIEMAP_EXTENT_LAST = 0 \<and>
           fiemap_serves k filename st (fe_logical e + fe_length e) es)"

definition close_file :: "u64 \<times> control \<Rightarrow> (u8 \<times> control) res" where
  "close_file nc = Inr (EXIT_SUCCESS, (snd nc)\<lparr>nr_files := nr_files (snd nc) + 1\<rparr>)"

lemma get_extents_loop_serves:
  "fiemap_serves k f st s es \<Longrightarrow> st_blocks st \<noteq> 0 \<Longrightarrow> length es \<le> fuel \<Longrightarrow>
   get_extents_loop fuel k f st s nc = bind_res (handle_all k f es nc) close_file"
proof (induction es arbitrary: s nc fuel)
  case Nil
  then show ?case by simp
next
  case (Cons e es)
  then obtain fuel' where fuel: "fuel = Suc fuel'" "length es \<le> fuel'" by (cases fuel) auto
  from Cons.prems(1) obtain mapped where m:
    "os_fiemap k f s (push_bit 3 (st_blocks st)) (ucast (st_blocks st)) = Some (mapped, e)" "mapped \<noteq> 0"
    by (auto split: option.splits)
  show ?case
  proof (cases "es = []")
    case True
    then show ?thesis using Cons.prems m fuel by (cases "handle_extent k f e nc") (auto simp: close_file_def)
  next
    case False
    with Cons.prems(1) have n: "fe_flags e AND FIEMAP_EXTENT_LAST = 0"
      "fiemap_serves k f st (fe_logical e + fe_length e) es"
      by (auto split: option.splits)
    have "get_extents_loop fuel k f st s nc = bind_res (handle_extent k f e nc)
            (get_extents_loop fuel' k f st (fe_logical e + fe_length e))"
      using m n Cons.prems(2) by (simp add: fuel)
    also have "\<dots> = bind_res (handle_extent k f e nc) (\<lambda>nc. bind_res (handle_all k f es nc) close_file)"
    proof -
      have "get_extents_loop fuel' k f st (fe_logical e + fe_length e)
          = (\<lambda>nc. bind_res (handle_all k f es nc) close_file)"
        by (rule ext) (rule Cons.IH [OF n(2) Cons.prems(2) fuel(2)])
      then show ?thesis by (simp only:)
    qed
    finally show ?thesis by simp
  qed
qed

section \<open>What is recorded\<close>

definition recorded :: "zone_map \<Rightarrow> extent multiset" where
  "recorded m = (\<Sum>z\<leftarrow>zones m. mset (extents z))"

definition zm_inv :: "zone_map \<Rightarrow> bool" where
  "zm_inv m \<longleftrightarrow> unat (zm_nr_zones m) = length (zones m) \<and>
     (\<forall>i<length (zones m). zone_wf (zones m ! i) \<and>
        (\<forall>e\<in>set (extents (zones m ! i)). unat (e_zone e) = i)) \<and>
     zm_extent_ctr m = of_nat (size (recorded m)) \<and>
     zone_ctr m = of_nat (size (recorded m)) \<and>
     cum_extent_size m = (\<Sum>e\<in>#recorded m. e_len e)"

definition zone_of :: "zone_map \<Rightarrow> nat \<Rightarrow> extent list" where
  "zone_of m i = extents (zones m ! i)"

lemma sum_list_map_update:
  fixes g :: "'a \<Rightarrow> 'b::comm_monoid_add"
  shows "i < length xs \<Longrightarrow> g y = d + g (xs ! i) \<Longrightarrow>
    sum_list (map g (xs[i := y])) = d + sum_list (map g xs)"
proof (induction xs arbitrary: i)
  case Nil
  then show ?case by simp
next
  case (Cons x xs)
  then show ?case by (cases i) (auto simp: ac_simps)
qed

lemma zone_wf_size:
  assumes "i < length (zones m)"
  shows "length (extents (zones m ! i)) \<le> size (recorded m)"
proof -
  have "mset (extents z) \<subseteq># (\<Sum>z\<leftarrow>zs. mset (extents z))" if "z \<in> set zs" for z zs
    using that
  proof (induction zs)
    case (Cons a zs)
    then show ?case by (auto intro: subset_mset.add_increasing)
  qed simp
  from this [of "zones m ! i" "zones m"] assms show ?thesis
    by (auto simp: recorded_def dest: size_mset_mono)
qed

lemma recorded_member: "i < length (zones m) \<Longrightarrow> e \<in> set (extents (zones m ! i)) \<Longrightarrow> e \<in># recorded m"
proof -
  have "e \<in># (\<Sum>z\<leftarrow>zs. mset (extents z))" if "z \<in> set zs" "e \<in> set (extents z)" for z zs
    using that by (induction zs) auto
  then show "i < length (zones m) \<Longrightarrow> e \<in> set (extents (zones m ! i)) \<Longrightarrow> e \<in># recorded m"
    by (auto simp: recorded_def)
qed

lemma recorded_add:
  assumes "i < length (zones m)" "zone_wf (zones m ! i)"
  shows "recorded (m\<lparr>zones := (zones m)[i := zone_add e (zones m ! i)]\<rparr>) = add_mset e (recorded m)"
proof -
  have "mset (extents (zone_add e (zones m ! i))) = {#e#} + mset (extents (zones m ! i))"
    using assms(2) by (simp add: zone_add_extents sorted_zone_list_insert_mset)
  from sum_list_map_update [OF assms(1), of "\<lambda>z. mset (extents z)", OF this]
  show ?thesis by (simp add: recorded_def)
qed

lemma recorded_frame [simp]:
  "recorded (m\<lparr>cum_extent_size := x\<rparr>) = recorded m"
  "recorded (m\<lparr>zm_extent_ctr := y\<rparr>) = recorded m"
  "recorded (m\<lparr>zone_ctr := w\<rparr>) = recorded m"
  by (simp_all add: recorded_def)

text \<open>The zone map after one more extent, as the three updates of the C code leave it.\<close>

definition zm_add :: "extent \<Rightarrow> zone_map \<Rightarrow> zone_map" where
  "zm_add e m =
     (let i = unat (e_zone e) in
      m\<lparr>cum_extent_size := cum_extent_size m + e_len e,
        zones := (zones m)[i := zone_add e (zones m ! i)],
        zm_extent_ctr := zm_extent_ctr m + 1,
        zone_ctr := zone_ctr m + 1\<rparr>)"

lemma recorded_zm_add:
  assumes "zm_inv m" "unat (e_zone e) < length (zones m)"
  shows "recorded (zm_add e m) = add_mset e (recorded m)"
proof -
  have "recorded (zm_add e m) =
      recorded (m\<lparr>zones := (zones m)[unat (e_zone e) := zone_add e (zones m ! unat (e_zone e))]\<rparr>)"
    by (simp add: recorded_def zm_add_def Let_def)
  with assms show ?thesis by (simp add: recorded_add zm_inv_def)
qed

lemma zm_add_fields [simp]:
  "zones (zm_add e m) = (zones m)[unat (e_zone e) := zone_add e (zones m ! unat (e_zone e))]"
  "zm_extent_ctr (zm_add e m) = zm_extent_ctr m + 1" "zone_ctr (zm_add e m) = zone_ctr m + 1"
  "cum_extent_size (zm_add e m) = cum_extent_size m + e_len e"
  "zm_nr_zones (zm_add e m) = zm_nr_zones m"
  by (simp_all add: zm_add_def Let_def)

definition zone_at_ok :: "nat \<Rightarrow> zone \<Rightarrow> bool" where
  "zone_at_ok i z \<longleftrightarrow> zone_wf z \<and> (\<forall>e\<in>set (extents z). unat (e_zone e) = i)"

lemma zm_inv_alt:
  "zm_inv m \<longleftrightarrow> unat (zm_nr_zones m) = length (zones m) \<and> (\<forall>i<length (zones m). zone_at_ok i (zones m ! i)) \<and>
     zm_extent_ctr m = of_nat (size (recorded m)) \<and> zone_ctr m = of_nat (size (recorded m)) \<and>
     cum_extent_size m = (\<Sum>e\<in>#recorded m. e_len e)"
  by (simp add: zm_inv_def zone_at_ok_def)

lemma zone_at_ok_add:
  assumes "zone_at_ok i z" "length (extents z) + 1 < 2 ^ 32" "unat (e_zone e) = i"
  shows "zone_at_ok i (zone_add e z)"
proof -
  have wf: "zone_wf z" using assms(1) by (simp add: zone_at_ok_def)
  have "set (extents (zone_add e z)) = insert e (set (extents z))"
    by (simp add: zone_add_extents [OF wf] flip: set_mset_mset)
      (simp add: sorted_zone_list_insert_mset)
  with zone_add_wf [OF wf assms(2)] assms(1,3) show ?thesis by (simp add: zone_at_ok_def)
qed

lemma zm_inv_zm_add:
  assumes "zm_inv m" "unat (e_zone e) < length (zones m)" "size (recorded m) + 1 < 2 ^ 32"
  shows "zm_inv (zm_add e m)"
proof -
  let ?i = "unat (e_zone e)"
  have "length (extents (zones m ! ?i)) + 1 < 2 ^ 32"
    using zone_wf_size [OF assms(2)] assms(3) by linarith
  then have z: "zone_at_ok ?i (zone_add e (zones m ! ?i))"
    using assms(1,2) by (intro zone_at_ok_add) (simp_all add: zm_inv_alt)
  have "zone_at_ok j (zones (zm_add e m) ! j)" if "j < length (zones m)" for j
    using that assms(1) z by (cases "j = ?i") (simp_all add: zm_inv_alt)
  moreover have r: "recorded (zm_add e m) = add_mset e (recorded m)"
    using assms(1,2) by (rule recorded_zm_add)
  have ctrs: "zm_extent_ctr m = of_nat (size (recorded m))" "zone_ctr m = of_nat (size (recorded m))"
    "cum_extent_size m = (\<Sum>e\<in>#recorded m. e_len e)"
    using assms(1) by (simp_all add: zm_inv_alt)
  have "zm_extent_ctr (zm_add e m) = of_nat (size (recorded (zm_add e m)))"
    "zone_ctr (zm_add e m) = of_nat (size (recorded (zm_add e m)))"
    "cum_extent_size (zm_add e m) = (\<Sum>e\<in>#recorded (zm_add e m). e_len e)"
    unfolding r zm_add_fields ctrs by (simp_all add: add.commute)
  moreover have "unat (zm_nr_zones m) = length (zones m)" using assms(1) by (simp add: zm_inv_alt)
  ultimately show ?thesis unfolding zm_inv_alt by simp
qed

section \<open>Recording one extent\<close>

lemma get_zone_info_fields:
  "get_zone_info k c e = Inr e' \<Longrightarrow>
   e_zone e' = e_zone e \<and> phy_blk e' = phy_blk e \<and> e_len e' = e_len e \<and> e_file e' = e_file e \<and>
   ext_nr e' = ext_nr e \<and> e_flags e' = e_flags e \<and> fs_info e' = fs_info e \<and>
   logical_blk e' = logical_blk e"
  by (auto simp: get_zone_info_def bind_res_Inr_iff split: option.splits)

lemma add_fs_info_fields:
  "add_fs_info c e = Inr e' \<Longrightarrow>
   e_zone e' = e_zone e \<and> phy_blk e' = phy_blk e \<and> e_len e' = e_len e \<and> e_file e' = e_file e \<and>
   ext_nr e' = ext_nr e \<and> e_flags e' = e_flags e \<and> fileID e' = fileID e \<and>
   logical_blk e' = logical_blk e"
  by (auto simp: add_fs_info_def bind_res_Inr_iff split: option.splits if_splits)

text \<open>
  What a recorded extent carries of the device and of the file system: the zone information the
  device reports for its zone, and the information of its segment when the file system has any.
\<close>

definition zone_facts :: "os \<Rightarrow> control \<Rightarrow> extent \<Rightarrow> bool" where
  "zone_facts k c e \<longleftrightarrow>
     (case report_zone k (e_zone e) c of
        Inl _ \<Rightarrow> False
      | Inr None \<Rightarrow> True
      | Inr (Some z) \<Rightarrow>
          zone_wp e = drop_bit (zsh c) (bz_wp z) \<and> zone_lbas e = drop_bit (zsh c) (bz_start z) \<and>
          zone_cap e = drop_bit (zsh c) (bz_capacity z) \<and>
          zone_lbae e = drop_bit (zsh c) (bz_start z) + drop_bit (zsh c) (bz_capacity z))"

definition segment_facts :: "control \<Rightarrow> extent \<Rightarrow> bool" where
  "segment_facts c e \<longleftrightarrow> (0 < fs_info_bytes c \<longrightarrow>
     (\<exists>f i. fs_info_init c = Some f \<and> fs_info e = Some i \<and>
        f (fs_manager c) (ucast (drop_bit (unat (segment_shift c)) (phy_blk e AND f2fs_segment_mask c))) = Inr i))"

definition described :: "os \<Rightarrow> control \<Rightarrow> extent \<Rightarrow> bool" where
  "described k c e \<longleftrightarrow> zone_facts k c e \<and> segment_facts c e"

lemma report_zone_frame [simp]: "report_zone k z (c\<lparr>zonemap := x\<rparr>) = report_zone k z c"
  by (simp add: report_zone_def)

lemma facts_frame [simp]:
  "zone_facts k (c\<lparr>zonemap := x\<rparr>) e = zone_facts k c e" "zone_facts k c (e\<lparr>fileID := y\<rparr>) = zone_facts k c e"
  "segment_facts (c\<lparr>zonemap := x\<rparr>) e = segment_facts c e"
  by (simp_all add: zone_facts_def segment_facts_def split: sum.split option.split)

lemma get_zone_info_facts: "get_zone_info k c e = Inr e' \<Longrightarrow> zone_facts k c e'"
proof -
  assume a: "get_zone_info k c e = Inr e'"
  then obtain r where r: "report_zone k (e_zone e) c = Inr r"
    by (auto simp: get_zone_info_def bind_res_Inr_iff)
  from a r have z: "e_zone e' = e_zone e" by (auto simp: get_zone_info_def split: option.splits)
  show "zone_facts k c e'"
  proof (cases r)
    case None
    with r show ?thesis by (simp add: zone_facts_def z)
  next
    case (Some b)
    with a r have "e' = e\<lparr>zone_wp := drop_bit (zsh c) (bz_wp b),
        zone_lbae := drop_bit (zsh c) (bz_start b) + drop_bit (zsh c) (bz_capacity b),
        zone_cap := drop_bit (zsh c) (bz_capacity b), zone_lbas := drop_bit (zsh c) (bz_start b)\<rparr>"
      by (simp add: get_zone_info_def)
    with r Some show ?thesis by (simp add: zone_facts_def)
  qed
qed

lemma add_fs_info_facts:
  "add_fs_info c e = Inr e' \<Longrightarrow> zone_facts k c e \<Longrightarrow> described k c e'"
  by (auto simp: add_fs_info_def described_def segment_facts_def zone_facts_def bind_res_Inr_iff
      split: option.splits if_splits sum.splits)

lemma record_extentE:
  assumes "record_extent k f fe n c = Inr c'"
  obtains m e fm fm' where "zonemap c = Some m"
    "file_counter_map c = Some fm" "bump_extents (e_file e) fm = Inr fm'"
    "unat (e_zone e) < length (zones m)"
    "get_zone_number c (push_bit (zsh c) (phy_blk e)) = Inr (e_zone e)"
    "phy_blk e = phy_blk (fill_extent f fe n c)" "e_len e = e_len (fill_extent f fe n c)"
    "logical_blk e = logical_blk (fill_extent f fe n c)"
    "ext_nr e = ext_nr (fill_extent f fe n c)" "e_flags e = fe_flags fe"
    "e_file e = strcpy_n MAX_FILE_LENGTH f" "described k c e"
    "c' = c\<lparr>zonemap := Some (zm_add e m), file_counter_map := Some fm'\<rparr>"
proof -
  let ?e = "fill_extent f fe n c"
  from assms obtain m where m: "zonemap c = Some m"
    by (auto simp: record_extent_def split: option.splits)
  let ?c = "c\<lparr>zonemap := Some (m\<lparr>cum_extent_size := cum_extent_size m + e_len ?e\<rparr>)\<rparr>"
  from assms m obtain z e1 e2 c2 c3 where s:
    "get_zone_number ?c (push_bit (zsh c) (phy_blk ?e)) = Inr z"
    "get_zone_info k ?c (?e\<lparr>e_zone := z\<rparr>) = Inr e1"
    "add_fs_info ?c (e1\<lparr>fileID := nr_files c\<rparr>) = Inr e2"
    "add_extent_to_zone_list e2 ?c = Inr c2"
    "increase_file_extent_counter (e_file e2) c2 = Inr c3" "count_extent c3 = Inr c'"
    by (auto simp: record_extent_def bind_res_Inr_iff Let_def)
  have z: "get_zone_number c (push_bit (zsh c) (phy_blk ?e)) = Inr z"
    using s(1) by (simp add: get_zone_number_def)
  have e2: "e_zone e2 = z" "phy_blk e2 = phy_blk ?e" "e_len e2 = e_len ?e"
    "e_file e2 = strcpy_n MAX_FILE_LENGTH f" "ext_nr e2 = ext_nr ?e" "e_flags e2 = fe_flags fe"
    "logical_blk e2 = logical_blk ?e"
    using get_zone_info_fields [OF s(2)] add_fs_info_fields [OF s(3)]
    by (simp_all add: fill_extent_def)
  from s(4) e2 have i: "unat (e_zone e2) < length (zones m)"
    and c2: "c2 = c\<lparr>zonemap := Some (m\<lparr>cum_extent_size := cum_extent_size m + e_len e2,
        zones := (zones m)[unat (e_zone e2) := zone_add e2 (zones m ! unat (e_zone e2))]\<rparr>)\<rparr>"
    by (auto simp: add_extent_to_zone_list_def Let_def split: if_splits)
  from s(5) obtain fm fm' where fm: "file_counter_map c2 = Some fm"
    "bump_extents (e_file e2) fm = Inr fm'" "c3 = c2\<lparr>file_counter_map := Some fm'\<rparr>"
    by (auto simp: increase_file_extent_counter_def bind_res_Inr_iff split: option.splits)
  have "c' = c\<lparr>zonemap := Some (zm_add e2 m), file_counter_map := Some fm'\<rparr>"
    using s(6) [symmetric] fm(3) unfolding c2
    by (simp add: count_extent_def zm_add_def Let_def)
  moreover have "file_counter_map c = Some fm" using fm(1) c2 by simp
  moreover have "zone_facts k ?c (e1\<lparr>fileID := nr_files c\<rparr>)"
    using get_zone_info_facts [OF s(2)] by simp
  from add_fs_info_facts [OF s(3) this] have "described k c e2" by (simp add: described_def)
  ultimately show thesis using that [of m fm e2 fm'] m fm i z e2 by simp
qed

section \<open>The invariant of the control structure\<close>

text \<open>
  Besides the zone map: the counter of a file is the number of recorded extents that carry
  its name, and exactly the files with a recorded extent have a counter in use.
\<close>

definition extents_of_file :: "zone_map \<Rightarrow> string \<Rightarrow> extent multiset" where
  "extents_of_file m g = filter_mset (\<lambda>e. e_file e = g) (recorded m)"

definition files_inv :: "file_counter_map \<Rightarrow> zone_map \<Rightarrow> bool" where
  "files_inv fm m \<longleftrightarrow> fcm_inv fm \<and>
     (\<forall>g. ext_count fm g = of_nat (size (extents_of_file m g))) \<and>
     fcm_keys fm = e_file ` set_mset (recorded m)"

definition no_files :: file_counter_map where
  "no_files = \<lparr>file_ctr = 0, files = []\<rparr>"

definition counters :: "control \<Rightarrow> file_counter_map" where
  "counters c = (case file_counter_map c of None \<Rightarrow> no_files | Some fm \<Rightarrow> fm)"

definition recorded_in :: "control \<Rightarrow> extent multiset" where
  "recorded_in c = (case zonemap c of None \<Rightarrow> {#} | Some m \<Rightarrow> recorded m)"

definition placed :: "control \<Rightarrow> zone_map \<Rightarrow> bool" where
  "placed c m \<longleftrightarrow> (\<forall>e\<in>#recorded m. get_zone_number c (push_bit (zsh c) (phy_blk e)) = Inr (e_zone e))"

definition ctrl_inv :: "control \<Rightarrow> bool" where
  "ctrl_inv c \<longleftrightarrow> (\<exists>m. zonemap c = Some m \<and> zm_inv m \<and> files_inv (counters c) m \<and> placed c m \<and>
     unat (file_ctr (counters c)) \<le> unat (nr_files c))"

text \<open>While the extents of file \<open>g\<close> are read there is also room for its counter.\<close>

definition loop_inv :: "string \<Rightarrow> control \<Rightarrow> bool" where
  "loop_inv g c \<longleftrightarrow> (\<exists>m fm. zonemap c = Some m \<and> file_counter_map c = Some fm \<and> zm_inv m \<and>
     files_inv fm m \<and> placed c m \<and>
     unat (file_ctr fm) + (if g \<in> fcm_keys fm then 0 else 1) \<le> length (files fm) \<and>
     unat (file_ctr fm) \<le> unat (nr_files c) + (if g \<in> fcm_keys fm then 1 else 0))"

lemma files_inv_add:
  assumes "files_inv fm m" "zm_inv m" "unat (e_zone e) < length (zones m)"
    "length (e_file e) < MAX_FILE_LENGTH" "bump_extents (e_file e) fm = Inr fm'"
  shows "files_inv fm' (zm_add e m)"
proof -
  have inv: "fcm_inv fm" using assms(1) by (simp add: files_inv_def)
  note r = recorded_zm_add [OF assms(2,3)]
  have "ext_count fm' g = of_nat (size (extents_of_file (zm_add e m) g))" for g
    using assms(1) fec.bump_count [OF inv assms(4,5), of g]
    by (auto simp: files_inv_def extents_of_file_def r)
  moreover have "fcm_keys fm' = e_file ` set_mset (recorded (zm_add e m))"
    using assms(1) fec.bump_keys [OF inv assms(4,5)] by (simp add: files_inv_def r)
  moreover have "fcm_inv fm'" using fec.bump_inv [OF inv assms(4,5)] .
  ultimately show ?thesis by (simp add: files_inv_def)
qed


section \<open>One extent keeps the invariant\<close>

definition accepted :: "control \<Rightarrow> fiemap_extent \<Rightarrow> bool" where
  "accepted c fe \<longleftrightarrow> \<not> fe_physical fe < offset c \<and> fe_flags fe AND exclude_flags c = 0"

text \<open>The part of an extent that comes from the file system's answer.\<close>

type_synonym digest = "u64 \<times> u64 \<times> u64 \<times> u32 \<times> string"

definition digest :: "extent \<Rightarrow> digest" where
  "digest e = (logical_blk e, phy_blk e, e_len e, e_flags e, e_file e)"

definition fe_digest :: "control \<Rightarrow> string \<Rightarrow> fiemap_extent \<Rightarrow> digest" where
  "fe_digest c f fe = digest (fill_extent f fe 0 c)"

text \<open>\<open>same_env c c'\<close>: the collection leaves the geometry and the options alone.\<close>

definition same_env :: "control \<Rightarrow> control \<Rightarrow> bool" where
  "same_env c c' \<longleftrightarrow> znsdev c' = znsdev c \<and> zns_sector_shift c' = zns_sector_shift c \<and>
     sector_shift c' = sector_shift c \<and> offset c' = offset c \<and>
     exclude_flags c' = exclude_flags c \<and> nr_files c' = nr_files c \<and>
     fs_info_bytes c' = fs_info_bytes c \<and> fs_info_init c' = fs_info_init c \<and>
     fs_manager c' = fs_manager c \<and> segment_shift c' = segment_shift c \<and>
     f2fs_segment_mask c' = f2fs_segment_mask c"

lemma same_env_trans: "same_env a b \<Longrightarrow> same_env b c \<Longrightarrow> same_env a c"
  by (simp add: same_env_def)

lemma same_env_accepted: "same_env c c' \<Longrightarrow> accepted c' = accepted c"
  by (simp add: same_env_def accepted_def fun_eq_iff)

lemma same_env_digest: "same_env c c' \<Longrightarrow> fe_digest c' = fe_digest c"
  by (simp add: same_env_def fe_digest_def digest_def fill_extent_def fun_eq_iff)

lemma same_env_zone: "same_env c c' \<Longrightarrow> get_zone_number c' = get_zone_number c"
  by (simp add: same_env_def get_zone_number_def fun_eq_iff)

text \<open>\<open>quiet c c'\<close>: only output and the counter of inlined extents changed.\<close>

definition quiet :: "control \<Rightarrow> control \<Rightarrow> bool" where
  "quiet c c' \<longleftrightarrow> same_env c c' \<and> zonemap c' = zonemap c \<and> file_counter_map c' = file_counter_map c"

lemma quiet_extent_note: "quiet c (extent_note f fe c)"
  using info_cases by (simp add: quiet_def same_env_def extent_note_def Let_def info_def msg_def)

lemma quiet_msg: "quiet c c' \<Longrightarrow> quiet c (msg l c')"
  by (simp add: quiet_def same_env_def msg_def)

lemma quiet_inlined: "quiet c c' \<Longrightarrow> quiet c (c'\<lparr>inlined_extent_ctr := x\<rparr>)"
  by (simp add: quiet_def same_env_def)

lemma quiet_refl: "quiet c c"
  by (simp add: quiet_def same_env_def)

lemma handle_extentE:
  assumes "handle_extent k f fe (n, c) = Inr (n', c')"
  obtains (skip) "\<not> accepted c fe" "n' = n" "quiet c c'"
  | (rec) c1 where "accepted c fe" "record_extent k f fe n c = Inr c1" "n' = n + 1" "quiet c1 c'"
proof -
  consider (off) "fe_physical fe < offset c"
    | (excl) "\<not> fe_physical fe < offset c" "fe_flags fe AND exclude_flags c \<noteq> 0"
    | (ok) "accepted c fe"
    by (auto simp: accepted_def)
  then show thesis
  proof cases
    case off
    with assms skip show thesis
      by (auto simp: handle_extent_def Let_def accepted_def
          intro!: quiet_extent_note quiet_msg quiet_inlined split: if_splits)
  next
    case excl
    with assms skip show thesis
      by (auto simp: handle_extent_def Let_def accepted_def
          intro!: quiet_extent_note quiet_msg quiet_inlined split: if_splits)
  next
    case ok
    with assms rec show thesis
      by (auto simp: handle_extent_def Let_def accepted_def bind_res_Inr_iff
          intro!: quiet_refl quiet_inlined split: if_splits)
  qed
qed

lemma same_env_placed: "same_env c c' \<Longrightarrow> placed c' = placed c"
  by (simp add: placed_def fun_eq_iff same_env_zone) (simp add: same_env_def)

lemma quiet_loop_inv: "quiet c c' \<Longrightarrow> loop_inv g c \<Longrightarrow> loop_inv g c'"
  unfolding quiet_def loop_inv_def by (elim conjE, simp only: same_env_placed, simp add: same_env_def)

lemma bump_extents_room:
  assumes "fcm_inv fm" "bump_extents g fm = Inr fm'" "length g < MAX_FILE_LENGTH"
  shows "length (files fm') = length (files fm)"
    "unat (file_ctr fm') = unat (file_ctr fm) + (if g \<in> fcm_keys fm then 0 else 1)"
proof -
  have "length (files fm') = length (files fm) \<and>
    unat (file_ctr fm') = unat (file_ctr fm) + (if g \<in> fcm_keys fm then 0 else 1)"
  proof (cases "index_of (\<lambda>f. fc_file f = g) (active fm)")
    case None
    then have "g \<notin> fcm_keys fm" by (auto simp: fcm_keys_def index_of_None)
    with bump_extents_new [OF None assms(1,2,3)] show ?thesis by simp
  next
    case (Some i)
    with assms(1,2) obtain f where f: "fm' = fm\<lparr>files := (files fm)[i := f\<lparr>fc_ext_ctr := fc_ext_ctr f + 1\<rparr>]\<rparr>"
      "f = files fm ! i" "fc_file f = g" "i < unat (file_ctr fm)" "i < length (files fm)"
      by (auto elim!: bump_extents_found)
    have "i < length (active fm)" using f assms(1) by (simp add: length_active fcm_inv_def)
    then have "g \<in> fcm_keys fm"
      using f(2,3) unfolding fcm_keys_def by (metis active_nth length_map nth_map nth_mem)
    with f(1) show ?thesis by simp
  qed
  then show "length (files fm') = length (files fm)"
    "unat (file_ctr fm') = unat (file_ctr fm) + (if g \<in> fcm_keys fm then 0 else 1)" by simp_all
qed

lemma fe_digest_fill: "fe_digest c f fe = digest (fill_extent f fe n c)"
  by (simp add: fe_digest_def digest_def fill_extent_def)

lemma record_extent_step:
  fixes f :: string
  defines "g \<equiv> strcpy_n MAX_FILE_LENGTH f"
  assumes "record_extent k f fe n c = Inr c1" "loop_inv g c" "size (recorded_in c) + 1 < 2 ^ 32"
  shows "loop_inv g c1" "same_env c c1"
    "image_mset digest (recorded_in c1) = add_mset (fe_digest c f fe) (image_mset digest (recorded_in c))"
proof -
  from assms(2) obtain m e fm fm' where r: "zonemap c = Some m" "file_counter_map c = Some fm"
    "bump_extents (e_file e) fm = Inr fm'" "unat (e_zone e) < length (zones m)"
    "get_zone_number c (push_bit (zsh c) (phy_blk e)) = Inr (e_zone e)"
    "digest e = fe_digest c f fe" "e_file e = g"
    "c1 = c\<lparr>zonemap := Some (zm_add e m), file_counter_map := Some fm'\<rparr>"
    by (rule record_extentE)
      (simp add: fe_digest_fill [of c f fe n] digest_def g_def fill_extent_def)
  have env: "same_env c c1" by (simp add: same_env_def r(8))
  have g: "length g < MAX_FILE_LENGTH"
    by (simp add: g_def length_strcpy_n MAX_FILE_LENGTH_def)
  note b = r(3) [unfolded r(7)]
  have inv: "zm_inv m" "files_inv fm m" "placed c m"
    "unat (file_ctr fm) + (if g \<in> fcm_keys fm then 0 else 1) \<le> length (files fm)"
    "unat (file_ctr fm) \<le> unat (nr_files c) + (if g \<in> fcm_keys fm then 1 else 0)"
    using assms(3) r(1,2) by (auto simp: loop_inv_def)
  have fi: "fcm_inv fm" using inv(2) by (simp add: files_inv_def)
  have rc: "recorded_in c = recorded m" by (simp add: recorded_in_def r(1))
  have ra: "recorded (zm_add e m) = add_mset e (recorded m)"
    using inv(1) r(4) by (rule recorded_zm_add)
  have "zm_inv (zm_add e m)"
    using inv(1) r(4) assms(4) unfolding rc by (rule zm_inv_zm_add)
  moreover have "files_inv fm' (zm_add e m)"
    using inv(2,1) r(4) g r(3) unfolding r(7) [symmetric] by (rule files_inv_add)
  moreover have "placed c1 (zm_add e m)"
    unfolding same_env_placed [OF env] using inv(3) r(5) by (simp add: placed_def ra)
  moreover have "g \<in> fcm_keys fm'" using fec.bump_keys [OF fi g b] by simp
  moreover note room = bump_extents_room [OF fi b g]
  ultimately show "loop_inv g c1"
    unfolding loop_inv_def using inv(4,5) by (cases "g \<in> fcm_keys fm") (simp_all add: r(8))
  show "same_env c c1" by (rule env)
  show "image_mset digest (recorded_in c1) = add_mset (fe_digest c f fe) (image_mset digest (recorded_in c))"
    by (simp add: recorded_in_def r(1,8) ra r(6))
qed

section \<open>A whole file\<close>

lemma quiet_recorded: "quiet c c' \<Longrightarrow> recorded_in c' = recorded_in c"
  by (simp add: quiet_def recorded_in_def)

lemma handle_extent_step:
  fixes f :: string
  defines "g \<equiv> strcpy_n MAX_FILE_LENGTH f"
  assumes "handle_extent k f fe (n, c) = Inr (n', c')" "loop_inv g c"
    "size (recorded_in c) + 1 < 2 ^ 32"
  shows "loop_inv g c' \<and> same_env c c' \<and>
    image_mset digest (recorded_in c') =
      image_mset (fe_digest c f) (mset (filter (accepted c) [fe])) + image_mset digest (recorded_in c)"
  using assms(2)
proof (cases rule: handle_extentE)
  case skip
  then show ?thesis
    using quiet_loop_inv [OF skip(3) assms(3)] by (simp add: quiet_recorded) (simp add: quiet_def)
next
  case (rec c1)
  note st = record_extent_step [OF rec(2) assms(3,4) [unfolded g_def], folded g_def]
  have "loop_inv g c'" by (rule quiet_loop_inv [OF rec(4) st(1)])
  moreover have "same_env c c'"
    using same_env_trans [OF st(2)] rec(4) by (simp add: quiet_def)
  ultimately show ?thesis using st(3) rec(1,4) by (simp add: quiet_recorded)
qed

lemma handle_all_step:
  fixes f :: string
  defines "g \<equiv> strcpy_n MAX_FILE_LENGTH f"
  shows "handle_all k f es (n, c) = Inr (n', c') \<Longrightarrow> loop_inv g c \<Longrightarrow>
    size (recorded_in c) + length es < 2 ^ 32 \<Longrightarrow>
    loop_inv g c' \<and> same_env c c' \<and>
    image_mset digest (recorded_in c') =
      image_mset (fe_digest c f) (mset (filter (accepted c) es)) + image_mset digest (recorded_in c)"
proof (induction es arbitrary: n c)
  case Nil
  then show ?case by (simp add: same_env_def)
next
  case (Cons e es)
  from Cons.prems(1) obtain n1 c1 where h: "handle_extent k f e (n, c) = Inr (n1, c1)"
    "handle_all k f es (n1, c1) = Inr (n', c')"
    by (auto simp: bind_res_Inr_iff)
  have s: "loop_inv g c1 \<and> same_env c c1 \<and> image_mset digest (recorded_in c1) =
      image_mset (fe_digest c f) (mset (filter (accepted c) [e])) + image_mset digest (recorded_in c)"
    using handle_extent_step [OF h(1)] Cons.prems(2,3) by (simp add: g_def)
  have "size (recorded_in c1) \<le> 1 + size (recorded_in c)"
    using arg_cong [OF s [THEN conjunct2, THEN conjunct2], of size] by simp
  with Cons.prems(3) have "size (recorded_in c1) + length es < 2 ^ 32" by simp
  with Cons.IH [OF h(2)] s have i: "loop_inv g c' \<and> same_env c1 c' \<and> image_mset digest (recorded_in c') =
      image_mset (fe_digest c1 f) (mset (filter (accepted c1) es)) + image_mset digest (recorded_in c1)"
    by simp
  from s have "same_env c c1" by simp
  then have d: "fe_digest c1 = fe_digest c" "accepted c1 = accepted c"
    by (simp_all add: same_env_digest same_env_accepted)
  show ?case using i s same_env_trans [of c c1 c'] unfolding d by (simp add: ac_simps)
qed

text \<open>Growing the counter array makes room for the counter of one more file.\<close>

lemma active_grow:
  assumes "unat (file_ctr m) \<le> length (files m)" "unat (file_ctr m) < n"
  shows "active (m\<lparr>files := (take n (files m @ xs))[unat (file_ctr m) := y]\<rparr>) = active m"
  using assms by (simp add: active_def take_update_cancel min_def)

lemma grow_file_counters_inv:
  assumes "ctrl_inv c" "grow_file_counters k c = Inr c'" "unat (nr_files c) + 1 < 2 ^ 32"
  shows "loop_inv g c'" "same_env c c'" "recorded_in c' = recorded_in c"
proof -
  from assms(1) obtain m where i: "zonemap c = Some m" "zm_inv m" "files_inv (counters c) m" "placed c m"
    "unat (file_ctr (counters c)) \<le> unat (nr_files c)"
    by (auto simp: ctrl_inv_def)
  have "\<exists>fm. c' = c\<lparr>file_counter_map := Some fm\<rparr> \<and> active fm = active (counters c) \<and>
      file_ctr fm = file_ctr (counters c) \<and> unat (file_ctr fm) < length (files fm) \<and>
      length (files fm) < 2 ^ 32"
  proof (cases "file_counter_map c")
    case None
    with assms(2) show ?thesis
      by (intro exI [of _ "\<lparr>file_ctr = 0, files = [zero_file_counter]\<rparr>"])
        (simp add: grow_file_counters_def counters_def no_files_def active_def)
  next
    case (Some fm)
    let ?n = "unat (nr_files c) + 1"
    let ?fs = "take ?n (files fm @ replicate (?n - length (files fm)) (os_fresh k))"
    let ?fm = "fm\<lparr>files := ?fs[unat (file_ctr fm) := zero_file_counter]\<rparr>"
    have n: "unat (nr_files c + 1) = ?n" using assms(3) by (simp add: unat_add_mod)
    have ctr: "unat (file_ctr fm) < ?n" "unat (file_ctr fm) \<le> length (files fm)"
      using i(3,5) by (simp_all add: counters_def Some files_inv_def fcm_inv_def)
    have "c' = c\<lparr>file_counter_map := Some ?fm\<rparr>"
      using assms(2) ctr by (simp add: grow_file_counters_def Some Let_def n split: if_splits)
    moreover have "active ?fm = active fm" using ctr(2,1) by (rule active_grow)
    moreover have "length (files ?fm) = ?n" by simp
    ultimately show ?thesis using ctr(1) assms(3)
      by (intro exI [of _ ?fm]) (simp add: counters_def Some del: take_append length_take)
  qed
  then obtain fm where fm: "c' = c\<lparr>file_counter_map := Some fm\<rparr>" "active fm = active (counters c)"
    "file_ctr fm = file_ctr (counters c)" "unat (file_ctr fm) < length (files fm)"
    "length (files fm) < 2 ^ 32" by blast
  have ext: "ext_count fm = ext_count (counters c)" "fcm_keys fm = fcm_keys (counters c)"
    by (auto simp only: ext_count_active fcm_keys_def fun_eq_iff fm(2))
  have "fcm_inv fm"
    using i(3) fm(2,4,5) ext(2) by (simp add: files_inv_def fcm_inv_def)
  with i(3) have fi: "files_inv fm m" by (simp add: files_inv_def ext)
  show env: "same_env c c'" by (simp add: fm(1) same_env_def)
  have "placed c' m" unfolding same_env_placed [OF env] by (rule i(4))
  with fi i(1,2,5) fm(3,4) show "loop_inv g c'"
    unfolding loop_inv_def by (simp add: fm(1))
  show "recorded_in c' = recorded_in c" by (simp add: fm(1) recorded_in_def)
qed

lemma close_file_inv:
  assumes "loop_inv g c" "close_file (n, c) = Inr (r, c')" "unat (nr_files c) + 1 < 2 ^ 32"
  shows "ctrl_inv c' \<and> recorded_in c' = recorded_in c \<and> nr_files c' = nr_files c + 1 \<and> r = EXIT_SUCCESS"
proof -
  have c': "c' = c\<lparr>nr_files := nr_files c + 1\<rparr>" "r = EXIT_SUCCESS"
    using assms(2) by (simp_all add: close_file_def)
  have n: "unat (nr_files c + 1) = unat (nr_files c) + 1"
    using assms(3) by (simp add: unat_add_mod)
  from assms(1) obtain m fm where i: "zonemap c = Some m" "file_counter_map c = Some fm" "zm_inv m"
    "files_inv fm m" "placed c m" "unat (file_ctr fm) \<le> unat (nr_files c) + (if g \<in> fcm_keys fm then 1 else 0)"
    by (auto simp: loop_inv_def)
  have "placed c' m" using i(5) by (simp add: c' placed_def get_zone_number_def)
  moreover have "unat (file_ctr fm) \<le> unat (nr_files c + 1)"
    using i(6) by (simp add: n split: if_splits)
  ultimately show ?thesis
    using i(1-4) by (simp add: ctrl_inv_def counters_def c' recorded_in_def)
qed

lemma get_extents_serves:
  assumes "fiemap_serves k f st 0 es" "st_blocks st \<noteq> 0" "length es \<le> fuel"
  shows "get_extents fuel k f st c =
    bind_res (grow_file_counters k c) (\<lambda>c. bind_res (handle_all k f es (0, c)) close_file)"
  by (simp add: get_extents_def get_extents_loop_serves [OF assms])

lemma get_extents_collects:
  assumes "ctrl_inv c" "fiemap_serves k f st 0 es" "st_blocks st \<noteq> 0" "length es \<le> fuel"
    "unat (nr_files c) + 1 < 2 ^ 32" "size (recorded_in c) + length es < 2 ^ 32"
    "get_extents fuel k f st c = Inr (r, c')"
  shows "ctrl_inv c' \<and> r = EXIT_SUCCESS \<and> nr_files c' = nr_files c + 1 \<and>
    image_mset digest (recorded_in c') =
      image_mset (fe_digest c f) (mset (filter (accepted c) es)) + image_mset digest (recorded_in c)"
proof -
  from assms(7) obtain c1 n c2 where h: "grow_file_counters k c = Inr c1"
    "handle_all k f es (0, c1) = Inr (n, c2)" "close_file (n, c2) = Inr (r, c')"
    by (auto simp: get_extents_serves [OF assms(2-4)] bind_res_Inr_iff)
  note g = grow_file_counters_inv [OF assms(1) h(1) assms(5)]
  have env: "fe_digest c1 = fe_digest c" "accepted c1 = accepted c"
    using g(2) by (simp_all add: same_env_digest same_env_accepted)
  have "size (recorded_in c1) + length es < 2 ^ 32" using assms(6) by (simp add: g(3))
  note a = handle_all_step [OF h(2) g(1) this, unfolded env g(3)]
  have nr: "nr_files c2 = nr_files c"
    using a g(2) by (simp add: same_env_def)
  have b: "ctrl_inv c' \<and> recorded_in c' = recorded_in c2 \<and> nr_files c' = nr_files c2 + 1 \<and> r = EXIT_SUCCESS"
    using a h(3) assms(5) by (intro close_file_inv) (auto simp: nr)
  with a nr show ?thesis by simp
qed

section \<open>The collection succeeds\<close>

text \<open>
  What one extent needs in order to be recorded: its address is in a zone of the zone map, the
  device reports that zone, and the segment information of its segment is there.
\<close>

definition nr_map_zones :: "control \<Rightarrow> nat" where
  "nr_map_zones c = (case zonemap c of None \<Rightarrow> 0 | Some m \<Rightarrow> length (zones m))"

definition has_fs_info :: "control \<Rightarrow> u64 \<Rightarrow> bool" where
  "has_fs_info c p \<longleftrightarrow> fs_info_bytes c = 0 \<or>
     (\<exists>f i. fs_info_init c = Some f \<and>
        f (fs_manager c) (ucast (drop_bit (unat (segment_shift c)) (p AND f2fs_segment_mask c))) = Inr i)"

definition recordable :: "os \<Rightarrow> control \<Rightarrow> nat \<Rightarrow> u64 \<Rightarrow> bool" where
  "recordable k c n p \<longleftrightarrow> has_fs_info c p \<and>
     (\<exists>z r. get_zone_number c (push_bit (zsh c) p) = Inr z \<and> unat z < n \<and> report_zone k z c = Inr r)"

definition fe_block :: "control \<Rightarrow> fiemap_extent \<Rightarrow> u64" where
  "fe_block c fe = drop_bit (unat (sector_shift c)) (fe_physical fe - offset c)"

lemma same_env_recordable: "same_env c c' \<Longrightarrow> recordable k c' n (fe_block c' fe) = recordable k c n (fe_block c fe)"
  by (simp add: recordable_def fe_block_def has_fs_info_def same_env_zone)
    (simp add: same_env_def report_zone_def)

lemma add_fs_info_ok: "has_fs_info c (phy_blk e) \<Longrightarrow> \<exists>e'. add_fs_info c e = Inr e'"
  by (auto simp: has_fs_info_def add_fs_info_def split: option.split)

lemma get_zone_info_ok: "report_zone k (e_zone e) c = Inr r \<Longrightarrow> \<exists>e'. get_zone_info k c e = Inr e'"
  by (simp add: get_zone_info_def split: option.split)

lemma record_extent_ok:
  assumes "loop_inv (strcpy_n MAX_FILE_LENGTH f) c"
    "recordable k c (nr_map_zones c) (fe_block c fe)"
  shows "\<exists>c1. record_extent k f fe n c = Inr c1"
proof -
  let ?e = "fill_extent f fe n c"
  from assms(1) obtain m fm where i: "zonemap c = Some m" "file_counter_map c = Some fm"
    "files_inv fm m" "unat (file_ctr fm) + (if strcpy_n MAX_FILE_LENGTH f \<in> fcm_keys fm then 0 else 1) \<le> length (files fm)"
    by (auto simp: loop_inv_def)
  let ?c = "c\<lparr>zonemap := Some (m\<lparr>cum_extent_size := cum_extent_size m + e_len ?e\<rparr>)\<rparr>"
  have p: "phy_blk ?e = fe_block c fe" by (simp add: fill_extent_def fe_block_def)
  from assms(2) obtain z r where z: "get_zone_number c (push_bit (zsh c) (phy_blk ?e)) = Inr z"
    "unat z < length (zones m)" "report_zone k z c = Inr r" "has_fs_info c (phy_blk ?e)"
    by (auto simp: recordable_def nr_map_zones_def i(1) p)
  have zc: "get_zone_number ?c x = get_zone_number c x" "report_zone k y ?c = report_zone k y c" for x y
    by (simp_all add: get_zone_number_def report_zone_def)
  obtain e1 where e1: "get_zone_info k ?c (?e\<lparr>e_zone := z\<rparr>) = Inr e1"
    using get_zone_info_ok [of k "?e\<lparr>e_zone := z\<rparr>" ?c r] z(3) by (auto simp: zc)
  note f1 = get_zone_info_fields [OF e1]
  have "has_fs_info ?c (phy_blk (e1\<lparr>fileID := nr_files c\<rparr>))" using z(4) f1 by (simp add: has_fs_info_def)
  then obtain e2 where e2: "add_fs_info ?c (e1\<lparr>fileID := nr_files c\<rparr>) = Inr e2"
    using add_fs_info_ok by blast
  have e2f: "e_zone e2 = z" "e_file e2 = strcpy_n MAX_FILE_LENGTH f"
    using add_fs_info_fields [OF e2] f1 by (simp_all add: fill_extent_def)
  have "\<exists>fm'. bump_extents (e_file e2) fm = Inr fm'"
    unfolding e2f(2)
  proof (cases "strcpy_n MAX_FILE_LENGTH f \<in> fcm_keys fm")
    case True
    then obtain j where "index_of (\<lambda>x. fc_file x = strcpy_n MAX_FILE_LENGTH f) (active fm) = Some j"
      by (cases "index_of (\<lambda>x. fc_file x = strcpy_n MAX_FILE_LENGTH f) (active fm)")
        (auto simp: fcm_keys_def index_of_None)
    then show "\<exists>fm'. bump_extents (strcpy_n MAX_FILE_LENGTH f) fm = Inr fm'"
      by (simp add: bump_extents_def Let_def)
  next
    case False
    then show "\<exists>fm'. bump_extents (strcpy_n MAX_FILE_LENGTH f) fm = Inr fm'"
      using i(4) by (intro bump_extents_ok) simp
  qed
  then obtain fm' where fm': "bump_extents (e_file e2) fm = Inr fm'" ..
  show ?thesis
    using z(1,2) e1 e2 e2f(1) fm' i(1,2)
    by (simp add: record_extent_def Let_def zc add_extent_to_zone_list_def
        increase_file_extent_counter_def count_extent_def)
qed

lemma handle_extent_ok:
  assumes "loop_inv (strcpy_n MAX_FILE_LENGTH f) c"
    "accepted c fe \<Longrightarrow> recordable k c (nr_map_zones c) (fe_block c fe)"
  shows "\<exists>nc. handle_extent k f fe (n, c) = Inr nc"
proof (cases "accepted c fe")
  case True
  then obtain c1 where "record_extent k f fe n c = Inr c1"
    using record_extent_ok [OF assms(1)] assms(2) by blast
  with True show ?thesis by (auto simp: handle_extent_def accepted_def)
next
  case False
  then show ?thesis by (auto simp: handle_extent_def accepted_def Let_def)
qed

lemma same_env_nr_map_zones:
  "handle_extent k f fe (n, c) = Inr (n', c') \<Longrightarrow> nr_map_zones c' = nr_map_zones c"
proof (elim handle_extentE)
  show "nr_map_zones c' = nr_map_zones c" if "quiet c c'"
    using that by (simp add: quiet_def nr_map_zones_def)
  fix c1
  assume r: "record_extent k f fe n c = Inr c1" and q: "quiet c1 c'"
  from r have "nr_map_zones c1 = nr_map_zones c"
    by (rule record_extentE) (simp add: nr_map_zones_def)
  with q show "nr_map_zones c' = nr_map_zones c" by (simp add: quiet_def nr_map_zones_def)
qed

lemma handle_all_ok:
  "loop_inv (strcpy_n MAX_FILE_LENGTH f) c \<Longrightarrow> size (recorded_in c) + length es < 2 ^ 32 \<Longrightarrow>
   \<forall>fe\<in>set es. accepted c fe \<longrightarrow> recordable k c (nr_map_zones c) (fe_block c fe) \<Longrightarrow>
   \<exists>nc. handle_all k f es (n, c) = Inr nc"
proof (induction es arbitrary: n c)
  case Nil
  then show ?case by simp
next
  case (Cons e es)
  then obtain n1 c1 where h: "handle_extent k f e (n, c) = Inr (n1, c1)"
    using handle_extent_ok [of f c e k n] by auto
  have st: "loop_inv (strcpy_n MAX_FILE_LENGTH f) c1 \<and> same_env c c1 \<and>
      image_mset digest (recorded_in c1) =
        image_mset (fe_digest c f) (mset (filter (accepted c) [e])) + image_mset digest (recorded_in c)"
    using handle_extent_step [OF h Cons.prems(1)] Cons.prems(2) by simp
  have "size (image_mset digest (recorded_in c1)) \<le> 1 + size (recorded_in c)"
    unfolding st [THEN conjunct2, THEN conjunct2] by simp
  then have sz: "size (recorded_in c1) \<le> 1 + size (recorded_in c)" by (simp only: size_image_mset)
  from st have s: "loop_inv (strcpy_n MAX_FILE_LENGTH f) c1" "same_env c c1" by simp_all
  have "\<forall>fe\<in>set es. accepted c1 fe \<longrightarrow> recordable k c1 (nr_map_zones c1) (fe_block c1 fe)"
    using Cons.prems(3) s(2) same_env_nr_map_zones [OF h]
    by (simp add: same_env_accepted same_env_recordable)
  moreover have "size (recorded_in c1) + length es < 2 ^ 32"
    using sz Cons.prems(2) by simp
  ultimately show ?case using Cons.IH [OF s(1)] h by auto
qed

lemma grow_file_counters_ok:
  assumes "ctrl_inv c" "unat (nr_files c) + 1 < 2 ^ 32"
  shows "\<exists>c'. grow_file_counters k c = Inr c'"
proof (cases "file_counter_map c")
  case None
  then show ?thesis by (simp add: grow_file_counters_def)
next
  case (Some m)
  have "unat (nr_files c + 1) = unat (nr_files c) + 1" using assms(2) by (simp add: unat_add_mod)
  with assms(1) Some show ?thesis
    by (auto simp: grow_file_counters_def ctrl_inv_def counters_def Let_def)
qed

lemma get_extents_returns:
  assumes "ctrl_inv c" "fiemap_serves k f st 0 es" "st_blocks st \<noteq> 0" "length es \<le> fuel"
    "unat (nr_files c) + 1 < 2 ^ 32" "size (recorded_in c) + length es < 2 ^ 32"
    "\<forall>fe\<in>set es. accepted c fe \<longrightarrow> recordable k c (nr_map_zones c) (fe_block c fe)"
  shows "\<exists>c'. get_extents fuel k f st c = Inr (EXIT_SUCCESS, c')"
proof -
  obtain c1 where c1: "grow_file_counters k c = Inr c1"
    using grow_file_counters_ok [OF assms(1,5)] by blast
  note g = grow_file_counters_inv [OF assms(1) c1 assms(5)]
  have z: "nr_map_zones c1 = nr_map_zones c"
    using c1 by (auto simp: grow_file_counters_def nr_map_zones_def Let_def split: option.splits if_splits)
  have "\<forall>fe\<in>set es. accepted c1 fe \<longrightarrow> recordable k c1 (nr_map_zones c1) (fe_block c1 fe)"
    using assms(7) g(2) z by (simp add: same_env_accepted same_env_recordable)
  then have "\<exists>nc. handle_all k f es (0, c1) = Inr nc"
    using assms(6) by (intro handle_all_ok [OF g(1)]) (simp_all add: g(3))
  then obtain n c2 where "handle_all k f es (0, c1) = Inr (n, c2)" by auto
  then show ?thesis
    by (simp add: get_extents_serves [OF assms(2-4)] c1 close_file_def)
qed

section \<open>What the collection leaves alone\<close>

lemma handle_all_nr_map_zones: "handle_all k f es (n, c) = Inr (n', c') \<Longrightarrow> nr_map_zones c' = nr_map_zones c"
proof (induction es arbitrary: n c)
  case Nil
  then show ?case by simp
next
  case (Cons e es)
  then obtain n1 c1 where "handle_extent k f e (n, c) = Inr (n1, c1)" "handle_all k f es (n1, c1) = Inr (n', c')"
    by (auto simp: bind_res_Inr_iff)
  with Cons.IH same_env_nr_map_zones show ?case by metis
qed

text \<open>Everything a later file depends on, up to the number of files.\<close>

definition same_setting :: "control \<Rightarrow> control \<Rightarrow> bool" where
  "same_setting c c' \<longleftrightarrow> same_env (c\<lparr>nr_files := nr_files c'\<rparr>) c' \<and> nr_map_zones c' = nr_map_zones c"

lemma same_setting_refl: "same_setting c c"
  by (simp add: same_setting_def same_env_def)

lemma same_setting_trans: "same_setting a b \<Longrightarrow> same_setting b c \<Longrightarrow> same_setting a c"
  by (simp add: same_setting_def same_env_def)

lemma same_setting_facts:
  assumes "same_setting c c'"
  defines "a \<equiv> c\<lparr>nr_files := nr_files c'\<rparr>"
  shows "accepted c' = accepted c" "fe_digest c' = fe_digest c" "nr_map_zones c' = nr_map_zones c"
    "recordable k c' n (fe_block c' fe) = recordable k c n (fe_block c fe)"
proof -
  have e: "same_env a c'" using assms by (simp add: same_setting_def)
  have "accepted a = accepted c" "fe_digest a = fe_digest c"
    "recordable k a n (fe_block a fe) = recordable k c n (fe_block c fe)"
    by (simp_all add: a_def accepted_def fe_digest_def digest_def fill_extent_def recordable_def
        fe_block_def has_fs_info_def get_zone_number_def report_zone_def fun_eq_iff)
  with same_env_accepted [OF e] same_env_digest [OF e] same_env_recordable [OF e]
  show "accepted c' = accepted c" "fe_digest c' = fe_digest c"
    "recordable k c' n (fe_block c' fe) = recordable k c n (fe_block c fe)" by simp_all
  show "nr_map_zones c' = nr_map_zones c" using assms by (simp add: same_setting_def)
qed

lemma get_extents_setting:
  assumes "ctrl_inv c" "fiemap_serves k f st 0 es" "st_blocks st \<noteq> 0" "length es \<le> fuel"
    "unat (nr_files c) + 1 < 2 ^ 32" "size (recorded_in c) + length es < 2 ^ 32"
    "get_extents fuel k f st c = Inr (r, c')"
  shows "same_setting c c'"
proof -
  from assms(7) obtain c1 n c2 where h: "grow_file_counters k c = Inr c1"
    "handle_all k f es (0, c1) = Inr (n, c2)" "close_file (n, c2) = Inr (r, c')"
    by (auto simp: get_extents_serves [OF assms(2-4)] bind_res_Inr_iff)
  note g = grow_file_counters_inv [OF assms(1) h(1) assms(5)]
  have "size (recorded_in c1) + length es < 2 ^ 32" using assms(6) by (simp add: g(3))
  note a = handle_all_step [OF h(2) g(1) this]
  have "nr_map_zones c1 = nr_map_zones c"
    using h(1) by (auto simp: grow_file_counters_def nr_map_zones_def Let_def split: option.splits if_splits)
  moreover have "nr_map_zones c2 = nr_map_zones c1" by (rule handle_all_nr_map_zones [OF h(2)])
  moreover have "c' = c2\<lparr>nr_files := nr_files c2 + 1\<rparr>" using h(3) by (simp add: close_file_def)
  ultimately show ?thesis
    using a g(2) by (simp add: same_setting_def same_env_def nr_map_zones_def)
qed

end
