(* ===== verification/Geometry.thy ===== *)
theory Geometry
  imports Extents_Inv
begin

text \<open>
  Properties of \<open>Device\<close>: the segment geometry of a device, the zone of an address, what the
  initialisation establishes, and the device names taken from the superblock.
\<close>

section \<open>Segment geometry\<close>

text \<open>For both sector sizes the size, the mask and the shift of a segment fit together.\<close>

interpretation seg: pow2_geometry "f2fs_segment_sectors (set_geometry c)"
    "f2fs_segment_mask (set_geometry c)" "unat (segment_shift (set_geometry c))" for c
  by unfold_locales (auto simp: set_geometry_def Let_def F2FS_SEGMENT_BYTES_def)

definition has_geometry :: "control \<Rightarrow> bool" where
  "has_geometry c \<longleftrightarrow> sector_shift c = sector_shift (set_geometry c) \<and>
     f2fs_segment_sectors c = f2fs_segment_sectors (set_geometry c) \<and>
     f2fs_segment_mask c = f2fs_segment_mask (set_geometry c) \<and>
     segment_shift c = segment_shift (set_geometry c)"

text \<open>The number of blocks of a segment and the block size give two MiB.\<close>

lemma segment_bytes:
  "has_geometry c \<Longrightarrow> push_bit (unat (sector_shift c)) (f2fs_segment_sectors c) = F2FS_SEGMENT_BYTES"
  by (auto simp: has_geometry_def set_geometry_def Let_def F2FS_SEGMENT_BYTES_def push_bit_eq_mult)

lemma segment_of_block:
  assumes "has_geometry c"
  shows "unat (drop_bit (unat (segment_shift c)) (p AND f2fs_segment_mask c)) =
    unat p * (if sector_size c = 512 then 512 else 4096) div 2097152"
  using assms seg.unat_unit [of c p]
  by (auto simp: has_geometry_def set_geometry_def Let_def)

section \<open>The zone of an address\<close>

text \<open>
  For a zone size of \<open>2 ^ n\<close> sectors: the zone mask is a \<open>uint32_t\<close>, so the upper half of
  the address does not reach the quotient.
\<close>

definition zone_bytes_pow2 :: "control \<Rightarrow> nat \<Rightarrow> bool" where
  "zone_bytes_pow2 c n \<longleftrightarrow> n < 64 \<and> push_bit (zsh c) (b_zone_size (znsdev c)) = 2 ^ n"

lemma low_mask:
  "x AND ucast (ucast (NOT ((2::u64) ^ n - 1)) :: u32) = (x AND mask 32) AND NOT (mask n)"
  by (rule bit_word_eqI) (auto simp: bit_simps mask_eq_exp_minus_1 [symmetric])

lemma get_zone_number_pow2:
  assumes "zone_bytes_pow2 c n"
  shows "get_zone_number c lba = Inr (of_nat (unat lba mod 2 ^ 32 div 2 ^ n))"
proof -
  let ?zs = "push_bit (zsh c) (b_zone_size (znsdev c))"
  have n: "n < 64" and zs: "?zs = 2 ^ n" using assms by (simp_all add: zone_bytes_pow2_def)
  have u: "unat ((2::u64) ^ n) = 2 ^ n"
    using unat_push_bit_nowrap [of "1::u64" n] power_strict_increasing [OF n, of "2::nat"]
    by (simp add: push_bit_eq_mult)
  have m: "unat (lba AND mask 32) = unat lba mod 2 ^ 32"
    unfolding take_bit_eq_mask [symmetric] unsigned_take_bit_eq take_bit_eq_mod [of 32 "unat lba"] ..
  have "unat (((lba AND mask 32) AND NOT (mask n)) div 2 ^ n) = unat lba mod 2 ^ 32 div 2 ^ n"
    by (simp only: unat_div_distrib u unat_and_not_mask m) simp
  then have "ucast (((lba AND mask 32) AND NOT (mask n)) div 2 ^ n) = (of_nat (unat lba mod 2 ^ 32 div 2 ^ n) :: u32)"
    by (metis of_nat_unat)
  moreover have "(2::u64) ^ n \<noteq> 0" using u by (metis power_not_zero unat_0 zero_neq_numeral)
  ultimately show ?thesis
    by (simp add: get_zone_number_def zs Let_def low_mask)
qed

lemma get_zone_number_bounds:
  assumes "zone_bytes_pow2 c n" "unat lba < 2 ^ 32" "get_zone_number c lba = Inr z"
  shows "unat z * 2 ^ n \<le> unat lba" "unat lba < (unat z + 1) * 2 ^ n"
proof -
  have "z = of_nat (unat lba div 2 ^ n)"
    using assms by (simp add: get_zone_number_pow2)
  moreover have "unat lba div 2 ^ n < 2 ^ 32"
    using assms(2) by (meson div_le_dividend le_less_trans)
  ultimately have z: "unat z = unat lba div 2 ^ n"
    by (simp add: unat_of_nat take_bit_nat_eq_self_iff)
  show "unat z * 2 ^ n \<le> unat lba" by (simp add: z)
  show "unat lba < (unat z + 1) * 2 ^ n"
    using dividend_less_div_times [of "2 ^ n" "unat lba"] by (simp add: z algebra_simps)
qed

section \<open>What the initialisation establishes\<close>

lemma recorded_empty: "\<forall>z\<in>set (zones m). extents z = [] \<Longrightarrow> recorded m = {#}"
proof -
  have "(\<Sum>z\<leftarrow>zs. mset (extents z)) = {#}" if "\<forall>z\<in>set zs. extents z = []" for zs
    using that by (induction zs) auto
  then show "\<forall>z\<in>set (zones m). extents z = [] \<Longrightarrow> recorded m = {#}" by (simp add: recorded_def)
qed

text \<open>No file has been read.\<close>

definition unused :: "control \<Rightarrow> bool" where
  "unused c \<longleftrightarrow> file_counter_map c = None \<and> nr_files c = 0"

lemma unusedI: "unused c \<Longrightarrow> file_counter_map c' = file_counter_map c \<and> nr_files c' = nr_files c \<Longrightarrow> unused c'"
  by (simp add: unused_def)

lemma init_zone_map_inv:
  assumes "init_zone_map k c = Inr c'" "os_open k (dev_path (znsdev c))" "unused c"
  shows "ctrl_inv c'" "nr_files c' = 0" "nr_map_zones c' = unat (b_nr_zones (znsdev c))"
    "recorded_in c' = {#}"
proof -
  from assms obtain zs where c': "c' = c\<lparr>zonemap := Some
      \<lparr>zm_nr_zones = b_nr_zones (znsdev c), zm_extent_ctr = 0, cum_extent_size = 0, zone_ctr = 0,
       zones = map (mk_zone c zs) [0..<unat (b_nr_zones (znsdev c))]\<rparr>\<rparr>"
    by (auto simp: init_zone_map_def Let_def split: option.splits)
  let ?m = "\<lparr>zm_nr_zones = b_nr_zones (znsdev c), zm_extent_ctr = 0, cum_extent_size = 0, zone_ctr = 0,
       zones = map (mk_zone c zs) [0..<unat (b_nr_zones (znsdev c))]\<rparr>"
  have z: "extents (mk_zone c zs i) = []" "z_extent_ctr (mk_zone c zs i) = 0" for i
    by (simp_all add: mk_zone_def Let_def)
  have r: "recorded ?m = {#}" by (rule recorded_empty) (simp add: z)
  have "zm_inv ?m" by (simp add: zm_inv_def r zone_wf_def z)
  moreover have "files_inv no_files ?m"
    by (simp add: files_inv_def fcm_inv_def no_files_def ext_count_def active_def fcm_keys_def
        extents_of_file_def r)
  ultimately show "ctrl_inv c'"
    using assms(3) by (simp add: ctrl_inv_def c' counters_def placed_def r unused_def) (simp add: no_files_def)
  show "nr_files c' = 0" using assms(3) by (simp add: c' unused_def)
  show "nr_map_zones c' = unat (b_nr_zones (znsdev c))" by (simp add: c' nr_map_zones_def)
  show "recorded_in c' = {#}" using r by (simp add: c' recorded_in_def)
qed

lemma is_zoned_frame:
  "is_zoned k p c = Inr (b, c') \<Longrightarrow> znsdev c' = znsdev c \<and> bdev c' = bdev c \<and>
     (file_counter_map c' = file_counter_map c \<and> nr_files c' = nr_files c) \<and> zonemap c' = zonemap c \<and> os_open k p"
  by (auto simp: is_zoned_def info_def msg_def split: if_splits option.splits)

lemma get_sector_size_frame:
  "get_sector_size k p c = Inr (n, c') \<Longrightarrow> znsdev c' = znsdev c \<and> bdev c' = bdev c \<and>
     (file_counter_map c' = file_counter_map c \<and> nr_files c' = nr_files c) \<and> zonemap c' = zonemap c"
  by (auto simp: get_sector_size_def info_def msg_def Let_def split: if_splits option.splits)

lemma set_geometry_idem: "has_geometry (set_geometry c)"
  by (auto simp: has_geometry_def set_geometry_def Let_def)

lemma set_geometry_frame [simp]:
  "znsdev (set_geometry c) = znsdev c" "nr_files (set_geometry c) = nr_files c" "file_counter_map (set_geometry c) = file_counter_map c"
  "sector_size (set_geometry c) = sector_size c" "bdev (set_geometry c) = bdev c"
  by (simp_all add: set_geometry_def Let_def)

lemma init_zone_map_geometry:
  "init_zone_map k c = Inr c' \<Longrightarrow> has_geometry c \<Longrightarrow> has_geometry c'"
  by (auto simp: init_zone_map_def has_geometry_def set_geometry_def Let_def split: if_splits option.splits)

lemma init_znsdev_establishes:
  assumes "init_znsdev k c = Inr (r, c')" "unused c"
  shows "ctrl_inv c' \<and> has_geometry c' \<and> recorded_in c' = {#} \<and> nr_files c' = 0"
proof -
  let ?c = "c\<lparr>znsdev := (znsdev c)\<lparr>dev_path := ''/dev/'' @ dev_name (znsdev c)\<rparr>\<rparr>"
  let ?p = "dev_path (znsdev ?c)"
  from assms(1) obtain zoned c1 where z: "is_zoned k ?p ?c = Inr (zoned, c1)"
    and open_dev: "os_open k ?p"
    by (auto simp: init_znsdev_def Let_def bind_res_Inr_iff split: if_splits)
  let ?c1 = "c1\<lparr>znsdev := (znsdev c1)\<lparr>b_is_zoned := zoned\<rparr>\<rparr>"
  from assms(1) z obtain sz c2 where s: "get_sector_size k ?p ?c1 = Inr (sz, c2)"
    by (auto simp: init_znsdev_def Let_def bind_res_Inr_iff split: if_splits)
  let ?c2 = "c2\<lparr>sector_size := sz\<rparr>"
  let ?c3 = "set_geometry (?c2\<lparr>znsdev := (znsdev ?c2)\<lparr>b_nr_zones := get_nr_zones k ?c2\<rparr>\<rparr>)"
  from assms(1) z s have m: "init_zone_map k ?c3 = Inr c'"
    by (auto simp: init_znsdev_def Let_def bind_res_Inr_iff split: if_splits)
  have path: "dev_path (znsdev ?c3) = ?p"
    using is_zoned_frame [OF z] get_sector_size_frame [OF s] by simp
  have "unused ?c3"
    using is_zoned_frame [OF z] get_sector_size_frame [OF s] by (intro unusedI [OF assms(2)]) simp
  from init_zone_map_inv [OF m _ this] open_dev path
    init_zone_map_geometry [OF m set_geometry_idem]
  show ?thesis by simp
qed

definition fresh_inv :: "control \<Rightarrow> bool" where
  "fresh_inv c \<longleftrightarrow> ctrl_inv c \<and> has_geometry c \<and> recorded_in c = {#} \<and> nr_files c = 0"

lemma ctrl_inv_cong:
  assumes "zonemap c' = zonemap c" "file_counter_map c' = file_counter_map c" "nr_files c' = nr_files c"
    "recorded_in c = {#}"
  shows "ctrl_inv c' = ctrl_inv c"
proof -
  have "placed c' m = placed c m" if "zonemap c = Some m" for m
    using that assms(4) by (simp add: placed_def recorded_in_def)
  then show ?thesis by (auto simp: ctrl_inv_def counters_def assms(1-3))
qed

lemma fresh_inv_cong:
  assumes "fresh_inv c" "zonemap c' = zonemap c" "file_counter_map c' = file_counter_map c"
    "nr_files c' = nr_files c" "sector_size c' = sector_size c" "sector_shift c' = sector_shift c"
    "f2fs_segment_sectors c' = f2fs_segment_sectors c" "f2fs_segment_mask c' = f2fs_segment_mask c"
    "segment_shift c' = segment_shift c"
  shows "fresh_inv c'"
  using assms ctrl_inv_cong [of c' c]
  by (simp add: fresh_inv_def recorded_in_def has_geometry_def set_geometry_def Let_def)

lemma set_zone_sizes_fresh: "fresh_inv c \<Longrightarrow> fresh_inv (set_zone_sizes k c)"
  by (erule fresh_inv_cong) (simp_all add: set_zone_sizes_def Let_def)

lemma init_znsdev_fresh: "init_znsdev k c = Inr (r, c') \<Longrightarrow> unused c \<Longrightarrow> fresh_inv c'"
  using init_znsdev_establishes by (simp add: fresh_inv_def)

lemma show_sb_devs_frame:
  "file_counter_map (show_sb_devs is sb c) = file_counter_map c \<and> nr_files (show_sb_devs is sb c) = nr_files c"
  by (induction "is" sb c rule: show_sb_devs.induct) auto

lemma set_super_block_info_fresh:
  assumes "set_super_block_info k sb c = Inr c'" "unused c"
  shows "fresh_inv c'"
proof -
  let ?c = "show_sb_devs [0..<ZNS_TOOLS_MAX_DEVS] sb c"
  let ?c0 = "?c\<lparr>bdev := copy_bdev_names sb (bdev ?c)\<rparr>"
  from assms(1) obtain zoned c1 where z: "is_zoned k (dev_path (bdev ?c0)) ?c0 = Inr (zoned, c1)"
    by (auto simp: set_super_block_info_def Let_def bind_res_Inr_iff)
  let ?c1 = "c1\<lparr>bdev := (bdev c1)\<lparr>b_is_zoned := zoned\<rparr>\<rparr>"
  from assms(1) z obtain sz c2 where s: "get_sector_size k (dev_path (bdev ?c1)) ?c1 = Inr (sz, c2)"
    by (auto simp: set_super_block_info_def Let_def bind_res_Inr_iff)
  let ?c2 = "c2\<lparr>sector_size := sz, segment_shift := (if sz = 512 then 12 else 9)\<rparr>"
  let ?c3 = "?c2\<lparr>znsdev := copy_znsdev_name sb (znsdev ?c2)\<rparr>"
  from assms(1) z s obtain r where i: "init_znsdev k ?c3 = Inr (r, c')"
    by (auto simp: set_super_block_info_def Let_def bind_res_Inr_iff split: if_splits)
  have "unused ?c3"
    using is_zoned_frame [OF z] get_sector_size_frame [OF s]
    by (intro unusedI [OF assms(2)]) (simp add: show_sb_devs_frame)
  with i show ?thesis by (rule init_znsdev_fresh)
qed

lemma init_f2fs_ctrl_fresh:
  assumes "init_f2fs_ctrl k st l c = Inr (l', c')" "unused c"
  shows "fresh_inv c'"
proof -
  from assms(1) obtain c1 c2 where s: "init_dev k st c = Inr c1"
    "set_super_block_info k (f2fs_sb l') c1 = Inr c2"
    "c' = set_zone_sizes k (c2\<lparr>multi_dev := True, offset := get_dev_size k (dev_path (bdev c2))\<rparr>)"
    by (auto simp: init_f2fs_ctrl_def Let_def bind_res_Inr_iff)
  from s(1) assms(2) have "unused c1"
    by (auto simp: unused_def init_dev_def Let_def split: if_splits option.splits)
  with s(2) have "fresh_inv c2" by (rule set_super_block_info_fresh)
  then have "fresh_inv (c2\<lparr>multi_dev := True, offset := get_dev_size k (dev_path (bdev c2))\<rparr>)"
    by (rule fresh_inv_cong) simp_all
  then show ?thesis unfolding s(3) by (rule set_zone_sizes_fresh)
qed

lemma init_btrfs_ctrl_fresh:
  assumes "init_btrfs_ctrl k f c = Inr c'" "unused c"
  shows "fresh_inv c'"
proof -
  let ?w = "msg (Warn ''is registered as being on Btrfs'' [S f]) c"
  let ?n = "case os_scanf k of None \<Rightarrow> dev_name (znsdev ?w) | Some w \<Rightarrow> w"
  from assms(1) obtain r c1 where s: "init_znsdev k (?w\<lparr>znsdev := (znsdev ?w)\<lparr>dev_name := ?n\<rparr>\<rparr>) = Inr (r, c1)"
    "c' = set_zone_sizes k (c1\<lparr>multi_dev := False, offset := 0\<rparr>)"
    by (auto simp: init_btrfs_ctrl_def Let_def bind_res_Inr_iff split: if_splits)
  from s(1) have "fresh_inv c1" by (rule init_znsdev_fresh) (use assms(2) in \<open>simp add: unused_def\<close>)
  then have "fresh_inv (c1\<lparr>multi_dev := False, offset := 0\<rparr>)" by (rule fresh_inv_cong) simp_all
  then show ?thesis unfolding s(2) by (rule set_zone_sizes_fresh)
qed

lemma set_fs_magic_eq: "set_fs_magic k f c = Inr c' \<Longrightarrow> \<exists>m. c' = c\<lparr>fs_magic := m\<rparr>"
  by (auto simp: set_fs_magic_def split: option.splits)

lemma init_ctrl_fresh:
  assumes "init_ctrl k f st l c = Inr (l', c')" "unused c"
    "fs_magic c' = F2FS_MAGIC \<or> fs_magic c' = BTRFS_MAGIC"
  shows "fresh_inv c'"
proof -
  from assms(1) obtain c1 where m: "set_fs_magic k f c = Inr c1"
    by (auto simp: init_ctrl_def bind_res_Inr_iff)
  with assms(2) have none: "unused c1" using set_fs_magic_eq by (fastforce simp: unused_def)
  consider (f2fs) "fs_magic c1 = F2FS_MAGIC" | (btrfs) "fs_magic c1 \<noteq> F2FS_MAGIC" "fs_magic c1 = BTRFS_MAGIC"
    | (other) "fs_magic c1 \<noteq> F2FS_MAGIC" "fs_magic c1 \<noteq> BTRFS_MAGIC" by blast
  then show ?thesis
  proof cases
    case f2fs
    with assms(1) m have "init_f2fs_ctrl k st l c1 = Inr (l', c')"
      by (auto simp: init_ctrl_def bind_res_Inr_iff)
    then show ?thesis using none by (rule init_f2fs_ctrl_fresh)
  next
    case btrfs
    with assms(1) m have "init_btrfs_ctrl k f c1 = Inr c'"
      by (auto simp: init_ctrl_def bind_res_Inr_iff)
    then show ?thesis using none by (rule init_btrfs_ctrl_fresh)
  next
    case other
    with assms(1) m have "c' = c1" by (auto simp: init_ctrl_def bind_res_Inr_iff)
    with assms(3) other show ?thesis by simp
  qed
qed

section \<open>Device names\<close>

lemma cstring_append:
  "cstring (xs @ ys) = (if 0 \<in> set xs then cstring xs else map (\<lambda>b. char_of (unat b)) xs @ cstring ys)"
  by (induction xs) (auto simp: cstring_def)

lemma cstring_no_nul: "0 \<notin> set xs \<Longrightarrow> cstring xs = map (\<lambda>b. char_of (unat b)) xs"
  by (induction xs) (auto simp: cstring_def)

lemma cstring_take_drop:
  "0 \<in> set (take n xs) \<Longrightarrow> cstring (take n xs @ ys) = cstring xs"
  by (metis append_take_drop_id cstring_append)

lemma cstring_drop_prefix:
  "k \<le> length (cstring xs) \<Longrightarrow> cstring (drop k xs) = drop k (cstring xs)"
proof (induction k arbitrary: xs)
  case 0
  then show ?case by simp
next
  case (Suc k)
  then show ?case by (cases xs) (auto simp: cstring_def split: if_splits)
qed

lemma length_cstring: "length (cstring xs) = length (takeWhile (\<lambda>b. b \<noteq> 0) xs)"
  by (simp add: cstring_def)

lemma nul_in_take_iff: "length xs \<ge> n \<Longrightarrow> 0 \<in> set (take n xs) \<longleftrightarrow> length (cstring xs) < n"
proof (induction n arbitrary: xs)
  case 0
  then show ?case by simp
next
  case (Suc n)
  then show ?case by (cases xs) (auto simp: cstring_def)
qed

text \<open>
  The name of the first device, as the two copies leave it: a name of 15 characters or more
  runs into the path that is copied after it.
\<close>

lemma length_bdev_mem: "length (bdev_mem b) = MAX_DEV_NAME + MAX_PATH_LEN + MAX_PATH_LEN"
  by (simp add: bdev_mem_def pad_def string_bytes_def)

lemma memcpy_at_split:
  "off \<le> length mem \<Longrightarrow> take off (memcpy_at off bs mem) = take off mem"
  "off \<le> length mem \<Longrightarrow> drop off (memcpy_at off bs mem) = bs @ drop (off + length bs) mem"
  by (simp_all add: memcpy_at_def)

lemma copy_bdev_names_mem:
  assumes "sb_dev_off 0 + 5 + MAX_PATH_LEN \<le> length sb"
  shows "\<exists>rest. copy_bdev_names sb b =
    bdev_of_mem (take MAX_DEV_NAME (sb_path_bytes 0 5 sb) @ sb_path_bytes 0 0 sb @ rest) b"
proof -
  have l: "length (sb_path_bytes 0 5 sb) = MAX_PATH_LEN"
    using assms by (simp add: sb_path_bytes_def)
  have "MAX_DEV_NAME \<le> MAX_PATH_LEN" by (simp add: MAX_DEV_NAME_def MAX_PATH_LEN_def)
  then have "take MAX_DEV_NAME (memcpy_at 0 (sb_path_bytes 0 5 sb) mem) = take MAX_DEV_NAME (sb_path_bytes 0 5 sb)" for mem
    by (simp add: memcpy_at_def l)
  then show ?thesis
    by (simp add: copy_bdev_names_def Let_def memcpy_at_def [of MAX_DEV_NAME]) blast
qed

lemma copy_bdev_names_name:
  assumes "sb_dev_off 0 + 5 + MAX_PATH_LEN \<le> length sb" "sb_dev_path 0 sb = ''/dev/'' @ name"
    "length name + 5 < MAX_PATH_LEN"
  shows "dev_path (copy_bdev_names sb b) = ''/dev/'' @ name"
    "dev_name (copy_bdev_names sb b) =
      (if length name < MAX_DEV_NAME then name else take MAX_DEV_NAME name @ ''/dev/'' @ name)"
proof -
  let ?p = "drop (sb_dev_off 0) sb"
  obtain rest where r: "copy_bdev_names sb b =
      bdev_of_mem (take MAX_DEV_NAME (sb_path_bytes 0 5 sb) @ sb_path_bytes 0 0 sb @ rest) b"
    using copy_bdev_names_mem [OF assms(1)] by blast
  have path: "cstring ?p = ''/dev/'' @ name" using assms(2) by (simp add: sb_dev_path_def)
  have l: "length ?p \<ge> 5 + MAX_PATH_LEN" using assms(1) by simp
  have l5: "length (take MAX_DEV_NAME (sb_path_bytes 0 5 sb)) = MAX_DEV_NAME"
    using l by (simp add: sb_path_bytes_def MAX_DEV_NAME_def MAX_PATH_LEN_def)
  have nul: "0 \<in> set (sb_path_bytes 0 0 sb)"
    using nul_in_take_iff [of MAX_PATH_LEN ?p] l assms(3) by (simp add: sb_path_bytes_def path)
  have tail: "cstring (sb_path_bytes 0 0 sb @ ys) = ''/dev/'' @ name" for ys
    using nul cstring_take_drop [of MAX_PATH_LEN ?p ys] by (simp add: sb_path_bytes_def path)
  have "drop MAX_DEV_NAME (take MAX_DEV_NAME (sb_path_bytes 0 5 sb) @ ys) = ys" for ys
    using l5 by (metis append_eq_conv_conj)
  then show "dev_path (copy_bdev_names sb b) = ''/dev/'' @ name"
    unfolding r bdev_of_mem_def by (simp only: tail) simp
  let ?q = "drop 5 ?p"
  have q: "cstring ?q = name" using cstring_drop_prefix [of 5 ?p] by (simp add: path)
  have t: "take MAX_DEV_NAME (sb_path_bytes 0 5 sb) = take MAX_DEV_NAME ?q"
    by (simp add: sb_path_bytes_def MAX_DEV_NAME_def MAX_PATH_LEN_def add.commute)
  have lq: "MAX_DEV_NAME \<le> length ?q" using l by (simp add: MAX_DEV_NAME_def MAX_PATH_LEN_def)
  note nq = nul_in_take_iff [OF lq, unfolded q]
  show "dev_name (copy_bdev_names sb b) =
      (if length name < MAX_DEV_NAME then name else take MAX_DEV_NAME name @ ''/dev/'' @ name)"
  proof (cases "length name < MAX_DEV_NAME")
    case True
    then have "0 \<in> set (take MAX_DEV_NAME ?q)" using nq by blast
    from cstring_take_drop [OF this, of "sb_path_bytes 0 0 sb @ rest"] True show ?thesis
      by (simp only: r bdev_of_mem_def t q if_True) simp
  next
    case False
    then have n: "0 \<notin> set (take MAX_DEV_NAME ?q)" using nq by blast
    have "map (\<lambda>b. char_of (unat b)) (take MAX_DEV_NAME ?q) = take MAX_DEV_NAME name"
      using cstring_append [of "take MAX_DEV_NAME ?q" "drop MAX_DEV_NAME ?q"] n q lq False
      by (simp only: append_take_drop_id if_False) simp
    then show ?thesis
      using cstring_append [of "take MAX_DEV_NAME ?q" "sb_path_bytes 0 0 sb @ rest"] n False
      by (simp add: r bdev_of_mem_def t tail)
  qed
qed

section \<open>Properties\<close>

text \<open>C23. For a device whose zones have \<open>2 ^ n\<close> sectors, the zone of a sector address is the
  quotient of its lower 32 bits by the zone size (the mask is a \<open>uint32_t\<close>): the zone that
  contains the address when it is below \<open>2 ^ 32\<close>.\<close>

theorem zone_of_address:
  assumes "zone_bytes_pow2 c n"
  shows "\<exists>z. get_zone_number c lba = Inr z \<and> unat z = unat lba mod 2 ^ 32 div 2 ^ n \<and>
    (unat lba < 2 ^ 32 \<longrightarrow> unat z * 2 ^ n \<le> unat lba \<and> unat lba < (unat z + 1) * 2 ^ n)"
proof -
  let ?q = "unat lba mod 2 ^ 32 div 2 ^ n"
  have "unat lba mod 2 ^ 32 < (2 :: nat) ^ 32" by (rule mod_less_divisor) simp
  then have "?q < 2 ^ 32" by (meson div_le_dividend le_less_trans)
  then have z: "unat (of_nat ?q :: u32) = ?q" by (simp add: unat_of_nat take_bit_nat_eq_self_iff)
  note g = get_zone_number_pow2 [OF assms, of lba]
  show ?thesis
    using g z get_zone_number_bounds [OF assms _ g] by (intro exI [of _ "of_nat ?q"]) simp
qed

theorem zone_of_address_witness:
  "zone_bytes_pow2 (zero_control\<lparr>znsdev := zero_bdev\<lparr>b_zone_size := 0x80000\<rparr>\<rparr>) 19 \<and>
   (\<exists>z. get_zone_number (zero_control\<lparr>znsdev := zero_bdev\<lparr>b_zone_size := 0x80000\<rparr>\<rparr>) 0x100080005 = Inr z \<and>
      unat z = 1)"
proof -
  let ?c = "zero_control\<lparr>znsdev := zero_bdev\<lparr>b_zone_size := 0x80000\<rparr>\<rparr>"
  have c: "zone_bytes_pow2 ?c 19" by (simp add: zone_bytes_pow2_def zero_control_def zero_bdev_def)
  from zone_of_address [OF c, of "0x100080005"] c show ?thesis by auto
qed

text \<open>C24. The segment arithmetic fits together for both sector sizes: a segment of the computed
  number of sectors is 2 MiB, and mask and shift give the number of the segment that contains
  a block.\<close>

theorem segment_geometry:
  assumes "has_geometry c"
  shows "push_bit (unat (sector_shift c)) (f2fs_segment_sectors c) = F2FS_SEGMENT_BYTES \<and>
    unat (drop_bit (unat (segment_shift c)) (p AND f2fs_segment_mask c)) =
      unat p * (if sector_size c = 512 then 512 else 4096) div 2097152"
  using segment_bytes [OF assms] segment_of_block [OF assms] by blast

theorem segment_geometry_witness:
  "unat (drop_bit (unat (segment_shift (set_geometry (zero_control\<lparr>sector_size := 512\<rparr>))))
     (10000 AND f2fs_segment_mask (set_geometry (zero_control\<lparr>sector_size := 512\<rparr>)))) = 2"
  using segment_geometry [OF set_geometry_idem, of "zero_control\<lparr>sector_size := 512\<rparr>" 10000] by simp

text \<open>C36. The conventional device named in the superblock is found under its path, and its name
  is the name after \<open>/dev/\<close> when it has at most 14 characters; a longer name is not terminated
  and runs on into the path.\<close>

theorem superblock_device_names:
  assumes "sb_dev_off 0 + 5 + MAX_PATH_LEN \<le> length sb" "sb_dev_path 0 sb = ''/dev/'' @ name"
    "length name + 5 < MAX_PATH_LEN"
  shows "dev_path (copy_bdev_names sb b) = ''/dev/'' @ name \<and>
    dev_name (copy_bdev_names sb b) =
      (if length name < MAX_DEV_NAME then name else take MAX_DEV_NAME name @ ''/dev/'' @ name)"
  using copy_bdev_names_name [OF assms] by blast

definition sample_super :: "u8 list" where
  "sample_super = replicate (sb_dev_off 0) 0 @ string_bytes ''/dev/nvme0n1'' @ replicate 80 0"

theorem superblock_device_names_witness:
  "dev_path (copy_bdev_names sample_super zero_bdev) = ''/dev/nvme0n1'' \<and>
   dev_name (copy_bdev_names sample_super zero_bdev) = ''nvme0n1''"
proof -
  have "sb_dev_off 0 + 5 + MAX_PATH_LEN \<le> length sample_super"
    by (simp add: sample_super_def string_bytes_def MAX_PATH_LEN_def)
  moreover have "sb_dev_path 0 sample_super = ''/dev/'' @ ''nvme0n1''"
    by (simp add: sample_super_def sb_dev_path_def cstring_def string_bytes_def char_of_def bit_0)
  ultimately show ?thesis
    using superblock_device_names [of sample_super "''nvme0n1''" zero_bdev]
    by (simp add: MAX_PATH_LEN_def MAX_DEV_NAME_def)
qed

text \<open>C14. The initialisation of \<open>zns.fiemap\<close> and \<open>zns.imap\<close> on F2FS or Btrfs, when it returns,
  establishes the invariant of the collection with nothing recorded, and the segment geometry of
  the device.\<close>

theorem init_ctrl_establishes:
  assumes "init_ctrl k f st l c = Inr (l', c')" "unused c"
    "fs_magic c' = F2FS_MAGIC \<or> fs_magic c' = BTRFS_MAGIC"
  shows "ctrl_inv c' \<and> recorded_in c' = {#} \<and> nr_files c' = 0 \<and> has_geometry c'"
  using init_ctrl_fresh [OF assms] by (simp add: fresh_inv_def)

end
