(* ===== verification/Segmap.thy ===== *)
theory Segmap
  imports Geometry
begin

text \<open>
  The segment report of \<open>zns.segmap\<close> (\<open>src/segmap.c\<close>, \<open>show_segment_info\<close> to
  \<open>show_segment_report\<close>): every extent is cut at the borders of F2FS segments, the pieces are
  printed, and segments are counted per heat class, for the whole run and per file. Lines
  that only draw rulers are left out.
\<close>

section \<open>State (segmap.h)\<close>

record file_stats =
  fs_cold_ctr :: u32
  fs_warm_ctr :: u32
  fs_hot_ctr :: u32
  fs_zone_ctr :: u32
  fs_last_zone :: u32
  fs_segment_ctr :: u32
  fs_filename :: string

record segmap_manager =
  sm_dir :: string
  sm_isdir :: bool
  sm_segment_ctr :: u32
  sm_cold_ctr :: u32
  sm_warm_ctr :: u32
  sm_hot_ctr :: u32
  sm_fs :: "file_stats list"
  sm_ctr :: u32

definition zero_file_stats :: file_stats where
  "zero_file_stats = \<lparr>fs_cold_ctr = 0, fs_warm_ctr = 0, fs_hot_ctr = 0, fs_zone_ctr = 0,
     fs_last_zone = 0, fs_segment_ctr = 0, fs_filename = []\<rparr>"

definition zero_segmap_manager :: segmap_manager where
  "zero_segmap_manager = \<lparr>sm_dir = [], sm_isdir = False, sm_segment_ctr = 0, sm_cold_ctr = 0,
     sm_warm_ctr = 0, sm_hot_ctr = 0, sm_fs = [], sm_ctr = 0\<rparr>"

section \<open>Printing pieces of extents\<close>

abbreviation ssh :: "control \<Rightarrow> nat" where
  "ssh c \<equiv> unat (segment_shift c)"

text \<open>The line of a piece of an extent; its arguments are only computed when it is printed.\<close>

definition rep_piece :: "u64 \<Rightarrow> u64 \<Rightarrow> u64 \<Rightarrow> extent \<Rightarrow> control \<Rightarrow> control res" where
  "rep_piece pbas pbae sz e c =
     (if show_only_stats c then Inr c
      else bind_res (get_file_extent_count (e_file e) c) (\<lambda>n.
             Inr (msg (SegExtent pbas pbae sz (e_file e) (ext_nr e + 1) n) c)))"

definition show_segment_info :: "extent \<Rightarrow> u64 \<Rightarrow> control \<Rightarrow> control res" where
  "show_segment_info e segment_start c =
     (if cur_segment c \<noteq> segment_start then
        let start_blk = push_bit (ssh c) segment_start;
            c = rep (show_only_stats c)
                  (SegmentLine segment_start start_blk (start_blk + f2fs_segment_sectors c)
                     (f2fs_segment_sectors c)) c
        in case fs_info_show c of
             None \<Rightarrow> Inl NullDeref
           | Some f \<Rightarrow>
               bind_res (f (fs_info e) (show_only_stats c) (sector_shift c)) (\<lambda>ls.
                 Inr (fold msg ls c\<lparr>cur_segment := segment_start\<rparr>))
      else Inr c)"

definition show_beginning_segment :: "extent \<Rightarrow> control \<Rightarrow> control res" where
  "show_beginning_segment e c =
     (let segment_start = phy_blk e AND f2fs_segment_mask c;
          segment_end = segment_start + f2fs_segment_sectors c
      in rep_piece (phy_blk e) segment_end (segment_end - phy_blk e) e c)"

section \<open>Counting\<close>

text \<open>
  The index of the statistics of a file; a new entry is made for a name not yet seen. The
  array has one entry per file of the run.
\<close>

definition get_file_stats_index :: "string \<Rightarrow> segmap_manager \<Rightarrow> (nat \<times> segmap_manager) res" where
  "get_file_stats_index filename sm =
     (case index_of (\<lambda>s. str_eq_n MAX_FILE_LENGTH (fs_filename s) filename)
             (take (unat (sm_ctr sm)) (sm_fs sm)) of
        Some i \<Rightarrow> Inr (i, sm)
      | None \<Rightarrow>
          let i = unat (sm_ctr sm) in
          if i < length (sm_fs sm)
          then Inr (i, sm\<lparr>sm_fs := (sm_fs sm)[i := (sm_fs sm ! i)\<lparr>fs_filename := take MAX_FILE_LENGTH filename\<rparr>],
                          sm_ctr := sm_ctr sm + 1\<rparr>)
          else Inl OutOfBounds)"

definition bump_file_stats :: "u32 \<Rightarrow> u32 \<Rightarrow> file_stats \<Rightarrow> file_stats" where
  "bump_file_stats num zone s =
     (let s = s\<lparr>fs_segment_ctr := fs_segment_ctr s + num\<rparr> in
      if fs_last_zone s \<noteq> zone then s\<lparr>fs_last_zone := zone, fs_zone_ctr := fs_zone_ctr s + 1\<rparr> else s)"

definition bump_file_heat :: "seg_type \<Rightarrow> u32 \<Rightarrow> file_stats \<Rightarrow> file_stats" where
  "bump_file_heat t num s =
     (case t of
        CURSEG_COLD_DATA \<Rightarrow> s\<lparr>fs_cold_ctr := fs_cold_ctr s + num\<rparr>
      | CURSEG_WARM_DATA \<Rightarrow> s\<lparr>fs_warm_ctr := fs_warm_ctr s + num\<rparr>
      | CURSEG_HOT_DATA \<Rightarrow> s\<lparr>fs_hot_ctr := fs_hot_ctr s + num\<rparr>
      | _ \<Rightarrow> s)"

definition bump_heat :: "seg_type \<Rightarrow> u32 \<Rightarrow> segmap_manager \<Rightarrow> segmap_manager" where
  "bump_heat t num sm =
     (case t of
        CURSEG_COLD_DATA \<Rightarrow> sm\<lparr>sm_cold_ctr := sm_cold_ctr sm + num\<rparr>
      | CURSEG_WARM_DATA \<Rightarrow> sm\<lparr>sm_warm_ctr := sm_warm_ctr sm + num\<rparr>
      | CURSEG_HOT_DATA \<Rightarrow> sm\<lparr>sm_hot_ctr := sm_hot_ctr sm + num\<rparr>
      | _ \<Rightarrow> sm)"

definition set_segment_counters :: "control \<Rightarrow> u32 \<Rightarrow> extent \<Rightarrow> segmap_manager \<Rightarrow> segmap_manager res" where
  "set_segment_counters c num e sm =
     (case fs_info e of
        None \<Rightarrow> Inl NullDeref
      | Some seg_i \<Rightarrow>
          if e_flags e AND FIEMAP_EXTENT_DATA_INLINE \<noteq> 0
             \<and> exclude_flags c AND FIEMAP_EXTENT_DATA_INLINE = 0
          then Inr sm
          else
            let sm = sm\<lparr>sm_segment_ctr := sm_segment_ctr sm + num\<rparr> in
            if show_class_stats c \<and> 1 < nr_files c
            then bind_res (get_file_stats_index (e_file e) sm) (\<lambda>(i, sm).
                   let s = bump_file_stats num (e_zone e) (sm_fs sm ! i);
                       sm = bump_heat (si_type seg_i) num sm;
                       s = bump_file_heat (si_type seg_i) num s
                   in Inr (sm\<lparr>sm_fs := (sm_fs sm)[i := s]\<rparr>))
            else Inr (bump_heat (si_type seg_i) num sm))"

section \<open>The parts of an extent\<close>

type_synonym report_state = "segmap_manager \<times> control"

definition show_consecutive_segments :: "extent \<Rightarrow> u64 \<Rightarrow> report_state \<Rightarrow> report_state res" where
  "show_consecutive_segments e segment_start = (\<lambda>(sm, c).
     let segment_end = drop_bit (ssh c) ((phy_blk e + e_len e) AND f2fs_segment_mask c);
         num_segments = segment_end - segment_start
     in bind_res (if show_class_stats c \<and> procfs c
                  then set_segment_counters c (ucast (num_segments + 1)) e sm else Inr sm) (\<lambda>sm.
        bind_res
          (if num_segments = 1
           then bind_res (show_segment_info e segment_start c)
                  (rep_piece segment_start (push_bit (ssh c) segment_end) (f2fs_segment_sectors c) e)
           else
             let start_blk = push_bit (ssh c) segment_start;
                 end_blk = push_bit (ssh c) segment_end;
                 sz = num_segments * f2fs_segment_sectors c;
                 c = rep (show_only_stats c)
                       (SegmentRange segment_start (segment_end - 1) start_blk end_blk sz) c
             in bind_res (show_segment_info e segment_start c) (rep_piece start_blk end_blk sz e))
          (\<lambda>c. Inr (sm, c))))"

definition show_remainder_segment :: "extent \<Rightarrow> control \<Rightarrow> control res" where
  "show_remainder_segment e c =
     (let segment_start = drop_bit (ssh c) ((phy_blk e + e_len e) AND f2fs_segment_mask c);
          start_blk = push_bit (ssh c) segment_start;
          remainder = phy_blk e + e_len e - start_blk
      in bind_res (show_segment_info e segment_start c)
           (rep_piece start_blk (start_blk + remainder) remainder e))"

text \<open>An extent inside one segment.\<close>

definition show_single :: "extent \<Rightarrow> u64 \<Rightarrow> report_state \<Rightarrow> report_state res" where
  "show_single e segment_id = (\<lambda>(sm, c).
     bind_res
       (if segment_id \<noteq> cur_segment c
        then bind_res (show_segment_info e segment_id c) (\<lambda>c.
               let c = c\<lparr>cur_segment := segment_id\<rparr> in
               bind_res (set_segment_counters c 1 e sm) (\<lambda>sm. Inr (sm, c)))
        else Inr (sm, c))
       (\<lambda>(sm, c).
         bind_res (rep_piece (phy_blk e) (phy_blk e + e_len e) (e_len e) e c) (\<lambda>c. Inr (sm, c))))"

text \<open>An extent over several segments: beginning, full segments in between, remainder.\<close>

definition show_beginning :: "extent \<Rightarrow> u64 \<Rightarrow> report_state \<Rightarrow> (u64 \<times> report_state) res" where
  "show_beginning e segment_id = (\<lambda>(sm, c).
     if phy_blk e \<noteq> phy_blk e AND f2fs_segment_mask c
     then bind_res
            (if segment_id \<noteq> cur_segment c
             then show_segment_info e (drop_bit (ssh c) (phy_blk e AND f2fs_segment_mask c)) c
             else Inr c) (\<lambda>c.
          bind_res (show_beginning_segment e c) (\<lambda>c.
          bind_res (set_segment_counters c 1 e sm) (\<lambda>sm. Inr (segment_id + 1, sm, c))))
     else Inr (segment_id, sm, c))"

definition show_multiple :: "extent \<Rightarrow> u64 \<Rightarrow> report_state \<Rightarrow> report_state res" where
  "show_multiple e segment_id s =
     bind_res (show_beginning e segment_id s) (\<lambda>(segment_id, sm, c).
       let segment_start = phy_blk e AND f2fs_segment_mask c;
           segment_end = (phy_blk e + e_len e) AND f2fs_segment_mask c
       in bind_res (if drop_bit (ssh c) (segment_end - segment_start) > 1
                    then show_consecutive_segments e segment_id (sm, c) else Inr (sm, c)) (\<lambda>(sm, c).
          if segment_end \<noteq> phy_blk e + e_len e
          then bind_res (show_remainder_segment e c) (\<lambda>c.
               bind_res (set_segment_counters c 1 e sm) (\<lambda>sm. Inr (sm, c)))
          else Inr (sm, c)))"

section \<open>The report\<close>

definition segment_id_of :: "control \<Rightarrow> u64 \<Rightarrow> u64" where
  "segment_id_of c blk = drop_bit (ssh c) (blk AND f2fs_segment_mask c)"

definition report_start_lba :: "control \<Rightarrow> u64" where
  "report_start_lba c = ucast (start_zone c) * b_zone_size (znsdev c) - b_zone_size (znsdev c)"

definition report_end_lba :: "control \<Rightarrow> u64" where
  "report_end_lba c = ucast (end_zone c + 1) * b_zone_size (znsdev c) - b_zone_size (znsdev c)"

text \<open>
  The body of the loop for an extent in range. The first component of the state is
  \<open>current_zone\<close>.
\<close>

definition enter_zone :: "os \<Rightarrow> extent \<Rightarrow> u32 \<Rightarrow> control \<Rightarrow> control res" where
  "enter_zone k e current_zone c =
     (if current_zone \<noteq> e_zone e \<and> \<not> show_only_stats c then print_zone_info k (e_zone e) c else Inr c)"

definition report_extent :: "os \<Rightarrow> extent \<Rightarrow> u32 \<times> report_state \<Rightarrow> (u32 \<times> report_state) res" where
  "report_extent k e = (\<lambda>(current_zone, sm, c).
     bind_res (enter_zone k e current_zone c) (\<lambda>c.
       let segment_id = segment_id_of c (phy_blk e);
           segment_start = phy_blk e AND f2fs_segment_mask c;
           extent_end = phy_blk e + e_len e;
           segment_end = segment_id_of c extent_end;
           num_segments = segment_end - drop_bit (ssh c) segment_start + 1
       in bind_res (increase_file_segment_counter (e_file e) (ucast num_segments) (ucast segment_id)
                      (fs_info e) (zone_cap e) c) (\<lambda>c.
          bind_res
            (if segment_start = extent_end AND f2fs_segment_mask c
                \<or> extent_end = segment_start + drop_bit (unat (sector_shift c)) F2FS_SEGMENT_BYTES
             then show_single e segment_id (sm, c)
             else show_multiple e segment_id (sm, c))
            (\<lambda>s. Inr (e_zone e, s)))))"

text \<open>
  \<open>while (current)\<close>. An extent in front of the range is not stepped over: the loop looks at
  the same extent again. A list that still has iterations to do when the fuel is used up is
  \<open>OutOfFuel\<close>.
\<close>

fun report_zone_extents ::
    "nat \<Rightarrow> os \<Rightarrow> extent list \<Rightarrow> u32 \<times> report_state \<Rightarrow> (u32 \<times> report_state) res" where
  "report_zone_extents fuel k [] s = Inr s"
| "report_zone_extents 0 k (e # es) s = Inl OutOfFuel"
| "report_zone_extents (Suc fuel) k (e # es) (z, sm, c) =
     (let blk = push_bit (ssh c) (segment_id_of c (phy_blk e)) in
      if report_end_lba c \<le> blk then Inr (z, sm, c)
      else if blk < report_start_lba c then report_zone_extents fuel k (e # es) (z, sm, c)
      else bind_res (report_extent k e (z, sm, c)) (report_zone_extents fuel k es))"

fun report_all_zones ::
    "nat \<Rightarrow> os \<Rightarrow> zone_map \<Rightarrow> nat list \<Rightarrow> u32 \<times> report_state \<Rightarrow> (u32 \<times> report_state) res" where
  "report_all_zones fuel k m [] s = Inr s"
| "report_all_zones fuel k m (i # is) s =
     (if length (zones m) \<le> i then Inl OutOfBounds
      else if z_extent_ctr (zones m ! i) = 0 then report_all_zones fuel k m is s
      else bind_res (report_zone_extents fuel k (extents (zones m ! i)) s)
             (report_all_zones fuel k m is))"

definition file_stats_line :: "file_counter \<Rightarrow> out" where
  "file_stats_line f = FileStats (fc_file f) (fc_ext_ctr f) (fc_segment_ctr f) (fc_zone_ctr f)
     (cold_ctr f) (warm_ctr f) (hot_ctr f)"

definition show_segment_stats :: "segmap_manager \<Rightarrow> control \<Rightarrow> control res" where
  "show_segment_stats sm c =
     (let c = msg (Text ''SEGMENT STATS'') c;
          incl = (exclude_flags c AND FIEMAP_EXTENT_DATA_INLINE = 0);
          c = (if incl then msg (Warn ''Segment Heat Classification statistics exclude inode inlined file data'' []) c else c);
          c = (if 0 < inlined_extent_ctr c \<and> incl
               then msg (Field ''FIEMAP_EXTENT_DATA_INLINE'' [N (unat (inlined_extent_ctr c))]) c else c)
      in if sm_isdir sm \<and> 1 < nr_files c
         then case file_counter_map c of
                None \<Rightarrow> Inl NullDeref
              | Some m \<Rightarrow>
                  if length (files m) < unat (file_ctr m) then Inl OutOfBounds
                  else Inr (fold msg (map file_stats_line (active m)) c)
         else Inr c)"

definition show_segment_report :: "nat \<Rightarrow> os \<Rightarrow> report_state \<Rightarrow> report_state res" where
  "show_segment_report fuel k = (\<lambda>(sm, c).
     let sm = (if show_class_stats c
               then sm\<lparr>sm_fs := replicate (unat (nr_files c)) zero_file_stats\<rparr> else sm);
         c = rep (show_only_stats c) (Text ''SEGMENT MAPPINGS'') c
     in case zonemap c of
          None \<Rightarrow> Inl NullDeref
        | Some m \<Rightarrow>
            bind_res (report_all_zones fuel k m [0..<unat (zm_nr_zones m)] (0, sm, c))
              (\<lambda>(z, sm, c). bind_res (show_segment_stats sm c) (\<lambda>c. Inr (sm, c))))"

end
