(* ===== verification/Segmap_Spec.thy ===== *)
theory Segmap_Spec
  imports Segmap
begin

text \<open>
  What the segment report prints: the pieces of every extent, how they cover it, and when the
  loop over a zone returns.
\<close>

section \<open>What printing and counting leave alone\<close>

text \<open>The part of the file counters the extent numbers are looked up in.\<close>

definition ext_view :: "control \<Rightarrow> (u32 \<times> (string \<times> u32) list) option" where
  "ext_view c = map_option (\<lambda>m. (file_ctr m, map (\<lambda>f. (fc_file f, fc_ext_ctr f)) (files m))) (file_counter_map c)"

definition seg_frame :: "control \<Rightarrow> out list \<Rightarrow> control \<Rightarrow> bool" where
  "seg_frame c ls c' \<longleftrightarrow> ext_view c' = ext_view c \<and>
     c' = c\<lparr>stdout := stdout c @ ls, cur_segment := cur_segment c', file_counter_map := file_counter_map c'\<rparr>"

lemma seg_frame_refl: "seg_frame c [] c"
  by (simp add: seg_frame_def)

lemma seg_frame_trans:
  assumes "seg_frame a ls b" "seg_frame b ls' c"
  shows "seg_frame a (ls @ ls') c"
proof -
  have b: "b = a\<lparr>stdout := stdout a @ ls, cur_segment := cur_segment b, file_counter_map := file_counter_map b\<rparr>"
    using assms(1) by (simp add: seg_frame_def)
  have "c = b\<lparr>stdout := stdout b @ ls', cur_segment := cur_segment c, file_counter_map := file_counter_map c\<rparr>"
    using assms(2) by (simp add: seg_frame_def)
  then have "c = a\<lparr>stdout := stdout a @ ls @ ls', cur_segment := cur_segment c, file_counter_map := file_counter_map c\<rparr>"
    by (subst (asm) (1 2) b) simp
  with assms show ?thesis by (simp add: seg_frame_def)
qed

lemma seg_frame_msg: "seg_frame c [l] (msg l c)"
  by (simp add: seg_frame_def msg_def ext_view_def)

lemma seg_frame_cur: "seg_frame c [] (c\<lparr>cur_segment := g\<rparr>)"
  by (simp add: seg_frame_def ext_view_def)

lemma seg_frame_fold: "seg_frame c ls (fold msg ls c)"
proof (induction ls arbitrary: c)
  case (Cons l ls)
  from seg_frame_trans [OF seg_frame_msg [of c l] Cons [of "msg l c"]] show ?case by simp
qed (simp add: seg_frame_refl)

lemma seg_frame_fields:
  "seg_frame c ls c' \<Longrightarrow> segment_shift c' = segment_shift c \<and> f2fs_segment_mask c' = f2fs_segment_mask c \<and>
     f2fs_segment_sectors c' = f2fs_segment_sectors c \<and> sector_shift c' = sector_shift c \<and>
     show_only_stats c' = show_only_stats c \<and> fs_info_show c' = fs_info_show c \<and>
     show_class_stats c' = show_class_stats c \<and> procfs c' = procfs c \<and> nr_files c' = nr_files c \<and>
     exclude_flags c' = exclude_flags c \<and> start_zone c' = start_zone c \<and> end_zone c' = end_zone c \<and>
     znsdev c' = znsdev c \<and> zonemap c' = zonemap c \<and> zns_sector_shift c' = zns_sector_shift c \<and>
     stdout c' = stdout c @ ls"
  unfolding seg_frame_def by (elim conjE, erule ssubst) simp

lemma index_of_map: "index_of P (map f xs) = index_of (\<lambda>x. P (f x)) xs"
  by (induction xs) (auto split: option.split)

lemma get_file_extent_count_view:
  "get_file_extent_count f c =
    (case ext_view c of None \<Rightarrow> Inl NullDeref
     | Some (n, xs) \<Rightarrow> Inr (case index_of (\<lambda>x. fst x = f) (take (unat n) xs) of
         None \<Rightarrow> 0 | Some i \<Rightarrow> snd (xs ! i)))"
  by (auto simp: get_file_extent_count_def ext_view_def same_file_eq active_def take_map index_of_map
      split: option.split dest!: index_of_less)

lemma seg_frame_count: "seg_frame c ls c' \<Longrightarrow> get_file_extent_count f c' = get_file_extent_count f c"
  by (simp add: get_file_extent_count_view) (simp add: seg_frame_def)

lemma increase_file_segment_counter_frame:
  assumes "increase_file_segment_counter f n cur fsi cap c = Inr c'"
  shows "seg_frame c [] c'"
proof -
  from assms obtain seg_i m where s: "fsi = Some seg_i" "file_counter_map c = Some m"
    by (auto simp: increase_file_segment_counter_def split: option.splits)
  let ?i = "case index_of (same_file f) (active m) of Some i \<Rightarrow> i | None \<Rightarrow> unat (file_ctr m)"
  from assms s obtain z g where g: "?i < length (files m)"
    "bump_zones c n cap z (bump_segments (si_type seg_i) n cur (files m ! ?i)) = Inr g"
    "c' = c\<lparr>file_counter_map := Some (m\<lparr>files := (files m)[?i := g]\<rparr>)\<rparr>"
    by (auto simp: increase_file_segment_counter_def Let_def bind_res_Inr_iff not_le split: if_splits)
  have "fc_file (bump_class t n x) = fc_file x \<and> fc_ext_ctr (bump_class t n x) = fc_ext_ctr x" for t x
    by (cases t) (simp_all add: bump_class_def)
  then have "fc_file g = fc_file (files m ! ?i)" "fc_ext_ctr g = fc_ext_ctr (files m ! ?i)"
    using g(2) by (auto simp: bump_zones_def bump_segments_def split: if_splits)
  then have "map (\<lambda>f. (fc_file f, fc_ext_ctr f)) ((files m)[?i := g]) = map (\<lambda>f. (fc_file f, fc_ext_ctr f)) (files m)"
    using g(1) by (intro map_update_same) simp_all
  then have "ext_view c' = ext_view c" by (simp add: ext_view_def g(3) s(2))
  then show ?thesis by (simp add: seg_frame_def g(3))
qed

section \<open>The lines of pieces\<close>

type_synonym piece = "u64 \<times> u64 \<times> u64"

definition piece_lines :: "out list \<Rightarrow> (piece \<times> string \<times> u32 \<times> u32) list" where
  "piece_lines ls = concat (map (\<lambda>l. case l of SegExtent a b s f i n \<Rightarrow> [((a, b, s), f, i, n)] | _ \<Rightarrow> []) ls)"

lemma piece_lines_simps [simp]:
  "piece_lines [] = []" "piece_lines (ls @ ls') = piece_lines ls @ piece_lines ls'"
  "piece_lines [SegExtent a b s f i n] = [((a, b, s), f, i, n)]"
  "piece_lines [SegmentLine q b s t] = []" "piece_lines [SegmentRange q r b s t] = []"
  "piece_lines [SegmentType ty v] = []" "piece_lines [ZoneLine z a b d e g h m] = []"
  by (simp_all add: piece_lines_def)

text \<open>\<open>cuts c c' e ps\<close>: from \<open>c\<close> to \<open>c'\<close> exactly the pieces \<open>ps\<close> of \<open>e\<close> are printed.\<close>

definition cuts :: "control \<Rightarrow> control \<Rightarrow> extent \<Rightarrow> piece list \<Rightarrow> bool" where
  "cuts c c' e ps \<longleftrightarrow> (\<exists>ls n. seg_frame c ls c' \<and>
     piece_lines ls = map (\<lambda>p. (p, e_file e, ext_nr e + 1, n)) ps \<and>
     (ps \<noteq> [] \<longrightarrow> get_file_extent_count (e_file e) c = Inr n))"

lemma cuts_frame: "seg_frame c ls c' \<Longrightarrow> piece_lines ls = [] \<Longrightarrow> cuts c c' e []"
  by (auto simp: cuts_def)

lemma cuts_trans:
  assumes "cuts a b e ps" "cuts b c e qs"
  shows "cuts a c e (ps @ qs)"
proof -
  from assms obtain l1 n1 l2 n2 where s: "seg_frame a l1 b" "seg_frame b l2 c"
    "piece_lines l1 = map (\<lambda>p. (p, e_file e, ext_nr e + 1, n1)) ps" "ps \<noteq> [] \<longrightarrow> get_file_extent_count (e_file e) a = Inr n1"
    "piece_lines l2 = map (\<lambda>p. (p, e_file e, ext_nr e + 1, n2)) qs" "qs \<noteq> [] \<longrightarrow> get_file_extent_count (e_file e) b = Inr n2"
    by (auto simp: cuts_def)
  have "get_file_extent_count (e_file e) b = get_file_extent_count (e_file e) a"
    by (rule seg_frame_count [OF s(1)])
  with s have "piece_lines (l1 @ l2) = map (\<lambda>p. (p, e_file e, ext_nr e + 1, if ps = [] then n2 else n1)) (ps @ qs)
      \<and> (ps @ qs \<noteq> [] \<longrightarrow> get_file_extent_count (e_file e) a = Inr (if ps = [] then n2 else n1))"
    by (cases "ps = []"; cases "qs = []") auto
  with seg_frame_trans [OF s(1,2)] show ?thesis unfolding cuts_def by blast
qed

lemma cuts_env: "cuts c c' e ps \<Longrightarrow> \<exists>ls. seg_frame c ls c'"
  by (auto simp: cuts_def)

lemma cuts_piece:
  "rep_piece a b s e c = Inr c' \<Longrightarrow> \<not> show_only_stats c \<Longrightarrow> cuts c c' e [(a, b, s)]"
  using seg_frame_msg by (fastforce simp: rep_piece_def cuts_def bind_res_Inr_iff)

section \<open>The line of a segment\<close>

text \<open>Steps that do not run out of fuel.\<close>

definition no_fuel :: "'a res \<Rightarrow> bool" where
  "no_fuel r \<longleftrightarrow> r \<noteq> Inl OutOfFuel"

lemma no_fuel_simps [simp]:
  "no_fuel (Inr x)" "no_fuel (Inl e) \<longleftrightarrow> e \<noteq> OutOfFuel"
  by (simp_all add: no_fuel_def)

lemma no_fuel_bind: "no_fuel r \<Longrightarrow> (\<And>x. r = Inr x \<Longrightarrow> no_fuel (f x)) \<Longrightarrow> no_fuel (bind_res r f)"
  by (cases r) (simp_all add: no_fuel_def)

text \<open>
  \<open>ctrl.fs_info_show\<close> is a function pointer that the file system sets. The report relies on three
  things: a segment whose information is there is shown, what is shown is no line of a piece,
  and showing it returns.
\<close>

locale segment_show =
  fixes show_seg :: "segment_info option \<Rightarrow> bool \<Rightarrow> u32 \<Rightarrow> out list res"
  assumes shows_info: "\<exists>ls. show_seg (Some i) q sh = Inr ls"
    and shows_no_piece: "show_seg fi q sh = Inr ls \<Longrightarrow> piece_lines ls = []"
    and show_returns: "no_fuel (show_seg fi q sh)"
begin

lemma cuts_info:
  assumes "show_segment_info e sid c = Inr c'" "fs_info_show c = Some show_seg"
  shows "cuts c c' e []"
proof (cases "cur_segment c = sid")
  case True
  with assms(1) have "c' = c" by (simp add: show_segment_info_def)
  then show ?thesis using cuts_frame [OF seg_frame_refl] by simp
next
  case False
  let ?l = "SegmentLine sid (push_bit (ssh c) sid) (push_bit (ssh c) sid + f2fs_segment_sectors c) (f2fs_segment_sectors c)"
  let ?c = "rep (show_only_stats c) ?l c"
  from False assms obtain ls where l: "show_seg (fs_info e) (show_only_stats ?c) (sector_shift ?c) = Inr ls"
    "c' = fold msg ls ?c\<lparr>cur_segment := sid\<rparr>"
    by (auto simp: show_segment_info_def Let_def bind_res_Inr_iff)
  have "\<exists>l1. seg_frame c l1 ?c \<and> piece_lines l1 = []"
    using seg_frame_msg [of c ?l] seg_frame_refl [of c] by (cases "show_only_stats c") (auto simp: rep_def intro: exI [of _ "[?l]"])
  then obtain l1 where l1: "seg_frame c l1 ?c" "piece_lines l1 = []" by blast
  show ?thesis
    using seg_frame_trans [OF seg_frame_trans [OF l1(1) seg_frame_fold] seg_frame_cur [of _ sid]] l1(2) shows_no_piece [OF l(1)]
    by (intro cuts_frame [where ls = "l1 @ ls"]) (simp_all add: l(2))
qed

lemma no_fuel_show_info: "fs_info_show c = Some show_seg \<Longrightarrow> no_fuel (show_segment_info e sid c)"
  by (auto simp: show_segment_info_def Let_def intro!: no_fuel_bind show_returns)

lemma info_shown:
  assumes "fs_info_show c = Some show_seg" "fs_info e \<noteq> None"
  shows "\<exists>c'. show_segment_info e sid c = Inr c'"
proof -
  obtain i where i: "fs_info e = Some i" using assms(2) by blast
  obtain ls where "show_seg (Some i) (show_only_stats c) (sector_shift c) = Inr ls" using shows_info by blast
  then show ?thesis by (simp add: show_segment_info_def Let_def assms(1) i)
qed

end

interpretation f2fs: segment_show f2fs_show_segment
  by unfold_locales (auto simp: f2fs_show_segment_def split: option.splits if_splits)

lemmas cuts_segment_info = f2fs.cuts_info

lemmas no_fuel_info = f2fs.no_fuel_show_info

lemma cuts_zone_info: "print_zone_info k z c = Inr c' \<Longrightarrow> cuts c c' e []"
proof -
  assume a: "print_zone_info k z c = Inr c'"
  then obtain r where r: "report_zone k z c = Inr r" by (auto simp: print_zone_info_def bind_res_Inr_iff)
  show ?thesis
  proof (cases r)
    case None
    with a r show ?thesis using cuts_frame [OF seg_frame_refl] by (simp add: print_zone_info_def)
  next
    case (Some b)
    with a r show ?thesis
      using cuts_frame [OF seg_frame_msg] by (force simp: print_zone_info_def)
  qed
qed

section \<open>The pieces of an extent\<close>

definition beginning_piece :: "control \<Rightarrow> extent \<Rightarrow> piece" where
  "beginning_piece c e =
     (let en = (phy_blk e AND f2fs_segment_mask c) + f2fs_segment_sectors c
      in (phy_blk e, en, en - phy_blk e))"

definition middle_piece :: "control \<Rightarrow> extent \<Rightarrow> u64 \<Rightarrow> piece" where
  "middle_piece c e sid =
     (let eid = segment_id_of c (phy_blk e + e_len e); n = eid - sid in
      if n = 1 then (sid, push_bit (ssh c) eid, f2fs_segment_sectors c)
      else (push_bit (ssh c) sid, push_bit (ssh c) eid, n * f2fs_segment_sectors c))"

definition remainder_piece :: "control \<Rightarrow> extent \<Rightarrow> piece" where
  "remainder_piece c e =
     (let st = push_bit (ssh c) (segment_id_of c (phy_blk e + e_len e)); r = phy_blk e + e_len e - st
      in (st, st + r, r))"

definition is_single :: "control \<Rightarrow> extent \<Rightarrow> bool" where
  "is_single c e \<longleftrightarrow> phy_blk e AND f2fs_segment_mask c = (phy_blk e + e_len e) AND f2fs_segment_mask c \<or>
     phy_blk e + e_len e = (phy_blk e AND f2fs_segment_mask c) + drop_bit (unat (sector_shift c)) F2FS_SEGMENT_BYTES"

definition starts_inside :: "control \<Rightarrow> extent \<Rightarrow> bool" where
  "starts_inside c e \<longleftrightarrow> phy_blk e \<noteq> phy_blk e AND f2fs_segment_mask c"

definition has_middle :: "control \<Rightarrow> extent \<Rightarrow> bool" where
  "has_middle c e \<longleftrightarrow> drop_bit (ssh c) (((phy_blk e + e_len e) AND f2fs_segment_mask c)
     - (phy_blk e AND f2fs_segment_mask c)) > 1"

definition has_remainder :: "control \<Rightarrow> extent \<Rightarrow> bool" where
  "has_remainder c e \<longleftrightarrow> (phy_blk e + e_len e) AND f2fs_segment_mask c \<noteq> phy_blk e + e_len e"

definition pieces :: "control \<Rightarrow> extent \<Rightarrow> piece list" where
  "pieces c e =
     (if is_single c e then [(phy_blk e, phy_blk e + e_len e, e_len e)]
      else (if starts_inside c e then [beginning_piece c e] else [])
         @ (if has_middle c e
            then [middle_piece c e (segment_id_of c (phy_blk e) + (if starts_inside c e then 1 else 0))] else [])
         @ (if has_remainder c e then [remainder_piece c e] else []))"

lemmas piece_defs = beginning_piece_def middle_piece_def remainder_piece_def is_single_def
  starts_inside_def has_middle_def has_remainder_def segment_id_of_def

definition reporting :: "control \<Rightarrow> bool" where
  "reporting c \<longleftrightarrow> \<not> show_only_stats c \<and> fs_info_show c = Some f2fs_show_segment"

lemma reporting_frame: "seg_frame c ls c' \<Longrightarrow> reporting c' = reporting c"
  by (drule seg_frame_fields) (simp add: reporting_def)

lemma piece_frame:
  assumes "seg_frame c ls c'"
  shows "beginning_piece c' e = beginning_piece c e" "middle_piece c' e sid = middle_piece c e sid"
    "remainder_piece c' e = remainder_piece c e" "is_single c' e = is_single c e"
    "starts_inside c' e = starts_inside c e" "has_middle c' e = has_middle c e"
    "has_remainder c' e = has_remainder c e" "segment_id_of c' b = segment_id_of c b"
  using seg_frame_fields [OF assms] by (simp_all add: piece_defs Let_def)

lemma cuts_beginning_segment:
  "show_beginning_segment e c = Inr c' \<Longrightarrow> reporting c \<Longrightarrow> cuts c c' e [beginning_piece c e]"
  by (simp add: show_beginning_segment_def Let_def beginning_piece_def reporting_def cuts_piece)

lemma cuts_seq:
  assumes "cuts a b e ps" "reporting a" "reporting b \<Longrightarrow> cuts b c e qs"
  shows "cuts a c e (ps @ qs)"
proof -
  obtain ls where "seg_frame a ls b" using cuts_env [OF assms(1)] by blast
  with assms(2) have "reporting b" by (simp add: reporting_frame)
  then show ?thesis using assms(1,3) by (intro cuts_trans)
qed

lemma cuts_info_piece:
  assumes "bind_res (show_segment_info e sid c) (rep_piece a b s e) = Inr c'" "reporting c"
  shows "cuts c c' e [(a, b, s)]"
proof -
  from assms(1) obtain c1 where i: "show_segment_info e sid c = Inr c1" "rep_piece a b s e c1 = Inr c'"
    by (auto simp: bind_res_Inr_iff)
  have c1: "cuts c c1 e []" using cuts_segment_info [OF i(1)] assms(2) by (simp add: reporting_def)
  have "reporting c1 \<Longrightarrow> cuts c1 c' e [(a, b, s)]" using cuts_piece [OF i(2)] by (simp add: reporting_def)
  from cuts_seq [OF c1 assms(2) this] show ?thesis by simp
qed

lemma cuts_remainder_segment:
  "show_remainder_segment e c = Inr c' \<Longrightarrow> reporting c \<Longrightarrow> cuts c c' e [remainder_piece c e]"
  by (simp add: show_remainder_segment_def Let_def remainder_piece_def segment_id_of_def cuts_info_piece)

lemma cuts_consecutive_segments:
  assumes "show_consecutive_segments e sid (sm, c) = Inr (sm', c')" "reporting c"
  shows "cuts c c' e [middle_piece c e sid]"
proof -
  let ?eid = "segment_id_of c (phy_blk e + e_len e)"
  let ?l = "SegmentRange sid (?eid - 1) (push_bit (ssh c) sid) (push_bit (ssh c) ?eid) ((?eid - sid) * f2fs_segment_sectors c)"
  have rep: "rep (show_only_stats c) ?l c = msg ?l c" using assms(2) by (simp add: reporting_def rep_def)
  note a = assms(1) [unfolded show_consecutive_segments_def prod.case Let_def, folded segment_id_of_def, unfolded rep]
  have m: "cuts c (msg ?l c) e []" by (rule cuts_frame [OF seg_frame_msg]) simp
  show ?thesis
  proof (cases "?eid - sid = 1")
    case True
    with a have "bind_res (show_segment_info e sid c)
        (rep_piece sid (push_bit (ssh c) ?eid) (f2fs_segment_sectors c) e) = Inr c'"
      by (auto simp: bind_res_Inr_iff)
    from cuts_info_piece [OF this assms(2)] True show ?thesis by (simp add: middle_piece_def)
  next
    case False
    with a have "bind_res (show_segment_info e sid (msg ?l c))
        (rep_piece (push_bit (ssh c) sid) (push_bit (ssh c) ?eid) ((?eid - sid) * f2fs_segment_sectors c) e) = Inr c'"
      by (auto simp: bind_res_Inr_iff)
    then have "reporting (msg ?l c) \<Longrightarrow> cuts (msg ?l c) c' e [middle_piece c e sid]"
      using False by (simp add: cuts_info_piece middle_piece_def Let_def)
    from cuts_seq [OF m assms(2) this] show ?thesis by simp
  qed
qed

lemma cuts_single:
  assumes "show_single e sid (sm, c) = Inr (sm', c')" "reporting c"
  shows "cuts c c' e [(phy_blk e, phy_blk e + e_len e, e_len e)]"
proof -
  let ?p = "(phy_blk e, phy_blk e + e_len e, e_len e)"
  have piece: "cuts c1 c' e [?p]" if "rep_piece (phy_blk e) (phy_blk e + e_len e) (e_len e) e c1 = Inr c'" "reporting c1" for c1
    using cuts_piece [OF that(1)] that(2) by (simp add: reporting_def)
  show ?thesis
  proof (cases "sid = cur_segment c")
    case True
    with assms(1) have "rep_piece (phy_blk e) (phy_blk e + e_len e) (e_len e) e c = Inr c'"
      by (auto simp: show_single_def bind_res_Inr_iff)
    then show ?thesis using assms(2) by (rule piece)
  next
    case False
    with assms(1) obtain c1 where c1: "show_segment_info e sid c = Inr c1"
      "rep_piece (phy_blk e) (phy_blk e + e_len e) (e_len e) e (c1\<lparr>cur_segment := sid\<rparr>) = Inr c'"
      by (auto simp: show_single_def bind_res_Inr_iff Let_def)
    have "cuts c c1 e []" using cuts_segment_info [OF c1(1)] assms(2) by (simp add: reporting_def)
    moreover have "cuts c1 (c1\<lparr>cur_segment := sid\<rparr>) e []" by (rule cuts_frame [OF seg_frame_cur]) simp
    ultimately have "cuts c (c1\<lparr>cur_segment := sid\<rparr>) e []" using cuts_trans by fastforce
    from cuts_seq [OF this assms(2) piece [OF c1(2)]] show ?thesis by simp
  qed
qed

lemma cuts_beginning:
  assumes "show_beginning e sid (sm, c) = Inr (sid', sm', c')" "reporting c"
  shows "cuts c c' e (if starts_inside c e then [beginning_piece c e] else [])"
    "sid' = sid + (if starts_inside c e then 1 else 0)"
proof -
  have "cuts c c' e (if starts_inside c e then [beginning_piece c e] else []) \<and>
    sid' = sid + (if starts_inside c e then 1 else 0)"
  proof (cases "starts_inside c e")
    case False
    then show ?thesis using assms(1) cuts_frame [OF seg_frame_refl, of c e]
      by (simp add: show_beginning_def starts_inside_def)
  next
    case True
    with assms(1) obtain c1 where c1: "show_beginning_segment e c1 = Inr c'" "sid' = sid + 1"
      "(if sid \<noteq> cur_segment c
        then show_segment_info e (drop_bit (ssh c) (phy_blk e AND f2fs_segment_mask c)) c else Inr c) = Inr c1"
      by (auto simp: show_beginning_def starts_inside_def bind_res_Inr_iff simp del: drop_bit_and)
    have "cuts c c1 e []"
      using c1(3) cuts_segment_info [of e _ c c1] assms(2) cuts_frame [OF seg_frame_refl, of c e]
      by (auto simp: reporting_def split: if_splits)
    moreover from this obtain ls where ls: "seg_frame c ls c1" using cuts_env by blast
    moreover have "reporting c1 \<Longrightarrow> cuts c1 c' e [beginning_piece c e]"
      using cuts_beginning_segment [OF c1(1)] by (simp add: piece_frame [OF ls])
    ultimately show ?thesis using cuts_seq [of c c1 e "[]" c'] assms(2) True c1(2) by fastforce
  qed
  then show "cuts c c' e (if starts_inside c e then [beginning_piece c e] else [])"
    "sid' = sid + (if starts_inside c e then 1 else 0)" by simp_all
qed

lemma cuts_multiple:
  assumes "show_multiple e sid (sm, c) = Inr (sm', c')" "reporting c"
  shows "cuts c c' e ((if starts_inside c e then [beginning_piece c e] else [])
    @ (if has_middle c e then [middle_piece c e (sid + (if starts_inside c e then 1 else 0))] else [])
    @ (if has_remainder c e then [remainder_piece c e] else []))"
proof -
  from assms(1) obtain sid1 sm1 c1 where b: "show_beginning e sid (sm, c) = Inr (sid1, sm1, c1)"
    by (auto simp: show_multiple_def bind_res_Inr_iff)
  note cb = cuts_beginning [OF b assms(2)]
  obtain l1 where l1: "seg_frame c l1 c1" using cuts_env [OF cb(1)] by blast
  have r1: "reporting c1" using reporting_frame [OF l1] assms(2) by simp
  from assms(1) b obtain sm2 c2 where m:
    "(if has_middle c1 e then show_consecutive_segments e sid1 (sm1, c1) else Inr (sm1, c1)) = Inr (sm2, c2)"
    and rem: "(if has_remainder c1 e then bind_res (show_remainder_segment e c2) (\<lambda>c.
          bind_res (set_segment_counters c 1 e sm2) (\<lambda>sm. Inr (sm, c))) else Inr (sm2, c2)) = Inr (sm', c')"
    by (auto simp: show_multiple_def bind_res_Inr_iff Let_def has_middle_def has_remainder_def)
  have cm: "cuts c1 c2 e (if has_middle c e then [middle_piece c e sid1] else [])"
    using m cuts_consecutive_segments [of e sid1 sm1 c1 sm2 c2] r1 cuts_frame [OF seg_frame_refl, of c1 e]
    by (auto simp: piece_frame [OF l1] split: if_splits)
  obtain l2 where l2: "seg_frame c1 l2 c2" using cuts_env [OF cm] by blast
  have cr: "reporting c2 \<Longrightarrow> cuts c2 c' e (if has_remainder c e then [remainder_piece c e] else [])"
    using rem cuts_remainder_segment [of e c2 c'] cuts_frame [OF seg_frame_refl, of c2 e]
    by (auto simp: piece_frame [OF l1] piece_frame [OF l2] bind_res_Inr_iff split: if_splits)
  from cuts_seq [OF cm r1 cr] have "cuts c1 c' e ((if has_middle c e then [middle_piece c e sid1] else [])
      @ (if has_remainder c e then [remainder_piece c e] else []))" .
  from cuts_seq [OF cb(1) assms(2) this] show ?thesis by (simp only: cb(2))
qed

lemma report_extent_cuts:
  assumes "report_extent k e (z, sm, c) = Inr (z', sm', c')" "reporting c"
  shows "cuts c c' e (pieces c e)" "z' = e_zone e"
proof -
  note a = assms(1) [unfolded report_extent_def prod.case bind_res_Inr_iff Let_def]
  obtain c1 c2 where z: "enter_zone k e z c = Inr c1"
    and i: "increase_file_segment_counter (e_file e) (ucast (segment_id_of c1 (phy_blk e + e_len e)
        - drop_bit (ssh c1) (phy_blk e AND f2fs_segment_mask c1) + 1))
      (ucast (segment_id_of c1 (phy_blk e))) (fs_info e) (zone_cap e) c1 = Inr c2"
    and r: "(if phy_blk e AND f2fs_segment_mask c1 = phy_blk e + e_len e AND f2fs_segment_mask c2
        \<or> phy_blk e + e_len e = (phy_blk e AND f2fs_segment_mask c1) + drop_bit (unat (sector_shift c2)) F2FS_SEGMENT_BYTES
      then show_single e (segment_id_of c1 (phy_blk e)) (sm, c2)
      else show_multiple e (segment_id_of c1 (phy_blk e)) (sm, c2)) = Inr (sm', c')" "z' = e_zone e"
    using a by (elim exE conjE) (rule that, assumption, assumption, simp_all only: sum.inject prod.inject)
  have cz: "cuts c c1 e []"
    using z cuts_zone_info [of k "e_zone e" c c1 e] cuts_frame [OF seg_frame_refl, of c e]
    by (auto simp: enter_zone_def split: if_splits)
  obtain l1 where l1: "seg_frame c l1 c1" using cuts_env [OF cz] by blast
  have rest: "(if is_single c1 e then show_single e (segment_id_of c1 (phy_blk e)) (sm, c2)
      else show_multiple e (segment_id_of c1 (phy_blk e)) (sm, c2)) = Inr (sm', c')" "z' = e_zone e"
    using r seg_frame_fields [OF increase_file_segment_counter_frame [OF i]] by (simp_all add: is_single_def)
  show "z' = e_zone e" by (rule rest(2))
  have ci: "cuts c1 c2 e []"
    by (rule cuts_frame [OF increase_file_segment_counter_frame [OF i]]) simp
  obtain l2 where l2: "seg_frame c1 l2 c2" using cuts_env [OF ci] by blast
  have c2: "cuts c c2 e []" using cuts_trans [OF cz ci] by simp
  note pf = piece_frame [OF l1] piece_frame [OF l2]
  have "reporting c2 \<Longrightarrow> cuts c2 c' e (pieces c e)"
    using rest(1) cuts_single [of e _ sm c2 sm' c'] cuts_multiple [of e _ sm c2 sm' c']
    by (auto simp: pieces_def pf split: if_splits)
  from cuts_seq [OF c2 assms(2) this] show "cuts c c' e (pieces c e)" by simp
qed

section \<open>How the pieces cover an extent\<close>

text \<open>Blocks per segment.\<close>

definition seg_blocks :: "control \<Rightarrow> nat" where
  "seg_blocks c = 2 ^ ssh c"

lemma geometry_facts:
  assumes "has_geometry c"
  shows "unat (x AND f2fs_segment_mask c) = unat x div seg_blocks c * seg_blocks c"
    "unat (segment_id_of c x) = unat x div seg_blocks c"
    "push_bit (ssh c) (segment_id_of c x) = x AND f2fs_segment_mask c"
    "unat (f2fs_segment_sectors c) = seg_blocks c"
    "drop_bit (unat (sector_shift c)) F2FS_SEGMENT_BYTES = f2fs_segment_sectors c"
    "1 < seg_blocks c"
proof -
  have m: "f2fs_segment_mask c = f2fs_segment_mask (set_geometry c)" "segment_shift c = segment_shift (set_geometry c)"
    "f2fs_segment_sectors c = f2fs_segment_sectors (set_geometry c)" "sector_shift c = sector_shift (set_geometry c)"
    using assms by (simp_all add: has_geometry_def)
  show "unat (x AND f2fs_segment_mask c) = unat x div seg_blocks c * seg_blocks c"
    unfolding seg_blocks_def m by (rule seg.unat_align)
  show "unat (segment_id_of c x) = unat x div seg_blocks c"
    unfolding seg_blocks_def segment_id_of_def m by (rule seg.unat_unit)
  show "push_bit (ssh c) (segment_id_of c x) = x AND f2fs_segment_mask c"
    unfolding segment_id_of_def m by (rule seg.unit_start)
  show "unat (f2fs_segment_sectors c) = seg_blocks c"
    unfolding seg_blocks_def m by (rule seg.unat_usize)
  show "drop_bit (unat (sector_shift c)) F2FS_SEGMENT_BYTES = f2fs_segment_sectors c"
    unfolding m by (simp add: set_geometry_def Let_def)
  show "1 < seg_blocks c"
    unfolding seg_blocks_def m by (simp add: set_geometry_def Let_def)
qed

fun chain :: "nat \<Rightarrow> piece list \<Rightarrow> nat \<Rightarrow> bool" where
  "chain x [] y \<longleftrightarrow> x = y"
| "chain x ((a, b, n) # ps) y \<longleftrightarrow>
     unat a = x \<and> x \<le> unat b \<and> unat n = unat b - unat a \<and> chain (unat b) ps y"

text \<open>The first and the last segment an extent touches the border of, and where it ends.\<close>

definition first_seg :: "control \<Rightarrow> extent \<Rightarrow> nat" where
  "first_seg c e = unat (phy_blk e) div seg_blocks c"

definition ext_end :: "extent \<Rightarrow> nat" where
  "ext_end e = unat (phy_blk e) + unat (e_len e)"

definition end_seg :: "control \<Rightarrow> extent \<Rightarrow> nat" where
  "end_seg c e = ext_end e div seg_blocks c"

lemma cut_tests:
  assumes "has_geometry c" "ext_end e < 2 ^ 64"
  shows "unat (phy_blk e + e_len e) = ext_end e"
    "starts_inside c e \<longleftrightarrow> unat (phy_blk e) mod seg_blocks c \<noteq> 0"
    "has_remainder c e \<longleftrightarrow> ext_end e mod seg_blocks c \<noteq> 0"
    "has_middle c e \<longleftrightarrow> first_seg c e + 1 < end_seg c e"
    "is_single c e \<longleftrightarrow> first_seg c e = end_seg c e \<or> ext_end e = (first_seg c e + 1) * seg_blocks c"
    "first_seg c e \<le> end_seg c e"
proof -
  note g = geometry_facts [OF assms(1)]
  let ?N = "seg_blocks c"
  show en: "unat (phy_blk e + e_len e) = ext_end e"
    using assms(2) unat_add_nowrap [of "phy_blk e" "e_len e"] by (simp add: ext_end_def)
  have d: "n = n div ?N * ?N \<longleftrightarrow> n mod ?N = 0" for n
    by (metis add.right_neutral add_left_cancel div_mult_mod_eq)
  have w: "x = y \<longleftrightarrow> unat x = unat y" for x y :: u64 by (simp add: word_unat_eq_iff)
  show "starts_inside c e \<longleftrightarrow> unat (phy_blk e) mod ?N \<noteq> 0"
    unfolding starts_inside_def w g(1) by (rule arg_cong [of _ _ Not, OF d])
  have "(phy_blk e + e_len e) AND f2fs_segment_mask c = phy_blk e + e_len e \<longleftrightarrow> ext_end e mod ?N = 0"
    unfolding w g(1) en using d [of "ext_end e"] by metis
  then show "has_remainder c e \<longleftrightarrow> ext_end e mod ?N \<noteq> 0" by (simp add: has_remainder_def)
  show le: "first_seg c e \<le> end_seg c e"
    by (simp add: first_seg_def end_seg_def ext_end_def div_le_mono)
  let ?d = "((phy_blk e + e_len e) AND f2fs_segment_mask c) - (phy_blk e AND f2fs_segment_mask c)"
  have "unat (phy_blk e AND f2fs_segment_mask c) \<le> unat ((phy_blk e + e_len e) AND f2fs_segment_mask c)"
    using le by (simp add: g(1) en first_seg_def end_seg_def)
  then have "unat ?d = end_seg c e * ?N - first_seg c e * ?N"
    by (simp add: unat_sub_nowrap g(1) en first_seg_def end_seg_def)
  then have "unat ?d = (end_seg c e - first_seg c e) * ?N" by (simp add: diff_mult_distrib)
  moreover have "unat (drop_bit (ssh c) ?d) = unat ?d div ?N" by (simp only: unat_drop_bit_div seg_blocks_def)
  ultimately have dd: "unat (drop_bit (ssh c) ?d) = end_seg c e - first_seg c e" using g(6) by simp
  have "1 < drop_bit (ssh c) ?d \<longleftrightarrow> 1 < unat (drop_bit (ssh c) ?d)"
    by (simp only: word_less_nat_alt unat_1)
  then show "has_middle c e \<longleftrightarrow> first_seg c e + 1 < end_seg c e"
    unfolding has_middle_def dd by linarith
  have s1: "phy_blk e AND f2fs_segment_mask c = (phy_blk e + e_len e) AND f2fs_segment_mask c \<longleftrightarrow> first_seg c e = end_seg c e"
    using g(6) unfolding w g(1) en first_seg_def end_seg_def by (simp only: mult_cancel2) simp
  have s2: "phy_blk e + e_len e = (phy_blk e AND f2fs_segment_mask c) + f2fs_segment_sectors c \<longleftrightarrow>
      ext_end e = (first_seg c e + 1) * ?N" if "first_seg c e < end_seg c e"
  proof -
    have "(first_seg c e + 1) * ?N \<le> end_seg c e * ?N" using that by (intro mult_le_mono1) simp
    also have "\<dots> \<le> ext_end e" by (simp add: end_seg_def)
    finally have "unat (phy_blk e AND f2fs_segment_mask c) + unat (f2fs_segment_sectors c) < 2 ^ 64"
      using assms(2) by (simp add: g(1,4) first_seg_def)
    then have "unat ((phy_blk e AND f2fs_segment_mask c) + f2fs_segment_sectors c) = (first_seg c e + 1) * ?N"
      using unat_add_nowrap [of "phy_blk e AND f2fs_segment_mask c" "f2fs_segment_sectors c"]
      by (simp add: g(1,4) first_seg_def)
    then show ?thesis by (simp only: w en)
  qed
  show "is_single c e \<longleftrightarrow> first_seg c e = end_seg c e \<or> ext_end e = (first_seg c e + 1) * ?N"
    unfolding is_single_def g(5) s1 using s2 le by (cases "first_seg c e = end_seg c e") auto
qed

text \<open>
  The two shapes of extents whose pieces do not add up: an extent that begins at a segment border
  and ends inside the next segment, whose first segment the test in \<open>has_middle\<close> skips, and an extent
  that begins inside a segment and has one full segment in the middle, for which the middle piece
  is printed with the number of its segment as its address.
\<close>

definition bad_cut :: "control \<Rightarrow> extent \<Rightarrow> bool" where
  "bad_cut c e \<longleftrightarrow>
     (if unat (phy_blk e) mod seg_blocks c = 0
      then end_seg c e = first_seg c e + 1 \<and> ext_end e \<noteq> (first_seg c e + 1) * seg_blocks c
      else end_seg c e = first_seg c e + 2)"

lemma chain_append:
  "chain x (ps @ qs) y \<longleftrightarrow> (\<exists>z. chain x ps z \<and> chain z qs y)"
  by (induction x ps y rule: chain.induct) auto

definition multi_cut :: "control \<Rightarrow> extent \<Rightarrow> bool" where
  "multi_cut c e \<longleftrightarrow> has_geometry c \<and> ext_end e < 2 ^ 64 \<and> \<not> is_single c e"

lemma multi_cutD:
  "multi_cut c e \<Longrightarrow> has_geometry c" "multi_cut c e \<Longrightarrow> ext_end e < 2 ^ 64"
  "multi_cut c e \<Longrightarrow> \<not> is_single c e"
  by (simp_all add: multi_cut_def)

lemma multi_bounds:
  assumes m: "multi_cut c e"
  shows "first_seg c e < end_seg c e" "ext_end e \<noteq> (first_seg c e + 1) * seg_blocks c"
  "end_seg c e * seg_blocks c \<le> ext_end e"
  using multi_cutD [OF m] cut_tests [of c e] by (auto simp: end_seg_def)

lemma unit_less: "multi_cut c e \<Longrightarrow> n \<le> end_seg c e \<Longrightarrow> n * seg_blocks c < 2 ^ 64"
  using multi_bounds(3) [of c e] multi_cutD(2) [of c e] mult_le_mono1 [of n "end_seg c e" "seg_blocks c"] by linarith

lemma chain_beginning:
  assumes m: "multi_cut c e"
  shows "chain x [beginning_piece c e] y \<longleftrightarrow> x = unat (phy_blk e) \<and> y = (first_seg c e + 1) * seg_blocks c"
proof -
  note mb = multi_bounds [OF m]
  note g = geometry_facts [OF multi_cutD(1) [OF m]]
  have "(first_seg c e + 1) * seg_blocks c < 2 ^ 64" using mb(1) by (intro unit_less [OF m]) simp
  then have en: "unat ((phy_blk e AND f2fs_segment_mask c) + f2fs_segment_sectors c) = (first_seg c e + 1) * seg_blocks c"
    using unat_add_nowrap [of "phy_blk e AND f2fs_segment_mask c" "f2fs_segment_sectors c"]
    by (simp add: g(1,4) first_seg_def)
  moreover have "unat (phy_blk e) < (first_seg c e + 1) * seg_blocks c"
    using dividend_less_div_times [of "seg_blocks c" "unat (phy_blk e)"] g(6)
    by (simp add: first_seg_def algebra_simps)
  ultimately show ?thesis
    by (auto simp: beginning_piece_def Let_def unat_sub_nowrap)
qed

lemma chain_remainder:
  assumes m: "multi_cut c e"
  shows "chain x [remainder_piece c e] y \<longleftrightarrow> x = end_seg c e * seg_blocks c \<and> y = ext_end e"
proof -
  note mb = multi_bounds [OF m]
  note g = geometry_facts [OF multi_cutD(1) [OF m]] and t = cut_tests [OF multi_cutD(1,2) [OF m]]
  have "unat (push_bit (ssh c) (segment_id_of c (phy_blk e + e_len e))) = end_seg c e * seg_blocks c"
    by (simp only: g(3,1) t(1) end_seg_def)
  moreover have "x + (y - x) = y" for x y :: u64 by simp
  ultimately show ?thesis
    using mb(3) by (auto simp: remainder_piece_def Let_def t(1) unat_sub_nowrap)
qed

lemma chain_middle:
  assumes m: "multi_cut c e" and "unat sid = n" "n < end_seg c e"
  shows "chain x [middle_piece c e sid] y \<longleftrightarrow>
    (if end_seg c e = n + 1 then x = n \<and> unat (f2fs_segment_sectors c) = end_seg c e * seg_blocks c - n
     else x = n * seg_blocks c) \<and> y = end_seg c e * seg_blocks c"
proof -
  note mb = multi_bounds [OF m]
  note g = geometry_facts [OF multi_cutD(1) [OF m]] and t = cut_tests [OF multi_cutD(1,2) [OF m]]
  let ?eid = "segment_id_of c (phy_blk e + e_len e)"
  have eid: "unat ?eid = end_seg c e" by (simp only: g(2) t(1) end_seg_def)
  have p: "unat (push_bit (ssh c) ?eid) = end_seg c e * seg_blocks c"
    by (simp only: g(3,1) t(1) end_seg_def)
  have k: "unat (?eid - sid) = end_seg c e - n"
    using assms by (simp add: unat_sub_nowrap eid)
  have one: "?eid - sid = 1 \<longleftrightarrow> end_seg c e = n + 1"
    using k assms(3) by (simp add: word_unat_eq_iff) linarith
  have ps: "unat (push_bit (ssh c) sid) = n * seg_blocks c"
    using unit_less [OF m, of n] assms by (simp add: unat_push_bit_nowrap seg_blocks_def)
  have "(end_seg c e - n) * seg_blocks c < 2 ^ 64" by (rule unit_less [OF m]) simp
  then have sz: "unat ((?eid - sid) * f2fs_segment_sectors c) = end_seg c e * seg_blocks c - n * seg_blocks c"
    by (simp add: unat_mult_mod k g(4) diff_mult_distrib)
  have le: "n * seg_blocks c \<le> end_seg c e * seg_blocks c" "n \<le> end_seg c e * seg_blocks c"
    using assms(3) g(6) by (simp_all add: le_trans [OF less_imp_le [OF assms(3)]])
  show ?thesis
    using le by (cases "end_seg c e = n + 1")
      (auto simp: middle_piece_def Let_def one p ps sz assms(2))
qed

lemma chain_two: "chain x [p, q] y \<longleftrightarrow> (\<exists>z. chain x [p] z \<and> chain z [q] y)"
  using chain_append [of x "[p]" "[q]" y] by simp

lemma chain_three: "chain x [p, q, r] y \<longleftrightarrow> (\<exists>z w. chain x [p] z \<and> chain z [q] w \<and> chain w [r] y)"
  using chain_append [of x "[p]" "[q, r]" y] by (simp only: chain_two append.simps) blast

lemma chain_multi:
  assumes m: "multi_cut c e"
  shows "chain (unat (phy_blk e)) (pieces c e) (ext_end e) \<longleftrightarrow> \<not> bad_cut c e"
proof -
  note mb = multi_bounds [OF m]
  note g = geometry_facts [OF multi_cutD(1) [OF m]] and t = cut_tests [OF multi_cutD(1,2) [OF m]]
  let ?N = "seg_blocks c" and ?a = "first_seg c e" and ?b = "end_seg c e" and ?p = "unat (phy_blk e)"
  have sid0: "unat (segment_id_of c (phy_blk e)) = ?a" by (simp only: g(2) first_seg_def)
  have "?a + 1 \<le> (?a + 1) * ?N" using g(6) mult_le_mono2 [of 1 ?N "?a + 1"] by simp
  also have "\<dots> < 2 ^ 64" using mb(1) by (intro unit_less [OF m]) simp
  finally have sid1: "unat (segment_id_of c (phy_blk e) + 1) = ?a + 1"
    using unat_add_nowrap [of "segment_id_of c (phy_blk e)" 1] by (simp add: sid0)
  have e0: "?p mod ?N = 0 \<Longrightarrow> ?p = ?a * ?N"
    using div_mult_mod_eq [of ?p ?N] by (simp add: first_seg_def)
  have en: "ext_end e mod ?N = 0 \<longleftrightarrow> ext_end e = ?b * ?N"
    by (metis add.right_neutral add_left_cancel div_mult_mod_eq end_seg_def)
  have ne: "?a + 1 \<noteq> (?a + 1) * ?N" using g(6) mult_less_mono2 [of 1 ?N "?a + 1"] by simp
  note rules = pieces_def multi_cutD(3) [OF m] t(2-4)
  show ?thesis
  proof (cases "?p mod ?N = 0")
    case True
    then have st: "\<not> starts_inside c e" by (simp add: t(2))
    show ?thesis
    proof (cases "?b = ?a + 1")
      case b: True
      then have r: "has_remainder c e" "\<not> has_middle c e" using mb(2) en by (simp_all add: t)
      have "?p \<noteq> ?b * ?N" using e0 [OF True] b g(6) by simp
      then show ?thesis
        using True b mb(2) by (simp add: pieces_def multi_cutD(3) [OF m] st r chain_remainder [OF m] bad_cut_def)
    next
      case False
      then have mid: "has_middle c e" "?b \<noteq> ?a + 1" using mb(1) by (simp_all add: t)
      have "chain ?p [middle_piece c e (segment_id_of c (phy_blk e))] y \<longleftrightarrow> y = ?b * ?N" for y
        using chain_middle [OF m sid0 mb(1)] e0 [OF True] mid(2) by simp
      then show ?thesis
        using True mid en t(3)
        by (simp add: pieces_def multi_cutD(3) [OF m] st chain_two chain_remainder [OF m] bad_cut_def del: chain.simps(2))
    qed
  next
    case False
    then have st: "starts_inside c e" by (simp add: t(2))
    show ?thesis
    proof (cases "?b = ?a + 1")
      case True
      then have r: "has_remainder c e" "\<not> has_middle c e" using mb(2) en by (simp_all add: t)
      show ?thesis
        using False True
        by (simp add: pieces_def multi_cutD(3) [OF m] st r chain_two chain_beginning [OF m] chain_remainder [OF m] bad_cut_def
            del: chain.simps(2))
    next
      case b: False
      then have mid: "has_middle c e" and lt: "?a + 1 < ?b" using mb(1) by (simp_all add: t)
      have "chain ((?a + 1) * ?N) [middle_piece c e (segment_id_of c (phy_blk e) + 1)] y \<longleftrightarrow> ?b \<noteq> ?a + 2 \<and> y = ?b * ?N" for y
        using chain_middle [OF m sid1 lt] ne by auto
      then show ?thesis
        using False mid en t(3)
        by (simp add: pieces_def multi_cutD(3) [OF m] st chain_two chain_three chain_beginning [OF m] chain_remainder [OF m]
            bad_cut_def del: chain.simps(2))
    qed
  qed
qed

lemma chain_single:
  assumes "has_geometry c" "ext_end e < 2 ^ 64" "is_single c e"
  shows "chain (unat (phy_blk e)) (pieces c e) (ext_end e) \<and> \<not> bad_cut c e"
proof -
  note t = cut_tests [OF assms(1,2)] and g = geometry_facts [OF assms(1)]
  have "chain (unat (phy_blk e)) (pieces c e) (ext_end e)"
    using assms(3) t(1) by (simp add: pieces_def ext_end_def)
  moreover consider "first_seg c e = end_seg c e" | "ext_end e = (first_seg c e + 1) * seg_blocks c"
    using assms(3) unfolding t(5) by blast
  then have "\<not> bad_cut c e"
  proof cases
    case 1
    then show ?thesis by (simp add: bad_cut_def)
  next
    case 2
    then have "end_seg c e = first_seg c e + 1"
      using div_mult_self_is_m [of "seg_blocks c" "first_seg c e + 1"] g(6) by (simp only: end_seg_def)
    with 2 show ?thesis by (simp add: bad_cut_def)
  qed
  ultimately show ?thesis by simp
qed

lemma pieces_chain:
  assumes "has_geometry c" "ext_end e < 2 ^ 64"
  shows "chain (unat (phy_blk e)) (pieces c e) (ext_end e) \<longleftrightarrow> \<not> bad_cut c e"
  using chain_single [OF assms] chain_multi [of c e] assms by (cases "is_single c e") (auto simp: multi_cut_def)

section \<open>The lines of a zone\<close>

definition ext_total :: "control \<Rightarrow> string \<Rightarrow> u32" where
  "ext_total c f = (case get_file_extent_count f c of Inl _ \<Rightarrow> 0 | Inr n \<Rightarrow> n)"

definition lines_of :: "control \<Rightarrow> extent \<Rightarrow> (piece \<times> string \<times> u32 \<times> u32) list" where
  "lines_of c e = map (\<lambda>p. (p, e_file e, ext_nr e + 1, ext_total c (e_file e))) (pieces c e)"

definition start_blk :: "control \<Rightarrow> extent \<Rightarrow> u64" where
  "start_blk c e = push_bit (ssh c) (segment_id_of c (phy_blk e))"

lemma cuts_lines:
  "cuts c c' e (pieces c e) \<Longrightarrow> \<exists>ls. seg_frame c ls c' \<and> piece_lines ls = lines_of c e"
  by (fastforce simp: cuts_def lines_of_def ext_total_def)

lemma pieces_frame: "seg_frame c ls c' \<Longrightarrow> pieces c' e = pieces c e"
  by (simp add: pieces_def piece_frame)

lemma lines_frame: "seg_frame c ls c' \<Longrightarrow> lines_of c' e = lines_of c e"
  by (simp add: lines_of_def pieces_frame ext_total_def seg_frame_count)

lemma range_frame:
  "seg_frame c ls c' \<Longrightarrow> start_blk c' e = start_blk c e \<and> report_end_lba c' = report_end_lba c \<and>
     report_start_lba c' = report_start_lba c"
  using seg_frame_fields [of c ls c']
  by (simp add: start_blk_def segment_id_of_def report_end_lba_def report_start_lba_def)

lemma report_zone_extents_lines:
  "report_zone_extents fuel k es (z, sm, c) = Inr (z', sm', c') \<Longrightarrow> reporting c \<Longrightarrow>
   \<exists>ls. seg_frame c ls c' \<and>
     piece_lines ls = concat (map (lines_of c) (takeWhile (\<lambda>e. start_blk c e < report_end_lba c) es))"
proof (induction fuel k es "(z, sm, c)" arbitrary: z sm c rule: report_zone_extents.induct)
  case (1 fuel k)
  then show ?case using seg_frame_refl by fastforce
next
  case (2 k e es)
  then show ?case by simp
next
  case (3 fuel k e es z sm c)
  show ?case
  proof (cases "report_end_lba c \<le> start_blk c e")
    case True
    with "3.prems" show ?thesis
      using seg_frame_refl by (fastforce simp: start_blk_def Let_def not_less)
  next
    case False
    show ?thesis
    proof (cases "start_blk c e < report_start_lba c")
      case True
      with False "3.prems" "3.hyps"(1) show ?thesis by (simp add: start_blk_def Let_def)
    next
      case ok: False
      with False "3.prems" obtain z1 sm1 c1 where r: "report_extent k e (z, sm, c) = Inr (z1, sm1, c1)"
        "report_zone_extents fuel k es (z1, sm1, c1) = Inr (z', sm', c')"
        by (auto simp: start_blk_def Let_def bind_res_Inr_iff)
      obtain l1 where l1: "seg_frame c l1 c1" "piece_lines l1 = lines_of c e"
        using cuts_lines [OF report_extent_cuts(1) [OF r(1) "3.prems"(2)]] by blast
      have "reporting c1" using reporting_frame [OF l1(1)] "3.prems"(2) by simp
      with "3.hyps"(2) [of _ z1 sm1 c1] r False ok obtain l2 where l2: "seg_frame c1 l2 c'"
        "piece_lines l2 = concat (map (lines_of c1) (takeWhile (\<lambda>e. start_blk c1 e < report_end_lba c1) es))"
        by (fastforce simp: start_blk_def)
      have "piece_lines l2 = concat (map (lines_of c) (takeWhile (\<lambda>e. start_blk c e < report_end_lba c) es))"
      proof -
        have "lines_of c1 = lines_of c" "start_blk c1 = start_blk c" "report_end_lba c1 = report_end_lba c"
          using lines_frame [OF l1(1)] range_frame [OF l1(1)] by (simp_all add: fun_eq_iff)
        with l2(2) show ?thesis by simp
      qed
      with seg_frame_trans [OF l1(1) l2(1)] l1(2) False show ?thesis
        by (intro exI [of _ "l1 @ l2"]) (simp add: not_le)
    qed
  qed
qed

definition zone_pieces :: "control \<Rightarrow> zone \<Rightarrow> (piece \<times> string \<times> u32 \<times> u32) list" where
  "zone_pieces c z = concat (map (lines_of c) (takeWhile (\<lambda>e. start_blk c e < report_end_lba c) (extents z)))"

lemma zone_pieces_frame:
  assumes "seg_frame c ls c'"
  shows "zone_pieces c' = zone_pieces c"
proof -
  have "lines_of c' = lines_of c" "start_blk c' = start_blk c" "report_end_lba c' = report_end_lba c"
    using lines_frame [OF assms] range_frame [OF assms] by (simp_all add: fun_eq_iff)
  then show ?thesis by (intro ext) (simp add: zone_pieces_def)
qed

lemma report_all_zones_lines:
  "report_all_zones fuel k m is (z, sm, c) = Inr (z', sm', c') \<Longrightarrow> reporting c \<Longrightarrow>
   \<forall>i\<in>set is. zone_wf (zones m ! i) \<Longrightarrow>
   \<exists>ls. seg_frame c ls c' \<and> piece_lines ls = concat (map (\<lambda>i. zone_pieces c (zones m ! i)) is)"
proof (induction "is" arbitrary: z sm c)
  case Nil
  then show ?case using seg_frame_refl by fastforce
next
  case (Cons i "is")
  show ?case
  proof (cases "z_extent_ctr (zones m ! i) = 0")
    case True
    with Cons.prems(3) have "extents (zones m ! i) = []" by (simp add: zone_wf_def)
    with Cons True show ?thesis by (simp add: zone_pieces_def split: if_splits)
  next
    case False
    with Cons.prems(1) obtain z1 sm1 c1 where r: "report_zone_extents fuel k (extents (zones m ! i)) (z, sm, c) = Inr (z1, sm1, c1)"
      "report_all_zones fuel k m is (z1, sm1, c1) = Inr (z', sm', c')"
      by (auto simp: bind_res_Inr_iff split: if_splits)
    obtain l1 where l1: "seg_frame c l1 c1" "piece_lines l1 = zone_pieces c (zones m ! i)"
      using report_zone_extents_lines [OF r(1) Cons.prems(2)] by (auto simp: zone_pieces_def)
    have "reporting c1" using reporting_frame [OF l1(1)] Cons.prems(2) by simp
    with Cons.IH [OF r(2)] Cons.prems(3) obtain l2 where l2: "seg_frame c1 l2 c'"
      "piece_lines l2 = concat (map (\<lambda>i. zone_pieces c (zones m ! i)) is)"
      by (auto simp: zone_pieces_frame [OF l1(1)])
    with seg_frame_trans [OF l1(1) l2(1)] l1(2) show ?thesis by (intro exI [of _ "l1 @ l2"]) simp
  qed
qed

lemma fold_msg_stdout: "fold msg ls c = c\<lparr>stdout := stdout c @ ls\<rparr>"
  by (induction ls arbitrary: c) (simp_all add: msg_def)

lemma show_segment_stats_lines:
  assumes "show_segment_stats sm c = Inr c'"
  shows "\<exists>ls. stdout c' = stdout c @ ls \<and> piece_lines ls = []"
proof -
  define no :: "control \<Rightarrow> control \<Rightarrow> bool" where "no = (\<lambda>c c'. \<exists>ls. stdout c' = stdout c @ ls \<and> piece_lines ls = [])"
  have tr: "no a b \<Longrightarrow> no b d \<Longrightarrow> no a d" for a b d by (fastforce simp: no_def)
  have m: "piece_lines [l] = [] \<Longrightarrow> no c (msg l c)" for l c by (auto simp: no_def)
  have f1: "no c (fold msg ls c)" if "piece_lines ls = []" for ls c using that by (auto simp: no_def fold_msg_stdout)
  have "piece_lines (map file_stats_line fs) = []" for fs
    by (induction fs) (simp_all add: piece_lines_def file_stats_line_def)
  then have f: "no c (fold msg (map file_stats_line fs) c)" for fs c by (rule f1)
  let ?incl = "exclude_flags c AND FIEMAP_EXTENT_DATA_INLINE = 0"
  let ?c1 = "msg (Text ''SEGMENT STATS'') c"
  let ?c2 = "if ?incl then msg (Warn ''Segment Heat Classification statistics exclude inode inlined file data'' []) ?c1 else ?c1"
  let ?c3 = "if 0 < inlined_extent_ctr ?c2 \<and> ?incl
      then msg (Field ''FIEMAP_EXTENT_DATA_INLINE'' [N (unat (inlined_extent_ctr ?c2))]) ?c2 else ?c2"
  have r: "no x x" for x by (auto simp: no_def)
  have "no c ?c1" by (rule m) (simp add: piece_lines_def)
  moreover have "no ?c1 ?c2" using m [of _ ?c1] r by (auto simp: piece_lines_def)
  moreover have "no ?c2 ?c3" using m [of _ ?c2] r by (auto simp: piece_lines_def)
  ultimately have c3: "no c ?c3" using tr by blast
  have "c' = ?c3 \<or> (\<exists>fs. c' = fold msg (map file_stats_line fs) ?c3)"
    using assms unfolding show_segment_stats_def Let_def
    by (auto simp del: fold_simps split: if_splits option.splits)
  then show ?thesis using c3 tr [OF c3 f] unfolding no_def by blast
qed

lemma show_segment_report_lines:
  assumes "show_segment_report fuel k (sm, c) = Inr (sm', c')" "reporting c" "zonemap c = Some m"
    "zm_inv m"
  shows "\<exists>ls. stdout c' = stdout c @ ls \<and> piece_lines ls = concat (map (zone_pieces c) (zones m))"
proof -
  let ?c = "rep (show_only_stats c) (Text ''SEGMENT MAPPINGS'') c"
  let ?is = "[0..<unat (zm_nr_zones m)]"
  have nz: "unat (zm_nr_zones m) = length (zones m)" using assms(4) by (simp add: zm_inv_def)
  have c: "?c = msg (Text ''SEGMENT MAPPINGS'') c" using assms(2) by (simp add: reporting_def rep_def)
  have f: "seg_frame c [Text ''SEGMENT MAPPINGS''] ?c" unfolding c by (rule seg_frame_msg)
  have "zonemap ?c = Some m" using assms(3) by (simp add: c)
  with assms(1) obtain z sm0 sm1 c1 where r:
    "report_all_zones fuel k m ?is (0, sm0, ?c) = Inr (z, sm1, c1)" "show_segment_stats sm1 c1 = Inr c'"
    by (auto simp: show_segment_report_def Let_def bind_res_Inr_iff)
  have "reporting ?c" using reporting_frame [OF f] assms(2) by simp
  with report_all_zones_lines [OF r(1)] assms(4) obtain l1 where l1: "seg_frame ?c l1 c1"
    "piece_lines l1 = concat (map (\<lambda>i. zone_pieces ?c (zones m ! i)) ?is)"
    by (auto simp: zm_inv_def)
  have m: "map (\<lambda>i. zone_pieces ?c (zones m ! i)) ?is = map (zone_pieces c) (zones m)"
    by (rule nth_equalityI) (simp_all add: nz zone_pieces_frame [OF f])
  obtain l2 where l2: "stdout c' = stdout c1 @ l2" "piece_lines l2 = []"
    using show_segment_stats_lines [OF r(2)] by blast
  have "stdout c1 = stdout ?c @ l1" using seg_frame_fields [OF l1(1)] by simp
  with l2 l1(2) show ?thesis
    by (intro exI [of _ "Text ''SEGMENT MAPPINGS'' # l1 @ l2"])
      (simp add: m [unfolded c] c piece_lines_def [of "Text _ # _"] flip: piece_lines_def)
qed

lemma fold_msg_zonemap [simp]: "zonemap (fold msg ls c) = zonemap c"
  by (induction ls arbitrary: c) simp_all

lemma show_segment_stats_zonemap: "show_segment_stats sm c = Inr c' \<Longrightarrow> zonemap c' = zonemap c"
  by (auto simp: show_segment_stats_def Let_def split: if_splits option.splits)

lemma show_segment_report_zonemap:
  assumes "show_segment_report fuel k (sm, c) = Inr (sm', c')" "reporting c" "zonemap c = Some m" "zm_inv m"
  shows "zonemap c' = Some m"
proof -
  let ?c = "rep (show_only_stats c) (Text ''SEGMENT MAPPINGS'') c"
  let ?is = "[0..<unat (zm_nr_zones m)]"
  have zm: "zonemap ?c = Some m" using assms(3) by simp
  with assms(1) obtain z sm0 sm1 c1 where r:
    "report_all_zones fuel k m ?is (0, sm0, ?c) = Inr (z, sm1, c1)" "show_segment_stats sm1 c1 = Inr c'"
    by (auto simp: show_segment_report_def Let_def bind_res_Inr_iff)
  have "reporting ?c" using assms(2) by (simp add: reporting_def rep_def)
  moreover have "\<forall>i\<in>set ?is. zone_wf (zones m ! i)" using assms(4) by (auto simp: zm_inv_def)
  ultimately obtain l1 where "seg_frame ?c l1 c1" using report_all_zones_lines [OF r(1)] by blast
  with zm show_segment_stats_zonemap [OF r(2)] show ?thesis by (simp add: seg_frame_fields)
qed

text \<open>The total in \<open>EXTID i/n\<close> is the number of extents recorded for the file.\<close>

lemma ext_total_recorded:
  "file_counter_map c = Some fm \<Longrightarrow> files_inv fm m \<Longrightarrow> ext_total c f = of_nat (size (extents_of_file m f))"
  by (simp add: ext_total_def get_file_extent_count_table files_inv_def)

section \<open>When the loop returns\<close>

lemma no_fuel_count: "no_fuel (get_file_extent_count f c)"
  by (simp add: get_file_extent_count_def split: option.split)

lemma no_fuel_piece: "no_fuel (rep_piece a b s e c)"
  by (simp add: rep_piece_def no_fuel_bind no_fuel_count)

lemma no_fuel_info_piece:
  "fs_info_show c = Some f2fs_show_segment \<Longrightarrow> no_fuel (bind_res (show_segment_info e sid c) (rep_piece a b s e))"
  by (intro no_fuel_bind no_fuel_info no_fuel_piece)

lemma no_fuel_index: "no_fuel (get_file_stats_index f sm)"
  by (simp add: get_file_stats_index_def Let_def split: option.split)

lemma no_fuel_set: "no_fuel (set_segment_counters c n e sm)"
  by (auto simp: set_segment_counters_def Let_def intro!: no_fuel_bind no_fuel_index split: option.split)

lemma no_fuel_zone_number: "no_fuel (get_zone_number c l)"
  by (simp add: get_zone_number_def Let_def)

lemma no_fuel_zone_info: "no_fuel (print_zone_info k z c)"
  by (auto simp: print_zone_info_def report_zone_def Let_def intro!: no_fuel_bind split: option.split)

lemma no_fuel_bump_zones: "no_fuel (bump_zones c n cap z f)"
  by (simp add: bump_zones_def)

lemma no_fuel_increase: "no_fuel (increase_file_segment_counter f n cur fsi cap c)"
  by (simp add: increase_file_segment_counter_def Let_def no_fuel_bind no_fuel_zone_number no_fuel_bump_zones
      split: option.split)

lemma no_fuel_single: "reporting c \<Longrightarrow> no_fuel (show_single e sid (sm, c))"
  by (auto simp: show_single_def Let_def reporting_def
      intro!: no_fuel_bind no_fuel_info no_fuel_set no_fuel_piece split: if_splits)

lemma no_fuel_beginning: "reporting c \<Longrightarrow> no_fuel (show_beginning e sid (sm, c))"
  by (auto simp: show_beginning_def show_beginning_segment_def Let_def reporting_def
      intro!: no_fuel_bind no_fuel_info no_fuel_set no_fuel_piece split: if_splits)

lemma no_fuel_consecutive: "reporting c \<Longrightarrow> no_fuel (show_consecutive_segments e sid (sm, c))"
  unfolding show_consecutive_segments_def Let_def prod.case
  by (intro no_fuel_bind) (simp_all add: no_fuel_set no_fuel_info_piece reporting_def rep_def)

lemma no_fuel_remainder: "reporting c \<Longrightarrow> no_fuel (show_remainder_segment e c)"
  by (simp add: show_remainder_segment_def Let_def no_fuel_info_piece reporting_def)

lemma no_fuel_multiple:
  assumes "reporting c"
  shows "no_fuel (show_multiple e sid (sm, c))"
  unfolding show_multiple_def
proof (rule no_fuel_bind [OF no_fuel_beginning [OF assms]], clarify)
  fix sid1 sm1 c1
  assume b: "show_beginning e sid (sm, c) = Inr (sid1, sm1, c1)"
  obtain l1 where l1: "seg_frame c l1 c1" using cuts_env [OF cuts_beginning(1) [OF b assms]] by blast
  have r1: "reporting c1" using reporting_frame [OF l1] assms by simp
  let ?en = "(phy_blk e + e_len e) AND f2fs_segment_mask c1"
  let ?mid = "drop_bit (ssh c1) (?en - (phy_blk e AND f2fs_segment_mask c1)) > 1"
  have rest: "no_fuel (if ?en \<noteq> phy_blk e + e_len e
      then bind_res (show_remainder_segment e c2) (\<lambda>c. bind_res (set_segment_counters c 1 e sm2) (\<lambda>sm. Inr (sm, c)))
      else Inr (sm2, c2))"
    if "(if ?mid then show_consecutive_segments e sid1 (sm1, c1) else Inr (sm1, c1)) = Inr (sm2, c2)" for sm2 c2
  proof -
    have "reporting c2"
    proof (cases ?mid)
      case True
      with that have "show_consecutive_segments e sid1 (sm1, c1) = Inr (sm2, c2)" by simp
      from cuts_env [OF cuts_consecutive_segments [OF this r1]] reporting_frame r1 show ?thesis by auto
    next
      case False
      with that r1 show ?thesis by simp
    qed
    then show ?thesis by (auto intro!: no_fuel_bind no_fuel_remainder no_fuel_set)
  qed
  show "no_fuel (let segment_start = phy_blk e AND f2fs_segment_mask c1;
           segment_end = (phy_blk e + e_len e) AND f2fs_segment_mask c1
       in bind_res (if drop_bit (ssh c1) (segment_end - segment_start) > 1
                    then show_consecutive_segments e sid1 (sm1, c1) else Inr (sm1, c1)) (\<lambda>(sm, c).
          if segment_end \<noteq> phy_blk e + e_len e
          then bind_res (show_remainder_segment e c) (\<lambda>c.
               bind_res (set_segment_counters c 1 e sm) (\<lambda>sm. Inr (sm, c)))
          else Inr (sm, c)))"
    unfolding Let_def using rest by (intro no_fuel_bind) (auto simp: no_fuel_consecutive [OF r1])
qed

lemma no_fuel_report_extent:
  assumes "reporting c"
  shows "no_fuel (report_extent k e (z, sm, c))"
proof -
  have z: "reporting c1" if "enter_zone k e z c = Inr c1" for c1
  proof -
    have "cuts c c1 e []"
      using that cuts_zone_info [of k "e_zone e" c c1 e] cuts_frame [OF seg_frame_refl, of c e]
      by (auto simp: enter_zone_def split: if_splits)
    with reporting_frame assms show ?thesis by (auto dest: cuts_env)
  qed
  have i: "reporting c2" if "increase_file_segment_counter f n cur fsi cap c1 = Inr c2" "reporting c1" for f n cur fsi cap c1 c2
    using reporting_frame [OF increase_file_segment_counter_frame [OF that(1)]] that(2) by simp
  have "no_fuel (enter_zone k e z c)" by (simp add: enter_zone_def no_fuel_zone_info)
  then show ?thesis
    unfolding report_extent_def Let_def prod.case
    by (intro no_fuel_bind no_fuel_increase) (auto dest!: z i intro: no_fuel_single no_fuel_multiple split: if_splits)
qed

lemma report_zone_extents_returns:
  "length es \<le> fuel \<Longrightarrow> reporting c \<Longrightarrow> \<forall>e\<in>set es. report_start_lba c \<le> start_blk c e \<Longrightarrow>
   no_fuel (report_zone_extents fuel k es (z, sm, c))"
proof (induction fuel k es "(z, sm, c)" arbitrary: z sm c rule: report_zone_extents.induct)
  case (3 fuel k e es z sm c)
  have ok: "\<not> start_blk c e < report_start_lba c" using "3.prems"(3) by (simp add: not_less)
  show ?case
  proof (cases "report_end_lba c \<le> start_blk c e")
    case True
    then show ?thesis by (simp add: start_blk_def Let_def)
  next
    case False
    have "no_fuel (report_zone_extents fuel k es s)" if r: "report_extent k e (z, sm, c) = Inr s" for s
    proof -
      obtain z1 sm1 c1 where s: "s = (z1, sm1, c1)" by (cases s)
      obtain l1 where l1: "seg_frame c l1 c1"
        using cuts_env [OF report_extent_cuts(1) [OF r [unfolded s] "3.prems"(2)]] by blast
      have r1: "reporting c1" using reporting_frame [OF l1] "3.prems"(2) by simp
      have "\<forall>e\<in>set es. report_start_lba c1 \<le> start_blk c1 e"
        using "3.prems"(3) range_frame [OF l1] by simp
      with "3.hyps"(2) [of _ z1 sm1 c1] r1 r s False ok "3.prems"(1) show ?thesis
        by (auto simp: start_blk_def)
    qed
    then have "no_fuel (bind_res (report_extent k e (z, sm, c)) (report_zone_extents fuel k es))"
      by (intro no_fuel_bind no_fuel_report_extent "3.prems"(2))
    with False ok show ?thesis by (simp add: start_blk_def Let_def)
  qed
qed simp_all

section \<open>Properties\<close>

text \<open>C13. The pieces the segment report prints for an extent partition it, in order and without
  gap, exactly when the extent is not a bad cut; the bad cuts are the extents whose full first
  segment the test for segments in the middle skips, and those whose one full segment in the
  middle is printed with its number in place of its address.\<close>

theorem pieces_partition:
  assumes "has_geometry c" "ext_end e < 2 ^ 64"
  shows "chain (unat (phy_blk e)) (pieces c e) (ext_end e) \<longleftrightarrow> \<not> bad_cut c e"
  by (rule pieces_chain [OF assms])

end
