(* ===== verification/Segmap_Counts.thy ===== *)
theory Segmap_Counts
  imports Segmap_Spec
begin

text \<open>
  The statistics of the segment report: the per-file array is a counter table that never
  overflows, its columns add up to the totals, and what an extent adds to the counters. The
  sections after that lift the termination of the loop over a zone to the whole report, and show
  when the report does not end and which zone \<open>-z\<close> selects.
\<close>

section \<open>The per-file statistics\<close>

definition stats_active :: "segmap_manager \<Rightarrow> file_stats list" where
  "stats_active sm = take (unat (sm_ctr sm)) (sm_fs sm)"

definition stats_keys :: "segmap_manager \<Rightarrow> string set" where
  "stats_keys sm = set (map fs_filename (stats_active sm))"

definition stats_count :: "segmap_manager \<Rightarrow> string \<Rightarrow> u32" where
  "stats_count sm f =
     (case index_of (\<lambda>s. fs_filename s = f) (stats_active sm) of
        None \<Rightarrow> 0 | Some i \<Rightarrow> fs_segment_ctr (stats_active sm ! i))"

definition stats_shape :: "segmap_manager \<Rightarrow> bool" where
  "stats_shape sm \<longleftrightarrow> unat (sm_ctr sm) \<le> length (sm_fs sm) \<and> length (sm_fs sm) < 2 ^ 32 \<and>
     distinct (map fs_filename (stats_active sm)) \<and>
     (\<forall>i. unat (sm_ctr sm) \<le> i \<and> i < length (sm_fs sm) \<longrightarrow> sm_fs sm ! i = zero_file_stats)"

text \<open>Every total is the sum of its column.\<close>

definition column_sum :: "(file_stats \<Rightarrow> u32) \<Rightarrow> segmap_manager \<Rightarrow> u32" where
  "column_sum h sm = sum_list (map h (stats_active sm))"

definition stats_totals :: "segmap_manager \<Rightarrow> bool" where
  "stats_totals sm \<longleftrightarrow> sm_segment_ctr sm = column_sum fs_segment_ctr sm \<and>
     sm_cold_ctr sm = column_sum fs_cold_ctr sm \<and> sm_warm_ctr sm = column_sum fs_warm_ctr sm \<and>
     sm_hot_ctr sm = column_sum fs_hot_ctr sm"

definition stats_inv :: "segmap_manager \<Rightarrow> bool" where
  "stats_inv sm \<longleftrightarrow> stats_shape sm \<and> stats_totals sm"

lemma stats_inv_init:
  "n < 2 ^ 32 \<Longrightarrow> stats_inv (zero_segmap_manager\<lparr>sm_fs := replicate n zero_file_stats\<rparr>)"
  by (simp add: stats_inv_def stats_shape_def stats_totals_def stats_active_def column_sum_def
      zero_segmap_manager_def)

lemma str_eq_filename:
  "length f < MAX_FILE_LENGTH \<Longrightarrow>
   str_eq_n MAX_FILE_LENGTH s f \<longleftrightarrow> s = f"
  by (cases "length s = length f") (simp_all add: str_eq_n_def, blast)

definition counted :: "control \<Rightarrow> extent \<Rightarrow> bool" where
  "counted c e \<longleftrightarrow> show_class_stats c \<and> 1 < nr_files c \<and> length (e_file e) < MAX_FILE_LENGTH \<and>
     (e_flags e AND FIEMAP_EXTENT_DATA_INLINE = 0 \<or> exclude_flags c AND FIEMAP_EXTENT_DATA_INLINE \<noteq> 0)"

text \<open>The entry of a file after a counted extent.\<close>

definition stats_step :: "seg_type \<Rightarrow> u32 \<Rightarrow> u32 \<Rightarrow> file_stats \<Rightarrow> file_stats" where
  "stats_step t n zone s = bump_file_heat t n (bump_file_stats n zone s)"

definition heat :: "seg_type \<Rightarrow> seg_type \<Rightarrow> u32 \<Rightarrow> u32" where
  "heat t t' n = (if t = t' then n else 0)"

lemma stats_step_fields [simp]:
  "fs_filename (stats_step t n z s) = fs_filename s"
  "fs_segment_ctr (stats_step t n z s) = n + fs_segment_ctr s"
  "fs_cold_ctr (stats_step t n z s) = heat t CURSEG_COLD_DATA n + fs_cold_ctr s"
  "fs_warm_ctr (stats_step t n z s) = heat t CURSEG_WARM_DATA n + fs_warm_ctr s"
  "fs_hot_ctr (stats_step t n z s) = heat t CURSEG_HOT_DATA n + fs_hot_ctr s"
  by (cases t; simp add: stats_step_def bump_file_heat_def bump_file_stats_def heat_def Let_def)+

lemma bump_heat_fields [simp]:
  "sm_segment_ctr (bump_heat t n sm) = sm_segment_ctr sm" "sm_fs (bump_heat t n sm) = sm_fs sm"
  "sm_ctr (bump_heat t n sm) = sm_ctr sm"
  "sm_cold_ctr (bump_heat t n sm) = heat t CURSEG_COLD_DATA n + sm_cold_ctr sm"
  "sm_warm_ctr (bump_heat t n sm) = heat t CURSEG_WARM_DATA n + sm_warm_ctr sm"
  "sm_hot_ctr (bump_heat t n sm) = heat t CURSEG_HOT_DATA n + sm_hot_ctr sm"
  by (cases t; simp add: bump_heat_def heat_def)+

definition adds :: "seg_type \<Rightarrow> u32 \<Rightarrow> segmap_manager \<Rightarrow> segmap_manager \<Rightarrow> bool" where
  "adds t n sm sm' \<longleftrightarrow> sm_segment_ctr sm' = n + sm_segment_ctr sm \<and>
     sm_cold_ctr sm' = heat t CURSEG_COLD_DATA n + sm_cold_ctr sm \<and>
     sm_warm_ctr sm' = heat t CURSEG_WARM_DATA n + sm_warm_ctr sm \<and>
     sm_hot_ctr sm' = heat t CURSEG_HOT_DATA n + sm_hot_ctr sm"

lemma set_segment_counters_cases:
  assumes "set_segment_counters c n e sm = Inr sm'" "counted c e" "stats_shape sm"
  obtains (found) t i where "adds t n sm sm'" "i < length (stats_active sm)"
      "fs_filename (stats_active sm ! i) = e_file e"
      "index_of (\<lambda>s. fs_filename s = e_file e) (stats_active sm) = Some i"
      "stats_active sm' = (stats_active sm)[i := stats_step t n (e_zone e) (stats_active sm ! i)]"
      "sm_ctr sm' = sm_ctr sm" "sm_fs sm' = (sm_fs sm)[i := stats_step t n (e_zone e) (stats_active sm ! i)]"
  | (new) t s where "adds t n sm sm'" "e_file e \<notin> stats_keys sm"
      "s = stats_step t n (e_zone e) (zero_file_stats\<lparr>fs_filename := e_file e\<rparr>)"
      "stats_active sm' = stats_active sm @ [s]" "unat (sm_ctr sm) < length (sm_fs sm)"
      "unat (sm_ctr sm') = unat (sm_ctr sm) + 1" "sm_fs sm' = (sm_fs sm)[unat (sm_ctr sm) := s]"
proof -
  let ?P = "\<lambda>s. fs_filename s = e_file e"
  from assms(1) obtain si where si: "fs_info e = Some si"
    by (auto simp: set_segment_counters_def split: option.splits)
  have len: "length (e_file e) < MAX_FILE_LENGTH" using assms(2) by (simp add: counted_def)
  have skip: "\<not> (e_flags e AND FIEMAP_EXTENT_DATA_INLINE \<noteq> 0 \<and> exclude_flags c AND FIEMAP_EXTENT_DATA_INLINE = 0)"
    and stats: "show_class_stats c \<and> 1 < nr_files c" using assms(2) by (auto simp: counted_def)
  let ?t = "si_type si"
  let ?sm = "sm\<lparr>sm_segment_ctr := sm_segment_ctr sm + n\<rparr>"
  obtain i sm1 where idx: "get_file_stats_index (e_file e) ?sm = Inr (i, sm1)"
    and sm': "sm' = (bump_heat ?t n sm1)\<lparr>sm_fs := (sm_fs sm1)[i := stats_step ?t n (e_zone e) (sm_fs sm1 ! i)]\<rparr>"
    using assms(1) unfolding set_segment_counters_def si option.case if_not_P [OF skip] if_P [OF stats] Let_def
    by (auto simp: bind_res_Inr_iff stats_step_def)
  have ix: "index_of (\<lambda>s. str_eq_n MAX_FILE_LENGTH (fs_filename s) (e_file e)) xs = index_of ?P xs" for xs
    by (simp add: str_eq_filename [OF len])
  have shape: "unat (sm_ctr sm) \<le> length (sm_fs sm)" "length (sm_fs sm) < 2 ^ 32"
    using assms(3) by (simp_all add: stats_shape_def)
  have la: "length (stats_active sm) = unat (sm_ctr sm)" using shape by (simp add: stats_active_def)
  show thesis
  proof (cases "index_of ?P (stats_active sm)")
    case (Some j)
    have j: "j < length (stats_active sm)" "fs_filename (stats_active sm ! j) = e_file e"
      using Some by (auto simp: index_of_Some_iff)
    from Some idx have "i = j" "sm1 = ?sm"
      by (simp_all add: get_file_stats_index_def ix stats_active_def)
    moreover have "sm_fs sm ! j = stats_active sm ! j" using j(1) by (simp add: stats_active_def)
    ultimately have s: "sm' = (bump_heat ?t n ?sm)\<lparr>sm_fs := (sm_fs sm)[j := stats_step ?t n (e_zone e) (stats_active sm ! j)]\<rparr>"
      using sm' by simp
    show thesis
      by (rule found [of ?t j])
        (use s j Some in \<open>simp_all add: adds_def stats_active_def take_update_swap\<close>)
  next
    case None
    let ?k = "unat (sm_ctr sm)"
    let ?z = "(sm_fs sm ! ?k)\<lparr>fs_filename := take MAX_FILE_LENGTH (e_file e)\<rparr>"
    from None idx have k: "?k < length (sm_fs sm)" "i = ?k"
      "sm1 = ?sm\<lparr>sm_fs := (sm_fs sm)[?k := ?z], sm_ctr := sm_ctr sm + 1\<rparr>"
      by (auto simp: get_file_stats_index_def ix stats_active_def Let_def split: if_splits)
    have z: "?z = zero_file_stats\<lparr>fs_filename := e_file e\<rparr>"
      using assms(3) k(1) len by (simp add: stats_shape_def)
    let ?s = "stats_step ?t n (e_zone e) ?z"
    have fs: "sm_fs sm' = (sm_fs sm)[?k := ?s]" using sm' k by simp
    have ctr: "unat (sm_ctr sm') = ?k + 1"
      using sm' k shape by (simp add: unat_add_mod)
    have act: "stats_active sm' = stats_active sm @ [?s]"
      using fs ctr k(1) by (simp add: stats_active_def take_Suc_conv_app_nth)
    have "e_file e \<notin> stats_keys sm" using None unfolding index_of_None stats_keys_def by force
    then show thesis
      by (intro new [of ?t ?s]) (use sm' k fs ctr act z in \<open>simp_all add: adds_def\<close>)
  qed
qed

lemma column_sum_step:
  assumes "i < length (stats_active sm)"
    "stats_active sm' = (stats_active sm)[i := y]" "h y = d + h (stats_active sm ! i)"
  shows "column_sum h sm' = d + column_sum h sm"
  using sum_list_map_update [OF assms(1), of h, OF assms(3)] by (simp add: column_sum_def assms(2))

lemma column_sum_new:
  "stats_active sm' = stats_active sm @ [s] \<Longrightarrow> column_sum h sm' = h s + column_sum h sm"
  by (simp add: column_sum_def add.commute)

lemma set_segment_counters_shape:
  assumes "set_segment_counters c n e sm = Inr sm'" "counted c e" "stats_shape sm"
  shows "stats_shape sm' \<and> stats_keys sm' = insert (e_file e) (stats_keys sm) \<and>
    length (sm_fs sm') = length (sm_fs sm)"
  using assms
proof (cases rule: set_segment_counters_cases)
  case (found t i)
  have names: "map fs_filename (stats_active sm') = map fs_filename (stats_active sm)"
    unfolding found(5) using found(2) by (intro map_update_same) simp_all
  have "i < unat (sm_ctr sm)" using found(2) by (simp add: stats_active_def)
  then have "stats_shape sm'"
    using assms(3) found(6,7) names by (auto simp: stats_shape_def nth_list_update)
  moreover have "stats_keys sm' = insert (e_file e) (stats_keys sm)"
    using names found(2,3) unfolding stats_keys_def by (metis insert_absorb length_map nth_map nth_mem)
  ultimately show ?thesis using found(7) by simp
next
  case (new t s)
  have "stats_shape sm'"
    using assms(3) new(2-7) by (auto simp: stats_shape_def stats_keys_def)
  moreover have "stats_keys sm' = insert (e_file e) (stats_keys sm)"
    using new(3,4) by (auto simp: stats_keys_def)
  ultimately show ?thesis using new(7) by simp
qed

lemma set_segment_counters_inv:
  assumes "set_segment_counters c n e sm = Inr sm'" "counted c e" "stats_inv sm"
  shows "stats_inv sm'" "stats_keys sm' = insert (e_file e) (stats_keys sm)"
    "stats_count sm' f = (if f = e_file e then stats_count sm f + n else stats_count sm f)"
proof -
  have sh: "stats_shape sm" and tot: "stats_totals sm" using assms(3) by (simp_all add: stats_inv_def)
  note shape = set_segment_counters_shape [OF assms(1,2) sh]
  have "stats_inv sm' \<and> stats_keys sm' = insert (e_file e) (stats_keys sm) \<and>
    stats_count sm' f = (if f = e_file e then stats_count sm f + n else stats_count sm f)"
    using assms(1,2) sh
  proof (cases rule: set_segment_counters_cases)
    case (found t i)
    note col = column_sum_step [OF found(2,5)]
    have "stats_totals sm'"
      using tot found(1) by (simp add: stats_totals_def adds_def col)
    moreover have "stats_count sm' f = (if f = e_file e then stats_count sm f + n else stats_count sm f)"
    proof -
      have ix: "index_of (\<lambda>s. fs_filename s = f) (stats_active sm') = index_of (\<lambda>s. fs_filename s = f) (stats_active sm)"
        unfolding found(5) using found(2) by (intro index_of_update_same) simp_all
      show ?thesis
      proof (cases "f = e_file e")
        case True
        with ix found(2,4,5) show ?thesis by (simp add: stats_count_def)
      next
        case False
        have "j \<noteq> i" if "index_of (\<lambda>s. fs_filename s = f) (stats_active sm) = Some j" for j
          using that False found(3) by (auto simp: index_of_Some_iff)
        with ix found(5) False show ?thesis
          by (cases "index_of (\<lambda>s. fs_filename s = f) (stats_active sm)") (simp_all add: stats_count_def)
      qed
    qed
    ultimately show ?thesis using shape by (simp add: stats_inv_def)
  next
    case (new t s)
    note col = column_sum_new [OF new(4)]
    have "stats_totals sm'"
      using tot new(1,3) by (simp add: stats_totals_def adds_def col zero_file_stats_def)
    moreover have "index_of (\<lambda>s. fs_filename s = e_file e) (stats_active sm) = None"
      using new(2) unfolding index_of_None stats_keys_def by force
    then have "stats_count sm' f = (if f = e_file e then stats_count sm f + n else stats_count sm f)"
      using new(3,4) by (auto simp: stats_count_def index_of_snoc nth_append zero_file_stats_def
          dest!: index_of_less split: option.split)
    ultimately show ?thesis using shape by (simp add: stats_inv_def)
  qed
  then show "stats_inv sm'" "stats_keys sm' = insert (e_file e) (stats_keys sm)"
    "stats_count sm' f = (if f = e_file e then stats_count sm f + n else stats_count sm f)" by simp_all
qed

interpretation fss: counter_table stats_count "\<lambda>(c, n, e). set_segment_counters c n e"
    "\<lambda>(c, n, e). e_file e" "\<lambda>(c, n, e). n" "\<lambda>(c, n, e). counted c e" stats_keys stats_inv
proof
  fix t t' :: segmap_manager and a :: "control \<times> u32 \<times> extent" and j
  obtain c n e where a: "a = (c, n, e)" by (cases a)
  show "stats_inv t'"
    if "stats_inv t" "(\<lambda>(c, n, e). counted c e) a" "(\<lambda>(c, n, e). set_segment_counters c n e) a t = Inr t'"
    using set_segment_counters_inv(1) that unfolding a prod.case by blast
  show "stats_keys t' = insert ((\<lambda>(c, n, e). e_file e) a) (stats_keys t)"
    if "stats_inv t" "(\<lambda>(c, n, e). counted c e) a" "(\<lambda>(c, n, e). set_segment_counters c n e) a t = Inr t'"
    using set_segment_counters_inv(2) that unfolding a prod.case by blast
  show "stats_count t' j = (if j = (\<lambda>(c, n, e). e_file e) a
      then stats_count t j + (\<lambda>(c, n, e). n) a else stats_count t j)"
    if "stats_inv t" "(\<lambda>(c, n, e). counted c e) a" "(\<lambda>(c, n, e). set_segment_counters c n e) a t = Inr t'"
    using set_segment_counters_inv(3) that unfolding a prod.case by blast
  show "stats_count t j = 0" if "j \<notin> stats_keys t"
  proof -
    have "index_of (\<lambda>s. fs_filename s = j) (stats_active t) = None"
      using that unfolding index_of_None stats_keys_def by force
    then show ?thesis by (simp add: stats_count_def)
  qed
qed

section \<open>The array does not overflow\<close>

text \<open>
  The files that can get an entry are those with a recorded extent, and there are at most
  \<open>nr_files\<close> of them, which is the size of the array.
\<close>

lemma card_stats_keys: "stats_shape sm \<Longrightarrow> card (stats_keys sm) = unat (sm_ctr sm)"
  by (simp add: stats_shape_def stats_keys_def distinct_card stats_active_def del: set_map)

lemma card_fcm_keys: "fcm_inv fm \<Longrightarrow> card (fcm_keys fm) = unat (file_ctr fm)"
  by (simp add: fcm_inv_def fcm_keys_def distinct_card length_active del: set_map)

lemma stats_index_in_range:
  assumes "ctrl_inv c" "e \<in># recorded_in c" "stats_shape sm" "stats_keys sm \<subseteq> e_file ` set_mset (recorded_in c)"
    "length (sm_fs sm) = unat (nr_files c)"
  shows "\<exists>i sm'. get_file_stats_index (e_file e) sm = Inr (i, sm') \<and> i < length (sm_fs sm)"
proof -
  from assms(1) obtain m where m: "zonemap c = Some m" "files_inv (counters c) m"
    "unat (file_ctr (counters c)) \<le> unat (nr_files c)" by (auto simp: ctrl_inv_def)
  have rc: "recorded_in c = recorded m" by (simp add: recorded_in_def m(1))
  have keys: "fcm_keys (counters c) = e_file ` set_mset (recorded m)" and fi: "fcm_inv (counters c)"
    using m(2) by (simp_all add: files_inv_def)
  have len: "length (e_file e) < MAX_FILE_LENGTH" using fi keys assms(2) by (auto simp: fcm_inv_def rc)
  have ix: "index_of (\<lambda>s. str_eq_n MAX_FILE_LENGTH (fs_filename s) (e_file e)) xs
      = index_of (\<lambda>s. fs_filename s = e_file e) xs" for xs
    by (simp add: str_eq_filename [OF len])
  show ?thesis
  proof (cases "index_of (\<lambda>s. fs_filename s = e_file e) (stats_active sm)")
    case (Some i)
    then have "i < length (sm_fs sm)" by (auto simp: index_of_Some_iff stats_active_def)
    with Some show ?thesis by (simp add: get_file_stats_index_def ix stats_active_def)
  next
    case None
    then have "e_file e \<notin> stats_keys sm" unfolding index_of_None stats_keys_def by force
    then have "card (insert (e_file e) (stats_keys sm)) = unat (sm_ctr sm) + 1"
      using card_stats_keys [OF assms(3)] by (simp add: stats_keys_def)
    moreover have "card (insert (e_file e) (stats_keys sm)) \<le> card (fcm_keys (counters c))"
      using assms(2,4) by (intro card_mono) (auto simp: keys rc)
    ultimately have "unat (sm_ctr sm) < length (sm_fs sm)"
      using card_fcm_keys [OF fi] m(3) assms(5) by simp
    with None show ?thesis by (simp add: get_file_stats_index_def ix stats_active_def Let_def)
  qed
qed

section \<open>Termination of the report\<close>

lemma report_all_zones_returns:
  "reporting c \<Longrightarrow> \<forall>i\<in>set is. zone_wf (zones m ! i) \<and> length (extents (zones m ! i)) \<le> fuel \<and>
     (\<forall>e\<in>set (extents (zones m ! i)). report_start_lba c \<le> start_blk c e) \<Longrightarrow>
   no_fuel (report_all_zones fuel k m is (z, sm, c))"
proof (induction "is" arbitrary: z sm c)
  case Nil
  then show ?case by simp
next
  case (Cons i "is")
  have "no_fuel (report_all_zones fuel k m is s)"
    if r: "report_zone_extents fuel k (extents (zones m ! i)) (z, sm, c) = Inr s" for s
  proof -
    obtain z1 sm1 c1 where s: "s = (z1, sm1, c1)" by (cases s)
    obtain l1 where l1: "seg_frame c l1 c1"
      using report_zone_extents_lines [OF r [unfolded s] Cons.prems(1)] by blast
    have "reporting c1" using reporting_frame [OF l1] Cons.prems(1) by simp
    then show ?thesis unfolding s using Cons.prems(2) range_frame [OF l1] by (intro Cons.IH) simp_all
  qed
  then show ?case
    using Cons.prems report_zone_extents_returns [of "extents (zones m ! i)" fuel c k z sm] Cons.IH
    by (auto intro!: no_fuel_bind)
qed

lemma no_fuel_stats: "no_fuel (show_segment_stats sm c)"
  by (simp add: show_segment_stats_def Let_def split: option.split)

lemma show_segment_report_returns:
  assumes "reporting c" "zonemap c = Some m" "zm_inv m"
    "\<forall>z\<in>set (zones m). length (extents z) \<le> fuel \<and> (\<forall>e\<in>set (extents z). report_start_lba c \<le> start_blk c e)"
  shows "no_fuel (show_segment_report fuel k (sm, c))"
proof -
  let ?c = "rep (show_only_stats c) (Text ''SEGMENT MAPPINGS'') c"
  have c: "?c = msg (Text ''SEGMENT MAPPINGS'') c" using assms(1) by (simp add: reporting_def rep_def)
  have f: "seg_frame c [Text ''SEGMENT MAPPINGS''] ?c" unfolding c by (rule seg_frame_msg)
  have "reporting ?c" using reporting_frame [OF f] assms(1) by simp
  then have "no_fuel (report_all_zones fuel k m [0..<unat (zm_nr_zones m)] (0, sm0, ?c))" for sm0
    using assms(3,4) range_frame [OF f]
    by (intro report_all_zones_returns) (auto simp: zm_inv_def dest: nth_mem)
  moreover have "zonemap ?c = Some m" using assms(2) by (simp add: c)
  ultimately show ?thesis
    by (auto simp: show_segment_report_def Let_def intro!: no_fuel_bind no_fuel_stats)
qed

text \<open>An extent in front of the range that is reached stops the report for good.\<close>

lemma report_zone_extents_spins:
  assumes "start_blk c e < report_start_lba c" "start_blk c e < report_end_lba c"
  shows "report_zone_extents fuel k (e # es) (z, sm, c) = Inl OutOfFuel"
  using assms by (induction fuel) (simp_all add: start_blk_def Let_def not_le)

lemma show_segment_report_spins:
  assumes "zonemap c = Some m" "i < length (zones m)" "i < unat (zm_nr_zones m)"
    "\<forall>j<i. z_extent_ctr (zones m ! j) = 0" "z_extent_ctr (zones m ! i) \<noteq> 0"
    "extents (zones m ! i) = e # es"
    "start_blk c e < report_start_lba c" "start_blk c e < report_end_lba c"
  shows "show_segment_report fuel k (sm, c) = Inl OutOfFuel"
proof -
  let ?c = "rep (show_only_stats c) (Text ''SEGMENT MAPPINGS'') c"
  have f: "start_blk ?c e = start_blk c e" "report_start_lba ?c = report_start_lba c"
    "report_end_lba ?c = report_end_lba c" "zonemap ?c = zonemap c"
    by (simp_all add: rep_def start_blk_def segment_id_of_def report_start_lba_def report_end_lba_def)
  have "report_all_zones fuel k m ([j..<i] @ i # rest) (0, sm0, ?c) = Inl OutOfFuel" if "j \<le> i" for j sm0 rest
    using that
  proof (induction "i - j" arbitrary: j)
    case 0
    then show ?case
      using assms(2,5,6,7,8) report_zone_extents_spins [of ?c e fuel k es 0 sm0] by (simp add: f)
  next
    case (Suc d)
    then have "j < i" by simp
    with Suc assms(2,4) show ?case by (simp add: upt_conv_Cons)
  qed
  from this [of 0] have "report_all_zones fuel k m [0..<unat (zm_nr_zones m)] (0, sm0, ?c) = Inl OutOfFuel" for sm0
    using assms(3) upt_add_eq_append [of 0 i "unat (zm_nr_zones m) - i"] by (simp add: upt_conv_Cons)
  then show ?thesis using assms(1) f(4) by (simp add: show_segment_report_def Let_def)
qed

section \<open>One zone\<close>

lemma multiple_range:
  assumes "0 < (s :: nat)" "0 < z"
  shows "(z - 1) * s \<le> b \<and> b < z * s \<longleftrightarrow> b div s = z - 1"
proof -
  have "(z - 1) * s \<le> b \<longleftrightarrow> z - 1 \<le> b div s" "b < z * s \<longleftrightarrow> b div s < z"
    using assms(1) by (simp_all add: less_eq_div_iff_mult_less_eq div_less_iff_less_mult)
  then show ?thesis using assms(2) by auto
qed

lemma zone_range_lba:
  assumes "unat (b_zone_size (znsdev c)) = s" "start_zone c = z" "end_zone c = z" "0 < z"
    "(unat z + 1) * s < 2 ^ 32" "0 < s"
  shows "unat (report_start_lba c) = (unat z - 1) * s" "unat (report_end_lba c) = unat z * s"
proof -
  have z: "1 \<le> unat z" using assms(4) by (simp add: word_less_nat_alt)
  have "unat z + 1 \<le> (unat z + 1) * s" using mult_le_mono2 [of 1 s "unat z + 1"] assms(6) by simp
  then have "unat z + 1 < 2 ^ 32" using assms(5) by (rule le_less_trans)
  then have z1: "unat (z + 1) = unat z + 1" by (simp add: unat_add_nowrap)
  have le: "unat z * s < 2 ^ 32" "s \<le> unat z * s" using assms(5) z by simp_all
  show "unat (report_start_lba c) = (unat z - 1) * s"
    using le assms(1) by (simp add: report_start_lba_def assms(2) unat_sub_nowrap unat_mult_mod unat_ucast_up diff_mult_distrib)
  show "unat (report_end_lba c) = unat z * s"
    using assms(5) assms(1) by (simp add: report_end_lba_def assms(3) unat_sub_nowrap unat_mult_mod unat_ucast_up z1)
qed

section \<open>Properties\<close>

text \<open>C22. With \<open>-z n\<close>, for zones of a power of two of sectors and addresses below \<open>2 ^ 32\<close>, the segments
  in the range of the report are exactly those of the zone that is printed with the number \<open>n - 1\<close>: the option
  counts zones from one, the report from zero.\<close>

theorem zone_option_selects:
  assumes "unat (b_zone_size (znsdev c)) * 2 ^ zsh c = 2 ^ n" "start_zone c = z" "end_zone c = z" "0 < z"
    "(unat z + 1) * 2 ^ n < 2 ^ 32" "unat blk * 2 ^ zsh c < 2 ^ 32"
  shows "report_start_lba c \<le> blk \<and> blk < report_end_lba c \<longleftrightarrow>
    get_zone_number c (push_bit (zsh c) blk) = Inr (z - 1)"
proof -
  let ?s = "unat (b_zone_size (znsdev c))" let ?p = "(2::nat) ^ zsh c"
  have s: "0 < ?s" using assms(1) by (metis gr0I mult_zero_left power_eq_0_iff zero_neq_numeral)
  have "?s \<le> 2 ^ n" unfolding assms(1) [symmetric] by simp
  then have "(unat z + 1) * ?s \<le> (unat z + 1) * 2 ^ n" by (rule mult_le_mono2)
  then have small: "(unat z + 1) * ?s < 2 ^ 32" using assms(5) by (rule le_less_trans)
  have z: "1 \<le> unat z" using assms(4) by (simp add: word_less_nat_alt)
  have "(2::nat) ^ n \<le> (unat z + 1) * 2 ^ n" by simp
  then have "(2::nat) ^ n < 2 ^ 32" using assms(5) by (rule le_less_trans)
  then have n: "n < 32" by (rule power_less_imp_less_exp [rotated]) simp
  have "unat (push_bit (zsh c) (b_zone_size (znsdev c))) = 2 ^ n"
    using \<open>(2::nat) ^ n < 2 ^ 32\<close> by (subst unat_push_bit_nowrap) (simp_all add: assms(1))
  moreover have "unat ((2::u64) ^ n) = 2 ^ n"
    using unat_push_bit_nowrap [of "1::u64" n] power_strict_increasing [of n 64 "2::nat"] n
    by (simp add: push_bit_eq_mult)
  ultimately have p2: "zone_bytes_pow2 c n"
    using n by (simp add: zone_bytes_pow2_def word_unat_eq_iff)
  have b: "unat (push_bit (zsh c) blk) = unat blk * ?p"
    using assms(6) by (intro unat_push_bit_nowrap) simp
  have "unat blk * ?p mod 2 ^ 32 div 2 ^ n = unat blk div ?s"
    unfolding assms(1) [symmetric] using assms(6) by simp
  then have g: "get_zone_number c (push_bit (zsh c) blk) = Inr (of_nat (unat blk div ?s))"
    by (simp add: get_zone_number_pow2 [OF p2] b)
  have "unat blk \<le> unat blk * ?p" by simp
  then have "unat blk < 2 ^ 32" using assms(6) by (rule le_less_trans)
  then have "unat blk div ?s < 2 ^ 32" by (meson div_le_dividend le_less_trans)
  then have u: "unat (of_nat (unat blk div ?s) :: u32) = unat blk div ?s"
    by (simp add: unat_of_nat take_bit_nat_eq_self_iff)
  have "unat (z - 1) = unat z - 1" using z by (simp add: unat_sub_nowrap)
  then have e: "of_nat (unat blk div ?s) = z - 1 \<longleftrightarrow> unat blk div ?s = unat z - 1"
    by (simp add: word_unat_eq_iff u)
  note r = zone_range_lba [OF refl assms(2-4) small s]
  have "report_start_lba c \<le> blk \<and> blk < report_end_lba c \<longleftrightarrow> (unat z - 1) * ?s \<le> unat blk \<and> unat blk < unat z * ?s"
    by (simp add: word_le_nat_alt word_less_nat_alt r)
  also have "\<dots> \<longleftrightarrow> unat blk div ?s = unat z - 1"
    using z by (intro multiple_range s) simp
  finally show ?thesis by (simp add: g e)
qed

theorem zone_option_selects_witness:
  "\<exists>c. start_zone c = 7 \<and> report_start_lba c \<le> 0x300005 \<and> 0x300005 < report_end_lba c \<and>
     get_zone_number c 0x300005 = Inr 6"
proof -
  let ?c = "zero_control\<lparr>znsdev := zero_bdev\<lparr>b_zone_size := 0x80000\<rparr>, start_zone := 7, end_zone := 7\<rparr>"
  have c: "unat (b_zone_size (znsdev ?c)) * 2 ^ zsh ?c = 2 ^ 19" "start_zone ?c = 7" "end_zone ?c = 7" "zsh ?c = 0"
    by (simp_all add: zero_control_def zero_bdev_def)
  have "report_start_lba ?c \<le> 0x300005 \<and> 0x300005 < report_end_lba ?c"
    by (simp add: report_start_lba_def report_end_lba_def zero_control_def zero_bdev_def)
  with zone_option_selects [OF c(1-3), of "0x300005"] c(2,4) show ?thesis by (intro exI [of _ ?c]) simp
qed


text \<open>C16. Counting the segments of an extent keeps the statistics consistent: a file has one
  entry, every total is the sum of the column of its entries, and exactly the count of the
  extent's file grows, by the number of segments.\<close>

theorem segment_counts_consistent:
  assumes "set_segment_counters c n e sm = Inr sm'" "counted c e" "stats_inv sm"
  shows "stats_inv sm' \<and> stats_keys sm' = insert (e_file e) (stats_keys sm) \<and>
    (\<forall>f. stats_count sm' f = (if f = e_file e then stats_count sm f + n else stats_count sm f))"
  using set_segment_counters_inv [OF assms] by blast

text \<open>C17. The array of the per-file statistics does not overflow: it has one entry per file of the
  run, and only files with a recorded extent get one.\<close>

theorem stats_array_large_enough:
  assumes "ctrl_inv c" "e \<in># recorded_in c" "stats_shape sm" "stats_keys sm \<subseteq> e_file ` set_mset (recorded_in c)"
    "length (sm_fs sm) = unat (nr_files c)"
  shows "\<exists>i sm'. get_file_stats_index (e_file e) sm = Inr (i, sm') \<and> i < length (sm_fs sm)"
  by (rule stats_index_in_range [OF assms])

end
