(* ===== verification/Json_Dump.thy ===== *)
theory Json_Dump
  imports Segmap_Counts
begin

text \<open>
  \<open>lib/libjson.c\<close>: the JSON dump of \<open>zns.segmap -j\<close>. The json-c library is not part of the
  repository and is a parameter: a record of the functions the file calls. The code links an
  object into another only when it is complete, so objects are values here and an addition
  returns the changed object.
\<close>

section \<open>The json-c functions used\<close>

record 'j json_api =
  js_object :: 'j
  js_array :: 'j
  js_null :: 'j
  js_string :: "string \<Rightarrow> 'j"
  js_int :: "int \<Rightarrow> 'j"
  js_uint64 :: "u64 \<Rightarrow> 'j"
  js_double :: "u64 \<Rightarrow> 'j"
  js_bool :: "bool \<Rightarrow> 'j"
  js_add :: "'j \<Rightarrow> string \<Rightarrow> 'j \<Rightarrow> 'j"
  js_append :: "'j \<Rightarrow> 'j \<Rightarrow> 'j"
  js_length :: "'j \<Rightarrow> nat"
  js_to_file :: "string \<Rightarrow> 'j \<Rightarrow> int"

definition js_fields :: "'j json_api \<Rightarrow> (string \<times> 'j) list \<Rightarrow> 'j \<Rightarrow> 'j" where
  "js_fields J fs obj = foldl (\<lambda>ob (key, v). js_add J ob key v) obj fs"

section \<open>Numbers as strings\<close>

text \<open>
  \<open>snprintf\<close> with a size of \<open>sizeof(uint64_t) + 7\<close>, \<open>sizeof(uint32_t) + 7\<close> and
  \<open>sizeof(uint32_t)\<close> bytes. The last one prints the value as a signed number.
\<close>

definition uint64_to_hex_string_cast :: "u64 \<Rightarrow> string" where
  "uint64_to_hex_string_cast v = snprintf_n (8 + 7) (''0x'' @ hex_string (unat v))"

definition uint32_to_hex_string_cast :: "u32 \<Rightarrow> string" where
  "uint32_to_hex_string_cast v = snprintf_n (4 + 7) (''0x'' @ hex_string (unat v))"

definition uint32_to_string_cast :: "u32 \<Rightarrow> string" where
  "uint32_to_string_cast v = snprintf_n 4 (int_string (sint v))"

abbreviation js_hex64 :: "'j json_api \<Rightarrow> u64 \<Rightarrow> 'j" where
  "js_hex64 J v \<equiv> js_string J (uint64_to_hex_string_cast v)"

abbreviation js_hex32 :: "'j json_api \<Rightarrow> u32 \<Rightarrow> 'j" where
  "js_hex32 J v \<equiv> js_string J (uint32_to_hex_string_cast v)"

abbreviation js_int32 :: "'j json_api \<Rightarrow> u32 \<Rightarrow> 'j" where
  "js_int32 J v \<equiv> js_int J (sint v)"

section \<open>The configuration\<close>

definition json_get_bdev :: "'j json_api \<Rightarrow> control \<Rightarrow> bdev \<Rightarrow> 'j" where
  "json_get_bdev J c b =
     (let dev = js_fields J
            [(''dev_name'', js_string J (dev_name b)), (''dev_path'', js_string J (dev_path b)),
             (''link_name'', js_string J (link_name b)), (''is_zoned'', js_bool J (b_is_zoned b))]
            (js_object J)
      in if b_is_zoned b
         then js_fields J
            [(''nr_zones'', js_int32 J (b_nr_zones b)), (''zone_size'', js_int32 J (ucast (b_zone_size b))),
             (''zone_mask'', js_hex32 J (b_zone_mask b)), (''sector_size'', js_int32 J (sector_size c)),
             (''sector_shift'', js_int32 J (sector_shift c))] dev
         else dev)"

definition json_get_fs_info :: "'j json_api \<Rightarrow> control \<Rightarrow> 'j" where
  "json_get_fs_info J c =
     js_fields J
       ((''fs_magic'', js_hex64 J (fs_magic c)) #
        (if fs_magic c = F2FS_MAGIC
         then [(''fs'', js_string J ''F2FS''), (''f2fs_segment_sectors'', js_double J (f2fs_segment_sectors c)),
               (''f2fs_segment_shift'', js_int32 J (segment_shift c)),
               (''f2fs_segment_mask'', js_hex64 J (f2fs_segment_mask c))]
         else if fs_magic c = BTRFS_MAGIC then [(''fs'', js_string J ''Btrfs'')]
         else []))
       (js_object J)"

definition json_get_ctrl_config :: "'j json_api \<Rightarrow> control \<Rightarrow> 'j" where
  "json_get_ctrl_config J c =
     js_fields J
       ((if multi_dev c then [(''dev-1'', json_get_bdev J c (bdev c))] else [])
        @ [(''dev-2'', json_get_bdev J c (znsdev c)), (''filesystem'', json_get_fs_info J c)])
       (js_object J)"

definition init_json_file :: "'j json_api \<Rightarrow> u64 \<Rightarrow> control \<Rightarrow> 'j" where
  "init_json_file J time c =
     js_add J (js_object J) ''info''
       (js_fields J [(''program'', js_string J (argv0 c)), (''time'', js_uint64 J time),
          (''config'', json_get_ctrl_config J c)] (js_object J))"

section \<open>Zones, segments, extents\<close>

definition json_get_zone_info :: "'j json_api \<Rightarrow> os \<Rightarrow> control \<Rightarrow> u32 \<Rightarrow> 'j res" where
  "json_get_zone_info J k c zone =
     bind_res (report_zone k zone c) (\<lambda>r. case r of
       None \<Rightarrow> Inr (js_null J)
     | Some z \<Rightarrow>
         Inr (js_fields J
           [(''lbas'', js_hex64 J (drop_bit (zsh c) (bz_start z))),
            (''lbae'', js_hex64 J (drop_bit (zsh c) (bz_start z) + drop_bit (zsh c) (bz_capacity z))),
            (''cap'', js_hex64 J (drop_bit (zsh c) (bz_capacity z))),
            (''wp'', js_hex64 J (drop_bit (zsh c) (bz_wp z))),
            (''size'', js_hex64 J (drop_bit (zsh c) (bz_len z))),
            (''state'', js_hex32 J (push_bit 4 (ucast (bz_cond z)))),
            (''mask'', js_hex32 J (b_zone_mask (znsdev c)))] (js_object J)))"

definition seg_type_name :: "seg_type \<Rightarrow> string option" where
  "seg_type_name t =
     (case t of
        CURSEG_HOT_DATA \<Rightarrow> Some ''CURSEG_HOT_DATA'' | CURSEG_WARM_DATA \<Rightarrow> Some ''CURSEG_WARM_DATA''
      | CURSEG_COLD_DATA \<Rightarrow> Some ''CURSEG_COLD_DATA'' | CURSEG_HOT_NODE \<Rightarrow> Some ''CURSEG_HOT_NODE''
      | CURSEG_WARM_NODE \<Rightarrow> Some ''CURSEG_WARM_NODE'' | CURSEG_COLD_NODE \<Rightarrow> Some ''CURSEG_COLD_NODE''
      | _ \<Rightarrow> None)"

definition json_get_segment_info :: "'j json_api \<Rightarrow> control \<Rightarrow> extent \<Rightarrow> u64 \<Rightarrow> 'j res" where
  "json_get_segment_info J c e segment_start =
     (case fs_info e of
        None \<Rightarrow> Inl NullDeref
      | Some seg_i \<Rightarrow>
          let blk = push_bit (ssh c) segment_start in
          Inr (js_fields J
            ([(''pbas'', js_hex64 J blk), (''pbae'', js_hex64 J (blk + f2fs_segment_sectors c)),
              (''size'', js_hex64 J (f2fs_segment_sectors c))]
             @ (case seg_type_name (si_type seg_i) of None \<Rightarrow> [] | Some n \<Rightarrow> [(''type'', js_string J n)])
             @ [(''valid_blocks'', js_int32 J (drop_bit (unat (sector_shift c))
                   (push_bit F2FS_BLKSIZE_BITS (si_valid_blocks seg_i))))]) (js_object J)))"

text \<open>The object of an extent or of a piece of it.\<close>

definition json_extent :: "'j json_api \<Rightarrow> control \<Rightarrow> extent \<Rightarrow> u64 \<Rightarrow> u64 \<Rightarrow> u64 \<Rightarrow> 'j res" where
  "json_extent J c e pbas pbae sz =
     bind_res (get_file_extent_count (e_file e) c) (\<lambda>n.
       Inr (js_fields J
         [(''file'', js_string J (e_file e)), (''pbas'', js_hex64 J pbas), (''pbae'', js_hex64 J pbae),
          (''size'', js_hex64 J sz), (''ext_nr'', js_int32 J (ext_nr e + 1)),
          (''total_exts'', js_int32 J n)] (js_object J)))"

definition json_get_extent_info :: "'j json_api \<Rightarrow> control \<Rightarrow> extent \<Rightarrow> 'j res" where
  "json_get_extent_info J c e = json_extent J c e (phy_blk e) (phy_blk e + e_len e) (e_len e)"

definition json_get_beginning_segment_extent_info :: "'j json_api \<Rightarrow> control \<Rightarrow> extent \<Rightarrow> 'j res" where
  "json_get_beginning_segment_extent_info J c e =
     (let segment_end = (phy_blk e AND f2fs_segment_mask c) + f2fs_segment_sectors c
      in json_extent J c e (phy_blk e) segment_end (segment_end - phy_blk e))"

definition json_ext_info :: "'j json_api \<Rightarrow> 'j \<Rightarrow> 'j" where
  "json_ext_info J x = js_add J (js_object J) ''ext_info'' x"

definition json_add_single_segment_extent_info ::
    "'j json_api \<Rightarrow> control \<Rightarrow> extent \<Rightarrow> u64 \<Rightarrow> 'j \<Rightarrow> 'j res" where
  "json_add_single_segment_extent_info J c e segment_start root =
     bind_res (json_get_segment_info J c e segment_start) (\<lambda>si.
     bind_res (json_get_extent_info J c e) (\<lambda>ei.
       let curseg = js_fields J
             [(''seg_info'', si), (''extents'', js_append J (js_array J) (json_ext_info J ei))] (js_object J)
       in Inr (js_add J root (uint32_to_string_cast (ucast segment_start)) curseg)))"

text \<open>
  The loop over the segments in between: \<open>cur\<close> is a \<open>uint32_t\<close>, the bound is 64 bit, and the
  body adds the first segment in every round.
\<close>

fun json_consecutive_loop ::
    "nat \<Rightarrow> 'j json_api \<Rightarrow> control \<Rightarrow> extent \<Rightarrow> u64 \<Rightarrow> u64 \<Rightarrow> u32 \<Rightarrow> 'j \<Rightarrow> 'j res" where
  "json_consecutive_loop fuel J c e segment_start segment_end cur root =
     (if ucast cur < segment_end - 1
      then case fuel of
             0 \<Rightarrow> Inl OutOfFuel
           | Suc fuel \<Rightarrow>
               bind_res (json_add_single_segment_extent_info J c e segment_start root)
                 (json_consecutive_loop fuel J c e segment_start segment_end
                    (ucast (ucast cur + f2fs_segment_sectors c)))
      else Inr root)"

declare json_consecutive_loop.simps [simp del]

definition json_add_consecutive_segments_extent_info ::
    "nat \<Rightarrow> 'j json_api \<Rightarrow> control \<Rightarrow> extent \<Rightarrow> u64 \<Rightarrow> 'j \<Rightarrow> 'j res" where
  "json_add_consecutive_segments_extent_info fuel J c e segment_start root =
     (let segment_end = segment_id_of c (phy_blk e + e_len e);
          num_segments = segment_end - segment_start
      in if num_segments = 1 then json_add_single_segment_extent_info J c e segment_start root
         else json_consecutive_loop fuel J c e segment_start segment_end (ucast segment_start) root)"

definition json_add_remainder_segment_extent_info :: "'j json_api \<Rightarrow> control \<Rightarrow> extent \<Rightarrow> 'j \<Rightarrow> 'j res" where
  "json_add_remainder_segment_extent_info J c e root =
     (let start_blk = push_bit (ssh c) (segment_id_of c (phy_blk e + e_len e));
          remainder = phy_blk e + e_len e - start_blk
      in bind_res (json_extent J c e start_blk (start_blk + remainder) remainder) (\<lambda>x.
           Inr (js_append J root x)))"

section \<open>The dump\<close>

text \<open>
  The variables of \<open>json_dump_f2fs_zonemap\<close> that live across zones, and \<open>zone_segments\<close> of
  the current zone.
\<close>

record 'j dump_state =
  d_current_zone :: u32
  d_curseg :: 'j
  d_curseg_extents :: 'j
  d_curseg_id :: u32
  d_zone_segments :: 'j
  d_cur_segment :: u64

text \<open>When the segment changes, what was collected is added, under the number of the new segment.\<close>

definition json_change_segment ::
    "'j json_api \<Rightarrow> control \<Rightarrow> extent \<Rightarrow> u64 \<Rightarrow> 'j dump_state \<Rightarrow> 'j dump_state res" where
  "json_change_segment J c e segment_id d =
     (if ucast (d_curseg_id d) \<noteq> segment_id
      then
        let d = (if js_length J (d_curseg_extents d) > 0
                 then d\<lparr>d_zone_segments := js_add J (d_zone_segments d)
                          (uint32_to_string_cast (ucast segment_id))
                          (js_add J (d_curseg d) ''extents'' (d_curseg_extents d))\<rparr>
                 else d)
        in bind_res (json_get_segment_info J c e segment_id) (\<lambda>si.
             Inr (d\<lparr>d_curseg := js_add J (js_object J) ''seg_info'' si,
                    d_curseg_extents := js_array J, d_curseg_id := ucast segment_id\<rparr>))
      else Inr d)"

definition json_add_extent_parts ::
    "nat \<Rightarrow> 'j json_api \<Rightarrow> control \<Rightarrow> extent \<Rightarrow> u64 \<Rightarrow> 'j dump_state \<Rightarrow> 'j dump_state res" where
  "json_add_extent_parts fuel J c e segment_id d =
     bind_res
       (if starts_inside c e
        then bind_res (json_get_beginning_segment_extent_info J c e) (\<lambda>x.
               Inr (segment_id + 1,
                    d\<lparr>d_curseg_extents := js_append J (d_curseg_extents d) (json_ext_info J x)\<rparr>))
        else Inr (segment_id, d)) (\<lambda>(segment_id, d).
     bind_res
       (if has_middle c e
        then bind_res (json_add_consecutive_segments_extent_info fuel J c e segment_id (d_zone_segments d))
               (\<lambda>zs. Inr (d\<lparr>d_zone_segments := zs\<rparr>))
        else Inr d) (\<lambda>d.
       if has_remainder c e
       then bind_res (json_add_remainder_segment_extent_info J c e (d_curseg_extents d))
              (\<lambda>xs. Inr (d\<lparr>d_curseg_extents := xs\<rparr>))
       else Inr d))"

definition json_dump_extent ::
    "nat \<Rightarrow> 'j json_api \<Rightarrow> control \<Rightarrow> extent \<Rightarrow> 'j dump_state \<Rightarrow> 'j dump_state res" where
  "json_dump_extent fuel J c e d =
     (let segment_id = segment_id_of c (phy_blk e);
          d = d\<lparr>d_current_zone := e_zone e\<rparr>
      in bind_res (json_change_segment J c e segment_id d) (\<lambda>d.
           if is_single c e
           then bind_res (json_get_extent_info J c e) (\<lambda>x.
                  Inr (d\<lparr>d_curseg_extents := js_append J (d_curseg_extents d) (json_ext_info J x),
                         d_cur_segment := (if segment_id \<noteq> d_cur_segment d then segment_id
                                           else d_cur_segment d)\<rparr>))
           else json_add_extent_parts fuel J c e segment_id d))"

fun json_dump_extents ::
    "nat \<Rightarrow> 'j json_api \<Rightarrow> control \<Rightarrow> extent list \<Rightarrow> 'j dump_state \<Rightarrow> 'j dump_state res" where
  "json_dump_extents fuel J c [] d = Inr d"
| "json_dump_extents 0 J c (e # es) d = Inl OutOfFuel"
| "json_dump_extents (Suc fuel) J c (e # es) d =
     (if report_end_lba c \<le> start_blk c e then Inr d
      else if start_blk c e < report_start_lba c then json_dump_extents fuel J c (e # es) d
      else bind_res (json_dump_extent fuel J c e d) (json_dump_extents fuel J c es))"

fun json_dump_zones ::
    "nat \<Rightarrow> 'j json_api \<Rightarrow> os \<Rightarrow> control \<Rightarrow> zone_map \<Rightarrow> nat list \<Rightarrow> 'j \<times> 'j dump_state \<Rightarrow> ('j \<times> 'j dump_state) res" where
  "json_dump_zones fuel J k c m [] s = Inr s"
| "json_dump_zones fuel J k c m (i # is) (zmap, d) =
     (if length (zones m) \<le> i then Inl OutOfBounds
      else if z_extent_ctr (zones m ! i) = 0 then json_dump_zones fuel J k c m is (zmap, d)
      else bind_res (json_dump_extents fuel J c (extents (zones m ! i)) (d\<lparr>d_zone_segments := js_object J\<rparr>)) (\<lambda>d.
           bind_res (json_get_zone_info J k c (d_current_zone d)) (\<lambda>zi.
             let zone = js_fields J [(''zone_info'', zi), (''segments'', d_zone_segments d)] (js_object J)
             in json_dump_zones fuel J k c m is
                  (js_add J zmap (uint32_to_string_cast (d_current_zone d)) zone, d))))"

definition json_dump_f2fs_zonemap :: "nat \<Rightarrow> 'j json_api \<Rightarrow> os \<Rightarrow> control \<Rightarrow> 'j \<Rightarrow> ('j \<times> control) res" where
  "json_dump_f2fs_zonemap fuel J k c root =
     (case zonemap c of
        None \<Rightarrow> Inl NullDeref
      | Some m \<Rightarrow>
          bind_res (json_dump_zones fuel J k c m [0..<unat (zm_nr_zones m)]
              (js_object J, \<lparr>d_current_zone = 0, d_curseg = js_object J, d_curseg_extents = js_array J,
                 d_curseg_id = 0, d_zone_segments = js_object J, d_cur_segment = cur_segment c\<rparr>))
            (\<lambda>(zmap, d). Inr (js_add J root ''zonemap'' zmap, c\<lparr>cur_segment := d_cur_segment d\<rparr>)))"

text \<open>\<open>json_object_to_file\<close> reports an error with -1; the test is for \<open>EXIT_FAILURE\<close>.\<close>

definition json_dump_data :: "nat \<Rightarrow> 'j json_api \<Rightarrow> u64 \<Rightarrow> os \<Rightarrow> control \<Rightarrow> ('j \<times> control) res" where
  "json_dump_data fuel J time k c =
     (let root = init_json_file J time c in
      bind_res (if fs_magic c = F2FS_MAGIC then json_dump_f2fs_zonemap fuel J k c root else Inr (root, c))
        (\<lambda>(root, c).
          if js_to_file J (json_file c) root = int (unat EXIT_FAILURE)
          then Inl (ErrExit ''Failed saving json data'') else Inr (root, c)))"

section \<open>The printed numbers\<close>

lemma hex_string_length_le: "n < 16 ^ Suc k \<Longrightarrow> length (hex_string n) \<le> Suc k"
  using length_show_base_le [of 16 n k] by (simp add: hex_string_def)

lemma hex_string_length_ge: "16 ^ k \<le> n \<Longrightarrow> Suc k \<le> length (hex_string n)"
  using length_show_base_ge [of 16 k n] by (simp add: hex_string_def)

lemma uint64_hex_exact:
  "uint64_to_hex_string_cast v = ''0x'' @ hex_string (unat v) \<longleftrightarrow> unat v < 2 ^ 48"
proof
  assume "unat v < 2 ^ 48"
  then have "length (hex_string (unat v)) \<le> 12" using hex_string_length_le [of "unat v" 11] by simp
  then show "uint64_to_hex_string_cast v = ''0x'' @ hex_string (unat v)"
    by (simp add: uint64_to_hex_string_cast_def snprintf_n_def)
next
  assume a: "uint64_to_hex_string_cast v = ''0x'' @ hex_string (unat v)"
  show "unat v < 2 ^ 48"
  proof (rule ccontr)
    assume "\<not> unat v < 2 ^ 48"
    then have "13 \<le> length (hex_string (unat v))" using hex_string_length_ge [of 12 "unat v"] by simp
    moreover have "length (uint64_to_hex_string_cast v) \<le> 14"
      by (simp add: uint64_to_hex_string_cast_def snprintf_n_def)
    ultimately show False using a by simp
  qed
qed

lemma uint32_hex_exact: "uint32_to_hex_string_cast v = ''0x'' @ hex_string (unat v)"
proof -
  have "unat v < 16 ^ Suc 7" using unat_lt32 [of v] by simp
  then have "length (hex_string (unat v)) \<le> 8" using hex_string_length_le [of "unat v" 7] by simp
  then show ?thesis by (simp add: uint32_to_hex_string_cast_def snprintf_n_def)
qed

lemma sint_small: "unat (v :: u32) < 2 ^ 31 \<Longrightarrow> sint v = int (unat v)"
proof -
  assume a: "unat v < 2 ^ 31"
  have "int (unat v) < int (2 ^ 31)" using a by (simp only: of_nat_less_iff)
  then have "uint v < 2 ^ 31" by simp
  then have "signed_take_bit 31 (uint v) = uint v"
    by (intro signed_take_bit_int_eq_self) (simp_all add: order_trans [of _ 0 "uint v"])
  then show ?thesis by (simp add: sint_uint)
qed

lemma uint32_string_exact:
  assumes "unat v < 2 ^ 31"
  shows "uint32_to_string_cast v = dec_string (unat v) \<longleftrightarrow> unat v < 1000"
proof -
  have d: "int_string (sint v) = dec_string (unat v)"
    by (simp add: int_string_def sint_small [OF assms])
  show ?thesis
  proof
    assume "unat v < 1000"
    then have "length (dec_string (unat v)) \<le> 3"
      using length_show_base_le [of 10 "unat v" 2] by (simp add: dec_string_def)
    then show "uint32_to_string_cast v = dec_string (unat v)"
      by (simp add: uint32_to_string_cast_def snprintf_n_def d)
  next
    assume a: "uint32_to_string_cast v = dec_string (unat v)"
    show "unat v < 1000"
    proof (rule ccontr)
      assume "\<not> unat v < 1000"
      then have "4 \<le> length (dec_string (unat v))"
        using length_show_base_ge [of 10 3 "unat v"] by (simp add: dec_string_def)
      moreover have "length (uint32_to_string_cast v) \<le> 3"
        by (simp add: uint32_to_string_cast_def snprintf_n_def)
      ultimately show False using a by simp
    qed
  qed
qed

section \<open>What does not reach the dump\<close>

text \<open>
  The extents of the segment the dump is collecting are added when the next segment begins, and
  under the number of that one. For extents that stay in one segment there is no next one.
\<close>

definition segments_left :: "'j json_api \<Rightarrow> u64 \<Rightarrow> 'j dump_state \<Rightarrow> 'j" where
  "segments_left J s d =
     (if ucast (d_curseg_id d) \<noteq> s \<and> 0 < js_length J (d_curseg_extents d)
      then js_add J (d_zone_segments d) (uint32_to_string_cast (ucast s))
             (js_add J (d_curseg d) ''extents'' (d_curseg_extents d))
      else d_zone_segments d)"

lemma json_dump_extent_same_segment:
  assumes "json_dump_extent fuel J c e d = Inr d'" "is_single c e" "unat (segment_id_of c (phy_blk e)) < 2 ^ 32"
  shows "d_zone_segments d' = segments_left J (segment_id_of c (phy_blk e)) d"
    "ucast (d_curseg_id d') = segment_id_of c (phy_blk e)"
proof -
  let ?s = "segment_id_of c (phy_blk e)"
  have u: "ucast (ucast ?s :: u32) = ?s"
    using assms(3) by (simp add: word_unat_eq_iff unat_ucast_mod)
  from assms(1) obtain d1 where d1: "json_change_segment J c e ?s (d\<lparr>d_current_zone := e_zone e\<rparr>) = Inr d1"
    "d_zone_segments d' = d_zone_segments d1" "d_curseg_id d' = d_curseg_id d1"
    using assms(2) by (auto simp: json_dump_extent_def Let_def bind_res_Inr_iff)
  have "d_zone_segments d1 = segments_left J ?s d \<and> ucast (d_curseg_id d1) = ?s"
    using d1(1) by (auto simp: json_change_segment_def segments_left_def Let_def bind_res_Inr_iff u split: if_splits)
  with d1 show "d_zone_segments d' = segments_left J ?s d" "ucast (d_curseg_id d') = ?s" by simp_all
qed

lemma json_dump_extents_same_segment:
  "json_dump_extents fuel J c es d = Inr d' \<Longrightarrow>
   \<forall>e\<in>set es. is_single c e \<and> segment_id_of c (phy_blk e) = s \<Longrightarrow> unat s < 2 ^ 32 \<Longrightarrow>
   ucast (d_curseg_id d) = s \<Longrightarrow> d_zone_segments d' = d_zone_segments d"
proof (induction fuel J c es d rule: json_dump_extents.induct)
  case (3 fuel J c e es d)
  show ?case
  proof (cases "report_end_lba c \<le> start_blk c e \<or> start_blk c e < report_start_lba c")
    case True
    with 3 show ?thesis by (auto split: if_splits)
  next
    case False
    with "3.prems"(1) obtain d1 where d1: "json_dump_extent fuel J c e d = Inr d1"
      "json_dump_extents fuel J c es d1 = Inr d'"
      by (auto simp: bind_res_Inr_iff)
    have "d_zone_segments d1 = d_zone_segments d" "ucast (d_curseg_id d1) = s"
      using json_dump_extent_same_segment [OF d1(1)] "3.prems"(2-4) by (simp_all add: segments_left_def)
    with "3.IH"(2) [OF _ _ d1] False "3.prems"(2,3) d1(2) show ?thesis by auto
  qed
qed simp_all

text \<open>In front of the range the dump does not return.\<close>

lemma json_dump_extents_front:
  "json_dump_extents fuel J c (e # es) d = Inr d' \<Longrightarrow> start_blk c e < report_end_lba c \<Longrightarrow>
   \<not> start_blk c e < report_start_lba c"
  by (induction fuel) (auto simp: not_le split: if_splits)

lemma json_dump_extents_left:
  assumes "json_dump_extents fuel J c es d = Inr d'"
    "\<forall>e\<in>set es. is_single c e \<and> segment_id_of c (phy_blk e) = s" "unat s < 2 ^ 32"
  shows "d_zone_segments d' =
    (if es \<noteq> [] \<and> start_blk c (hd es) < report_end_lba c then segments_left J s d else d_zone_segments d)"
proof (cases es)
  case Nil
  with assms(1) show ?thesis by simp
next
  case (Cons e es')
  with assms(1) obtain n where n: "fuel = Suc n" by (cases fuel) simp_all
  show ?thesis
  proof (cases "start_blk c e < report_end_lba c")
    case False
    then have "report_end_lba c \<le> start_blk c e" by simp
    with False assms(1) Cons n show ?thesis by simp
  next
    case True
    then have "\<not> report_end_lba c \<le> start_blk c e" "\<not> start_blk c e < report_start_lba c"
      using json_dump_extents_front [OF assms(1) [unfolded Cons] True] by auto
    with assms(1) Cons n obtain d1 where
      d1: "json_dump_extent n J c e d = Inr d1" "json_dump_extents n J c es' d1 = Inr d'"
      by (auto simp: bind_res_Inr_iff)
    have e: "is_single c e" "segment_id_of c (phy_blk e) = s" "\<forall>e\<in>set es'. is_single c e \<and> segment_id_of c (phy_blk e) = s"
      using assms(2) Cons by simp_all
    note x = json_dump_extent_same_segment [OF d1(1) e(1), unfolded e(2), OF assms(3)]
    from json_dump_extents_same_segment [OF d1(2) e(3) assms(3) x(2)] x(1) True Cons show ?thesis by simp
  qed
qed

section \<open>Properties\<close>

text \<open>C39. Numbers are written to the JSON document in full exactly as far as the buffers of the conversions
  reach: 64-bit numbers in hexadecimal below \<open>2 ^ 48\<close>, 32-bit numbers in hexadecimal always, and the
  numbers of segments and zones that are used as keys below 1000, so different segments can get the
  same key.\<close>

theorem json_numbers_exact:
  "(uint64_to_hex_string_cast v = ''0x'' @ hex_string (unat v) \<longleftrightarrow> unat v < 2 ^ 48) \<and>
   uint32_to_hex_string_cast w = ''0x'' @ hex_string (unat w) \<and>
   (unat w < 2 ^ 31 \<longrightarrow> (uint32_to_string_cast w = dec_string (unat w) \<longleftrightarrow> unat w < 1000))"
  using uint64_hex_exact uint32_hex_exact uint32_string_exact by blast

theorem json_numbers_exact_witness:
  "uint32_to_string_cast 12345 \<noteq> dec_string 12345 \<and> uint64_to_hex_string_cast 0x1234567890AB = ''0x1234567890ab''"
  using json_numbers_exact [of "0x1234567890AB" 12345] by (simp add: hex_string_def show_base.simps digit_char_def)

text \<open>C37. Extents that all lie in one segment, with a number below \<open>2 ^ 32\<close>, never reach the segments of their zone in the document: what is
  collected for a segment is only added when the next segment begins, and under the number of that one.
  The one member their walk can add is what the zones before left over, under the number of the
  segment of the extents. So the last segment of the dump is missing.\<close>

theorem json_last_segment_missing:
  assumes "json_dump_extents fuel J c es d = Inr d'"
    "\<forall>e\<in>set es. is_single c e \<and> segment_id_of c (phy_blk e) = s" "unat s < 2 ^ 32"
  shows "d_zone_segments d' =
    (if es \<noteq> [] \<and> start_blk c (hd es) < report_end_lba c \<and>
        ucast (d_curseg_id d) \<noteq> s \<and> 0 < js_length J (d_curseg_extents d)
     then js_add J (d_zone_segments d) (uint32_to_string_cast (ucast s))
            (js_add J (d_curseg d) ''extents'' (d_curseg_extents d))
     else d_zone_segments d)"
  using json_dump_extents_left [OF assms] by (simp add: segments_left_def)

end
