(* ===== verification/Getopt.thy ===== *)
theory Getopt
  imports Prelude
begin

text \<open>
  \<open>getopt\<close> of the C library as the three \<open>main\<close> functions call it, in a loop until it returns
  -1: the options in the order they are returned, each with its argument. The option string
  lists the letters, each followed by a colon when it takes an argument. An argument is the
  rest of the word or, when there is none, the next word; an unknown letter, or a missing
  argument, is \<open>?\<close>; words that are not options are passed over, as the GNU library does, and \<open>--\<close> ends the options.
\<close>

section \<open>Options of a command line\<close>

datatype opt_kind = Unknown_Option | Plain_Option | Argument_Option

fun option_kind :: "string \<Rightarrow> char \<Rightarrow> opt_kind" where
  "option_kind [] ch = Unknown_Option"
| "option_kind (x # spec) ch =
     (if ch = CHR '':'' then Unknown_Option
      else if x = ch then (if take 1 spec = '':'' then Argument_Option else Plain_Option)
      else option_kind spec ch)"

text \<open>The letters of one word; \<open>rest\<close> are the words after it.\<close>

fun getopt_word :: "string \<Rightarrow> string \<Rightarrow> string list \<Rightarrow> (char \<times> string) list \<times> string list" where
  "getopt_word spec [] rest = ([], rest)"
| "getopt_word spec (ch # s) rest =
     (case option_kind spec ch of
        Unknown_Option \<Rightarrow> apfst (Cons (CHR ''?'', [])) (getopt_word spec s rest)
      | Plain_Option \<Rightarrow> apfst (Cons (ch, [])) (getopt_word spec s rest)
      | Argument_Option \<Rightarrow>
          if s \<noteq> [] then ([(ch, s)], rest)
          else (case rest of [] \<Rightarrow> ([(CHR ''?'', [])], []) | a # rest \<Rightarrow> ([(ch, a)], rest)))"

lemma length_getopt_word: "length (snd (getopt_word spec s rest)) \<le> length rest"
  by (induction spec s rest rule: getopt_word.induct) (auto split: opt_kind.split list.split)

definition is_option :: "string \<Rightarrow> bool" where
  "is_option w \<longleftrightarrow> take 1 w = ''-'' \<and> 1 < length w"

function getopt :: "string \<Rightarrow> string list \<Rightarrow> (char \<times> string) list" where
  "getopt spec [] = []"
| "getopt spec (w # rest) =
     (if w = ''--'' then []
      else if is_option w
      then fst (getopt_word spec (tl w) rest) @ getopt spec (snd (getopt_word spec (tl w) rest))
      else getopt spec rest)"
  by pat_completeness auto
termination
  by (relation "measure (\<lambda>(spec, ws). length ws)") (simp_all add: less_Suc_eq_le length_getopt_word)

section \<open>Written options are read back\<close>

text \<open>An option as its own word, its argument as the next one.\<close>

fun option_words :: "string \<Rightarrow> char \<times> string \<Rightarrow> string list" where
  "option_words spec (o', arg) =
     (if option_kind spec o' = Argument_Option then [[CHR ''-'', o'], arg] else [[CHR ''-'', o']])"

definition valid_option :: "string \<Rightarrow> char \<times> string \<Rightarrow> bool" where
  "valid_option spec opt \<longleftrightarrow> fst opt \<noteq> CHR ''-'' \<and> option_kind spec (fst opt) \<noteq> Unknown_Option \<and>
     (option_kind spec (fst opt) = Plain_Option \<longrightarrow> snd opt = [])"

lemma getopt_option: "valid_option spec opt \<Longrightarrow> getopt spec (option_words spec opt @ ws) = opt # getopt spec ws"
  by (cases opt; cases "option_kind spec (fst opt)") (simp_all add: valid_option_def is_option_def)

lemma getopt_words:
  "\<forall>opt\<in>set opts. valid_option spec opt \<Longrightarrow>
   getopt spec (concat (map (option_words spec) opts) @ ws) = opts @ getopt spec ws"
  by (induction opts) (simp_all add: getopt_option)

text \<open>Other words are passed over: where the file names stand makes no difference.\<close>

lemma getopt_operands: "\<forall>w\<in>set ws. \<not> is_option w \<and> w \<noteq> ''--'' \<Longrightarrow> getopt spec (ws @ rest) = getopt spec rest"
  by (induction ws) simp_all

section \<open>Help texts\<close>

text \<open>
  The options a help text documents are the letters of the first columns that begin with a dash; a
  longer column names an argument.
\<close>

definition option_lines :: "help_text \<Rightarrow> string list" where
  "option_lines h = filter is_option (map fst h)"

definition documented :: "help_text \<Rightarrow> char set" where
  "documented h = (\<lambda>w. w ! 1) ` set (option_lines h)"

definition documented_argument :: "help_text \<Rightarrow> char set" where
  "documented_argument h = (\<lambda>w. w ! 1) ` {w \<in> set (option_lines h). 2 < length w}"

end
