(* ===== verification/Fiemap_Report.thy ===== *)
theory Fiemap_Report
  imports Geometry Getopt
begin

text \<open>
  \<open>print_fiemap_report\<close> of \<open>lib/libzns-tools.c\<close> and the tool \<open>zns.fiemap\<close>
  (\<open>src/fiemap.c\<close>), with its help text. The exact average \<open>EAES\<close>/\<open>EAHS\<close>, a floating-point value, is left out
  of the printed lines.
\<close>

section \<open>The report\<close>

record hole_stats =
  hole_ctr :: u32
  hole_cum_size :: u64

definition add_hole :: "u64 \<times> u64 \<Rightarrow> hole_stats \<times> control \<Rightarrow> hole_stats \<times> control" where
  "add_hole = (\<lambda>(a, b) (h, c).
     (h\<lparr>hole_cum_size := hole_cum_size h + (b - a), hole_ctr := hole_ctr h + 1\<rparr>,
      msg (HoleLine a b (b - a)) c))"

text \<open>
  The three tests for a hole, each with the start and the end it prints: between two extents
  of a zone, in front of the first extent of a zone, and after the last extent of a zone.
\<close>

definition between_hole :: "control \<Rightarrow> extent option \<Rightarrow> extent \<Rightarrow> (u64 \<times> u64) list" where
  "between_hole c prev cur =
     (case prev of
        None \<Rightarrow> []
      | Some p \<Rightarrow>
          if show_holes c \<and> phy_blk p + e_len p \<noteq> phy_blk cur \<and> e_zone p = e_zone cur
          then [(phy_blk p + e_len p, phy_blk cur)] else [])"

definition start_hole :: "control \<Rightarrow> extent option \<Rightarrow> bool \<Rightarrow> extent \<Rightarrow> (u64 \<times> u64) list" where
  "start_hole c prev has_next cur =
     (case prev of
        None \<Rightarrow> []
      | Some p \<Rightarrow>
          if show_holes c \<and> has_next \<and> zone_lbas cur \<noteq> phy_blk cur \<and> e_zone p \<noteq> e_zone cur
          then [(zone_lbas cur, phy_blk cur)] else [])"

definition end_hole :: "control \<Rightarrow> bool \<Rightarrow> extent \<Rightarrow> (u64 \<times> u64) list" where
  "end_hole c has_next cur =
     (let pbae = phy_blk cur + e_len cur in
      if show_holes c \<and> \<not> has_next \<and> pbae \<noteq> zone_lbae cur \<and> pbae < zone_wp cur
      then [(pbae, if zone_wp cur < zone_lbae cur then zone_wp cur else zone_lbae cur)] else [])"

fun report_extents ::
    "extent list \<Rightarrow> extent option \<times> hole_stats \<times> control \<Rightarrow> extent option \<times> hole_stats \<times> control" where
  "report_extents [] s = s"
| "report_extents (cur # rest) (prev, h, c) =
     (let (h, c) = fold add_hole (between_hole c prev cur) (h, c);
          (h, c) = fold add_hole (start_hole c prev (rest \<noteq> []) cur) (h, c);
          c = msg (ExtentLine (ext_nr cur + 1) (phy_blk cur) (phy_blk cur + e_len cur) (e_len cur)) c;
          c = (if e_flags cur \<noteq> 0 \<and> show_flags c then msg (show_extent_flags (e_flags cur)) c else c);
          (h, c) = fold add_hole (end_hole c (rest \<noteq> []) cur) (h, c)
      in report_extents rest (Some cur, h, c))"

fun report_zones :: "os \<Rightarrow> zone_map \<Rightarrow> nat list \<Rightarrow> extent option \<times> hole_stats \<times> control
    \<Rightarrow> (extent option \<times> hole_stats \<times> control) res" where
  "report_zones k m [] s = Inr s"
| "report_zones k m (i # is) (prev, h, c) =
     (if length (zones m) \<le> i then Inl OutOfBounds
      else if z_extent_ctr (zones m ! i) = 0 then report_zones k m is (prev, h, c)
      else bind_res (print_zone_info k (of_nat i) c) (\<lambda>c.
             report_zones k m is (report_extents (extents (zones m ! i)) (prev, h, c))))"

definition report_stats :: "zone_map \<Rightarrow> hole_stats \<Rightarrow> control \<Rightarrow> control res" where
  "report_stats m h c =
     (if zm_extent_ctr m = 0 then Inl DivByZero
      else
        let c = msg (StatsLine (zm_extent_ctr m) (cum_extent_size m)
                       (cum_extent_size m div zm_extent_ctr m) (zone_ctr m)) c
        in Inr (if show_holes c \<and> hole_ctr h > 0
                then msg (HoleStats (hole_ctr h) (hole_cum_size h)
                            (hole_cum_size h div ucast (hole_ctr h))) c
                else if show_holes c \<and> hole_ctr h = 0 then msg (Text ''NOH: 0'') c
                else c))"

definition print_fiemap_report :: "os \<Rightarrow> control \<Rightarrow> control res" where
  "print_fiemap_report k c =
     (case zonemap c of
        None \<Rightarrow> Inl NullDeref
      | Some m \<Rightarrow>
          bind_res (report_zones k m [0..<unat (zm_nr_zones m)]
                      (None, \<lparr>hole_ctr = 0, hole_cum_size = 0\<rparr>, msg (Text ''EXTENT MAPPINGS'') c))
            (\<lambda>(prev, h, c). report_stats m h (msg (Text ''STATS SUMMARY'') c)))"

section \<open>The tool\<close>

text \<open>
  The help text, with its columns; then the options as \<open>getopt\<close> returns them and the
  \<open>switch\<close> handles them. \<open>cleanup_ctrl\<close> frees the lists and the counters.
\<close>

definition fiemap_show_info :: help_text where
  "fiemap_show_info =
    [(''ACRONYM INFO'', ''''),
     (''Info:'', ''Extents are sorted by PBAS but have an associated Extent Number to indicate the logical order of file data.''),
     (''LBAS:'', ''Logical Block Address Start (for the Zone)''),
     (''LBAE:'', ''Logical Block Address End (for the Zone, equal to LBAS + ZONE CAP)''),
     (''CAP:'', ''Zone Capacity (in 512B sectors)''),
     (''WP:'', ''Write Pointer of the Zone''),
     (''SIZE:'', ''Size of the Zone (in 512B sectors)''),
     (''STATE:'', ''State of a zone (e.g, FULL, EMPTY)''),
     (''MASK:'', ''The Zone Mask that is used to calculate LBAS of LBA addresses in a zone''),
     (''EXTID:'', ''Extent number in the order of the extents returned by ioctl(), depciting logical file data ordering''),
     (''PBAS:'', ''Physical Block Address Start''),
     (''PBAE:'', ''Physical Block Address End''),
     (''NOE:'', ''Number of Extent''),
     (''TES:'', ''Total Extent Size (in 512B sectors''),
     (''AES:'', ''Average Extent Size (floored value due to hex print, in 512B sectors)''),
     ('''', ''[Meant for easier comparison with Extent Sizes''),
     (''EAES:'', ''Exact Average Extent Size (double point precision value, in 512B sectors''),
     ('''', ''[Meant for exact calculations of average extent sizes''),
     (''NOZ:'', ''Number of Zones (in which extents are''),
     (''NOH:'', ''Number of Holes''),
     (''THS:'', ''Total Hole Size (in 512B sectors''),
     (''AHS:'', ''Average Hole Size (floored value due to hex print, in 512B sectors)''),
     (''EAHS:'', ''Exact Average Hole Size (double point precision value, in 512B sectors'')]"

definition fiemap_show_help :: help_text where
  "fiemap_show_help =
    [(''Possible flags are:'', ''''),
     (''-f [file]'', ''Input file to map [Required]''),
     (''-h'', ''Show this help''),
     (''-w'', ''Show Extent FLAGS''),
     (''-s'', ''Show file holes''),
     (''-l [Int]'', ''Log Level to print''),
     (''-s'', ''Show file holes'')] @ fiemap_show_info"

definition fiemap_optstring :: string where
  "fiemap_optstring = ''f:hil:sw''"

fun fiemap_options :: "(char \<times> string) list \<Rightarrow> string option \<times> control \<Rightarrow> (string option \<times> control) res" where
  "fiemap_options [] s = Inr s"
| "fiemap_options ((o', arg) # rest) (file, c) =
     (if o' = CHR ''f'' then fiemap_options rest (Some arg, c)
      else if o' = CHR ''w'' then fiemap_options rest (file, c\<lparr>show_flags := True\<rparr>)
      else if o' = CHR ''l'' then fiemap_options rest (file, c\<lparr>log_level := of_int (atoi arg)\<rparr>)
      else if o' = CHR ''s'' then fiemap_options rest (file, c\<lparr>show_holes := True\<rparr>)
      else Inl (HelpExit fiemap_show_help))"

definition cleanup_ctrl :: "control \<Rightarrow> control res" where
  "cleanup_ctrl c =
     (case zonemap c of
        None \<Rightarrow> Inl NullDeref
      | Some m \<Rightarrow> Inr (c\<lparr>zonemap := Some (m\<lparr>zones := map (\<lambda>z. z\<lparr>extents := []\<rparr>) (zones m)\<rparr>),
                         file_counter_map := None\<rparr>))"

text \<open>\<open>args\<close> are the words after the name of the program.\<close>

definition fiemap_main :: "nat \<Rightarrow> os \<Rightarrow> string list \<Rightarrow> control res" where
  "fiemap_main fuel k args =
     bind_res (fiemap_options (getopt fiemap_optstring args) (None, zero_control)) (\<lambda>(file, c).
       case file of
         None \<Rightarrow> Inl (HelpExit ((''Missing file option'', []) # fiemap_show_help))
       | Some filename \<Rightarrow>
           if \<not> os_open k filename then Inl (ErrExit ''Failed opening fd'')
           else case os_stat k filename of
             None \<Rightarrow> Inl (ErrExit ''Failed stat on file'')
           | Some st \<Rightarrow>
               bind_res (init_ctrl k filename st zero_f2fs_lib c) (\<lambda>(l, c).
               bind_res (get_extents fuel k filename st c) (\<lambda>(ret, c).
                 if ret = EXIT_FAILURE then Inl (ErrExit ''retrieving extents'')
                 else case zonemap c of
                   None \<Rightarrow> Inl NullDeref
                 | Some m \<Rightarrow>
                     if zm_extent_ctr m = 0 then Inl (ErrExit ''No extents found on device'')
                     else bind_res (print_fiemap_report k c) cleanup_ctrl)))"

end
