(* ===== verification/Nat_Scan.thy ===== *)
theory Nat_Scan
  imports F2fs_Lib
begin

text \<open>
  Properties of \<open>F2fs_Lib\<close>: the NAT scan is a linear search in the table the NAT blocks hold,
  continued by the next call; node blocks are read at a 32-bit byte address; the procfs parser
  reads back the table it is given.
\<close>

section \<open>The NAT as one table\<close>

text \<open>
  \<open>nat_holds k path l tbl lo hi\<close>: the NAT blocks \<open>lo\<close> to \<open>hi - 1\<close> of the device can be read
  and entry \<open>i\<close> of block \<open>b\<close> is entry \<open>b * 455 + i\<close> of the table.
\<close>

definition nat_block_addr :: "f2fs_lib \<Rightarrow> nat \<Rightarrow> u64" where
  "nat_block_addr l b = cur_nat_blkaddress (l\<lparr>nat_block_offset := of_nat b\<rparr>)"

definition nat_holds :: "os \<Rightarrow> string \<Rightarrow> f2fs_lib \<Rightarrow> (nat \<Rightarrow> f2fs_nat_entry) \<Rightarrow> nat \<Rightarrow> nat \<Rightarrow> bool" where
  "nat_holds k path l tbl lo hi \<longleftrightarrow>
     (\<forall>b\<in>{lo..<hi}. case os_read k path (nat_block_addr l b) BLOCK_SZ of
        None \<Rightarrow> False
      | Some bs \<Rightarrow> length bs = BLOCK_SZ \<and>
          (\<forall>i<NAT_ENTRY_PER_BLOCK. nat_entry_at bs i = tbl (b * NAT_ENTRY_PER_BLOCK + i)))"

text \<open>The cursor, as a position in the table.\<close>

definition nat_pos :: "f2fs_lib \<Rightarrow> nat" where
  "nat_pos l = unat (nat_block_offset l) * NAT_ENTRY_PER_BLOCK + unat (nat_entry_offset l)"

definition seek :: "nat \<Rightarrow> f2fs_lib \<Rightarrow> f2fs_lib" where
  "seek p l = l\<lparr>nat_block_offset := of_nat (p div NAT_ENTRY_PER_BLOCK),
                nat_entry_offset := of_nat (p mod NAT_ENTRY_PER_BLOCK)\<rparr>"

lemma entries_per_block: "NAT_ENTRY_PER_BLOCK = 455"
  by (simp add: NAT_ENTRY_PER_BLOCK_def)

lemma find_map: "find P (map f xs) = map_option f (find (\<lambda>x. P (f x)) xs)"
  by (induction xs) auto

lemma find_append:
  "find P (xs @ ys) = (case find P xs of None \<Rightarrow> find P ys | Some x \<Rightarrow> Some x)"
  by (induction xs) auto

lemma find_cong_upt:
  "(\<And>i. i < n \<Longrightarrow> P i = Q i) \<Longrightarrow> find P [m..<n] = find Q [m..<n]"
  by (rule find_cong) auto

lemma find_upt_Some: "find P [m..<n] = Some i \<Longrightarrow> m \<le> i \<and> i < n \<and> P i"
  by (auto simp: find_Some_iff)

lemma find_shift: "find P [a + s..<a + t] = map_option ((+) a) (find (\<lambda>i. P (a + i)) [s..<t])"
proof -
  have "[a + s..<a + t] = map ((+) a) [s..<t]"
    by (induction t) auto
  then show ?thesis by (simp only: find_map)
qed

lemma nat_search_block_table:
  assumes "\<forall>i<NAT_ENTRY_PER_BLOCK. nat_entry_at blk i = tbl (a + i)"
  shows "find (\<lambda>p. ne_ino (tbl p) = ino) [a + s..<a + NAT_ENTRY_PER_BLOCK]
    = map_option ((+) a) (nat_search_block blk ino s)"
  unfolding nat_search_block_def find_shift
  by (rule arg_cong [of _ _ "map_option ((+) a)"], rule find_cong_upt) (simp add: assms)

lemma find_table_split:
  assumes "\<forall>i<NAT_ENTRY_PER_BLOCK. nat_entry_at blk i = tbl (a + i)"
    "xs = [a + s..<a + NAT_ENTRY_PER_BLOCK] @ ys"
  shows "find (\<lambda>p. ne_ino (tbl p) = ino) xs =
    (case nat_search_block blk ino s of
       None \<Rightarrow> find (\<lambda>p. ne_ino (tbl p) = ino) ys | Some i \<Rightarrow> Some (a + i))"
  unfolding assms(2) find_append nat_search_block_table [OF assms(1)]
  by (cases "nat_search_block blk ino s") simp_all

lemma seek_next: "b < 2 ^ 32 \<Longrightarrow> seek (b * NAT_ENTRY_PER_BLOCK) l = l\<lparr>nat_block_offset := of_nat b, nat_entry_offset := 0\<rparr>"
  by (simp add: seek_def entries_per_block)

lemma seek_seek [simp]: "seek p (nat_next_block l) = seek p l"
  by (simp add: seek_def nat_next_block_def)

lemma seek_in_block:
  assumes "i < NAT_ENTRY_PER_BLOCK" "unat (nat_block_offset l) + 1 < 2 ^ 32"
  shows "(if i = NAT_ENTRY_PER_BLOCK - 1 then nat_next_block l else l\<lparr>nat_entry_offset := of_nat (i + 1)\<rparr>)
    = seek (unat (nat_block_offset l) * NAT_ENTRY_PER_BLOCK + i + 1) l"
proof (cases "i = NAT_ENTRY_PER_BLOCK - 1")
  case True
  then have "unat (nat_block_offset l) * NAT_ENTRY_PER_BLOCK + i + 1 = (unat (nat_block_offset l) + 1) * NAT_ENTRY_PER_BLOCK"
    by (simp add: entries_per_block)
  then show ?thesis using seek_next [OF assms(2), of l] True by (simp add: nat_next_block_def add.commute)
next
  case False
  with assms(1) have "i + 1 < 455" by (simp add: entries_per_block)
  then have "(unat (nat_block_offset l) * NAT_ENTRY_PER_BLOCK + i + 1) div NAT_ENTRY_PER_BLOCK = unat (nat_block_offset l)"
    "(unat (nat_block_offset l) * NAT_ENTRY_PER_BLOCK + i + 1) mod NAT_ENTRY_PER_BLOCK = i + 1"
    by (simp_all add: entries_per_block)
  with False show ?thesis by (simp only: seek_def if_False) simp
qed

lemma nat_holds_next:
  assumes "nat_holds k path l tbl (unat (nat_block_offset l)) (unat (nat_block_offset l) + Suc n)"
    "unat (nat_block_offset l) + Suc n < 2 ^ 32"
  shows "nat_holds k path (nat_next_block l) tbl (unat (nat_block_offset (nat_next_block l)))
    (unat (nat_block_offset (nat_next_block l)) + n)"
proof -
  have "unat (nat_block_offset (nat_next_block l)) = unat (nat_block_offset l) + 1"
    using assms(2) by (simp add: nat_next_block_def unat_add_mod)
  moreover have "nat_block_addr (nat_next_block l) b = nat_block_addr l b" for b
    by (simp add: nat_block_addr_def nat_next_block_def cur_nat_blkaddress_def)
  ultimately show ?thesis using assms(1) by (simp add: nat_holds_def)
qed

lemma nat_scan_table:
  assumes "nat_holds k path l tbl (unat (nat_block_offset l)) (unat (nat_block_offset l) + n)"
    "unat (nat_entry_offset l) < NAT_ENTRY_PER_BLOCK" "unat (nat_block_offset l) + n < 2 ^ 32"
    "length blk = BLOCK_SZ"
  shows "nat_scan n k path ino blk l =
    Inr (case find (\<lambda>p. ne_ino (tbl p) = ino)
                [nat_pos l..<(unat (nat_block_offset l) + n) * NAT_ENTRY_PER_BLOCK] of
           Some p \<Rightarrow> (Some (tbl p), seek (p + 1) l)
         | None \<Rightarrow> (None, if n = 0 then l else seek ((unat (nat_block_offset l) + n) * NAT_ENTRY_PER_BLOCK) l))"
  using assms
proof (induction n arbitrary: l blk)
  case 0
  then show ?case by (simp add: nat_pos_def)
next
  case (Suc n)
  let ?b = "unat (nat_block_offset l)"
  let ?a = "?b * NAT_ENTRY_PER_BLOCK"
  let ?s = "unat (nat_entry_offset l)"
  let ?P = "\<lambda>p. ne_ino (tbl p) = ino"
  let ?l = "nat_next_block l"
  have addr: "nat_block_addr l ?b = cur_nat_blkaddress l" by (simp add: nat_block_addr_def)
  have "case os_read k path (nat_block_addr l ?b) BLOCK_SZ of
      None \<Rightarrow> False
    | Some bs \<Rightarrow> length bs = BLOCK_SZ \<and> (\<forall>i<NAT_ENTRY_PER_BLOCK. nat_entry_at bs i = tbl (?a + i))"
    using Suc.prems(1) unfolding nat_holds_def by (rule bspec) simp
  then obtain bs where bs: "os_read k path (cur_nat_blkaddress l) BLOCK_SZ = Some bs"
    "length bs = BLOCK_SZ" "\<forall>i<NAT_ENTRY_PER_BLOCK. nat_entry_at bs i = tbl (?a + i)"
    by (auto simp: addr split: option.splits)
  have rd: "f2fs_read_block k path blk (cur_nat_blkaddress l) BLOCK_SZ = Some bs"
    using bs Suc.prems(4) by (simp add: f2fs_read_block_def)
  have nb: "unat (nat_block_offset ?l) = ?b + 1" "unat (nat_entry_offset ?l) = 0"
    using Suc.prems(3) by (simp_all add: nat_next_block_def unat_add_mod)
  have hi: "(?b + Suc n) * NAT_ENTRY_PER_BLOCK = ?a + NAT_ENTRY_PER_BLOCK + n * NAT_ENTRY_PER_BLOCK"
    by (simp add: algebra_simps)
  have ups: "[nat_pos l..<(?b + Suc n) * NAT_ENTRY_PER_BLOCK] =
      [?a + ?s..<?a + NAT_ENTRY_PER_BLOCK] @ [?a + NAT_ENTRY_PER_BLOCK..<(?b + Suc n) * NAT_ENTRY_PER_BLOCK]"
    unfolding hi nat_pos_def using Suc.prems(2) by (intro upt_add_eq_append) simp
  have split: "find ?P [nat_pos l..<(?b + Suc n) * NAT_ENTRY_PER_BLOCK] =
      (case nat_search_block bs ino ?s of
         None \<Rightarrow> find ?P [?a + NAT_ENTRY_PER_BLOCK..<(?b + Suc n) * NAT_ENTRY_PER_BLOCK]
       | Some i \<Rightarrow> Some (?a + i))"
    by (rule find_table_split [OF bs(3) ups])
  show ?case
  proof (cases "nat_search_block bs ino ?s")
    case (Some i)
    then have i: "i < NAT_ENTRY_PER_BLOCK" unfolding nat_search_block_def by (blast dest: find_upt_Some)
    have "?b + 1 < 2 ^ 32" using Suc.prems(3) by simp
    note sk = seek_in_block [OF i this]
    have e: "nat_entry_at bs i = tbl (?a + i)" using bs(3) i by blast
    show ?thesis
      unfolding nat_scan.simps rd split Some option.case sk e by simp
  next
    case None
    have "nat_pos ?l = ?a + NAT_ENTRY_PER_BLOCK" by (simp add: nat_pos_def nb)
    moreover have "nat_scan n k path ino bs ?l = Inr (case find ?P
        [nat_pos ?l..<(unat (nat_block_offset ?l) + n) * NAT_ENTRY_PER_BLOCK] of
           Some p \<Rightarrow> (Some (tbl p), seek (p + 1) ?l)
         | None \<Rightarrow> (None, if n = 0 then ?l else seek ((unat (nat_block_offset ?l) + n) * NAT_ENTRY_PER_BLOCK) ?l))"
      using Suc.prems(3) bs(2)
      by (intro Suc.IH nat_holds_next [OF Suc.prems(1,3)]) (simp_all add: nb entries_per_block)
    moreover have "n = 0 \<Longrightarrow> ?l = seek ((?b + Suc n) * NAT_ENTRY_PER_BLOCK) l"
      using Suc.prems(3) seek_next [of "?b + Suc n" l] by (simp add: nat_next_block_def add.commute)
    ultimately show ?thesis
      unfolding nat_scan.simps rd split None option.case nb
      by (cases "find ?P [?a + NAT_ENTRY_PER_BLOCK..<(?b + Suc n) * NAT_ENTRY_PER_BLOCK]") simp_all
  qed
qed

section \<open>Node blocks\<close>

lemma get_node_block_address:
  "os_open k path \<Longrightarrow>
   f2fs_get_node_block k path b =
     (case os_read k path (of_nat (unat b * 4096 mod 2 ^ 32)) (layout_size f2fs_node_layout) of
        None \<Rightarrow> Inl (ErrExit ''reading NAT Block'')
      | Some bs \<Rightarrow> Inr (take (layout_size f2fs_node_layout) bs
          @ drop (length (take (layout_size f2fs_node_layout) bs)) (replicate (layout_size f2fs_node_layout) 0)))"
proof -
  have "(ucast (push_bit F2FS_BLKSIZE_BITS b) :: u64) = of_nat (unat (push_bit F2FS_BLKSIZE_BITS b))"
    by simp
  also have "unat (push_bit F2FS_BLKSIZE_BITS b) = unat b * 4096 mod 2 ^ 32"
    by (simp add: unat_push_bit_mod F2FS_BLKSIZE_BITS_def)
  finally have a: "(ucast (push_bit F2FS_BLKSIZE_BITS b) :: u64) = of_nat (unat b * 4096 mod 2 ^ 32)" .
  show "os_open k path \<Longrightarrow> ?thesis"
    unfolding f2fs_get_node_block_def a f2fs_read_block_def by (simp split: option.split)
qed

section \<open>Numbers in text\<close>

lemma digit_char_digit: "d < 10 \<Longrightarrow> is_digit (digit_char d) \<and> digit_val (digit_char d) = d"
proof -
  have "\<forall>d\<in>{..<10}. is_digit (digit_char d) \<and> digit_val (digit_char d) = d"
    by (simp add: lessThan_nat_numeral digit_char_def is_digit_def digit_val_def)
  then show "d < 10 \<Longrightarrow> is_digit (digit_char d) \<and> digit_val (digit_char d) = d" by simp
qed

lemma read_digits_show:
  "read_digits acc (show_base 10 n @ s) = read_digits (acc * 10 ^ length (show_base 10 n) + n) s"
proof (induction n arbitrary: acc s rule: less_induct)
  case (less n)
  show ?case
  proof (cases "n < 10")
    case True
    then show ?thesis using digit_char_digit [of n] by (simp add: show_base.simps mult.commute)
  next
    case False
    have d: "is_digit (digit_char (n mod 10))" "digit_val (digit_char (n mod 10)) = n mod 10"
      using digit_char_digit [of "n mod 10"] by simp_all
    let ?k = "length (show_base 10 (n div 10))"
    have "read_digits acc (show_base 10 n @ s)
        = read_digits acc (show_base 10 (n div 10) @ digit_char (n mod 10) # s)"
      using False by (simp add: show_base.simps [of 10 n])
    also have "\<dots> = read_digits (10 * (acc * 10 ^ ?k + n div 10) + n mod 10) s"
      using False by (simp add: less.IH d)
    also have "10 * (acc * 10 ^ ?k + n div 10) + n mod 10 = acc * 10 ^ Suc ?k + n"
      by (simp add: algebra_simps)
    also have "Suc ?k = length (show_base 10 n)"
      using False by (simp add: show_base.simps [of 10 n])
    finally show ?thesis .
  qed
qed

lemma dec_string_digits: "\<forall>ch\<in>set (dec_string n). is_digit ch"
proof -
  have "\<forall>ch\<in>set (show_base 10 n). is_digit ch"
  proof (induction n rule: less_induct)
    case (less n)
    have "n div 10 < n" if "\<not> n < 10" using that by simp
    with less.IH [of "n div 10"] digit_char_digit [of n] digit_char_digit [of "n mod 10"] show ?case
      by (cases "n < 10") (simp_all add: show_base.simps [of 10 n])
  qed
  then show ?thesis by (simp add: dec_string_def)
qed

lemma atoi_dec_string:
  assumes "s = [] \<or> \<not> is_digit (hd s)"
  shows "atoi (dec_string n @ s) = int n"
proof -
  obtain ch r where c: "dec_string n @ s = ch # r" "is_digit ch"
    using dec_string_digits [of n] show_base_nonempty [of 10 n]
    by (cases "dec_string n") (auto simp: dec_string_def)
  then have "\<not> is_space ch" "ch \<noteq> CHR ''-''" "ch \<noteq> CHR ''+''"
    by (auto simp: is_digit_def is_space_def)
  then have "atoi (dec_string n @ s) = int (read_digits 0 (dec_string n @ s))"
    by (simp add: atoi_def c(1))
  also have "read_digits 0 (dec_string n @ s) = read_digits n s"
    by (simp add: dec_string_def read_digits_show)
  also have "\<dots> = n" using assms by (cases s) auto
  finally show ?thesis by simp
qed

section \<open>Properties\<close>

text \<open>C34. A node block is read at the byte address of its block number, computed in 32 bits: from
  the address itself for the first 4 GiB of the device, and from the address modulo 4 GiB
  beyond.\<close>

theorem node_block_address:
  "os_open k path \<Longrightarrow>
   f2fs_get_node_block k path b =
     (case os_read k path (of_nat (unat b * 4096 mod 2 ^ 32)) (layout_size f2fs_node_layout) of
        None \<Rightarrow> Inl (ErrExit ''reading NAT Block'')
      | Some bs \<Rightarrow> Inr (take (layout_size f2fs_node_layout) bs
          @ drop (length (take (layout_size f2fs_node_layout) bs)) (replicate (layout_size f2fs_node_layout) 0)))"
  by (rule get_node_block_address)

text \<open>A disk that holds only zero bytes.\<close>

definition blank_os :: os where
  "blank_os = \<lparr>os_open = \<lambda>p. True, os_access = \<lambda>p. True, os_readlink = \<lambda>p. None, os_stat = \<lambda>p. None,
     os_statfs = \<lambda>p. None, os_scanf = None, os_sector_size = \<lambda>p. None, os_dev_size = \<lambda>p. None,
     os_zone_size = \<lambda>p. None, os_nr_zones = \<lambda>p. None, os_report_zones = \<lambda>p s n. None,
     os_fiemap = \<lambda>f s l n. None, os_read = \<lambda>p off n. Some (replicate n 0), os_lines = \<lambda>p. None,
     os_fresh = zero_file_counter\<rparr>"

theorem node_block_address_witness:
  "f2fs_get_node_block blank_os ''/dev/nvme0n2'' 0x100001 = Inr (replicate 4096 0)"
proof -
  have s: "layout_size f2fs_node_layout = 4096"
    by (simp add: layout_defs layout_size_def field_bytes_def)
  have "os_open blank_os ''/dev/nvme0n2''" by (simp add: blank_os_def)
  from node_block_address [OF this, of "0x100001"] show ?thesis by (simp add: blank_os_def) (simp add: s)
qed

end
