(* ===== verification/Procfs.thy ===== *)
theory Procfs
  imports Nat_Scan
begin

text \<open>
  The procfs parser of \<open>F2fs_Lib\<close> reads back the table in the format the comment of
  \<open>init_procfs_segment_bits\<close> relies on: two header lines, then rows of a label and of
  \<open>type|valid_blocks\<close> entries separated by blanks.
\<close>

section \<open>Cutting strings\<close>

lemma split_on_nonempty: "split_on sep s \<noteq> []"
  by (induction s) (auto split: list.split)

lemma split_on_none: "\<forall>ch\<in>set s. \<not> sep ch \<Longrightarrow> split_on sep s = [s]"
  by (induction s) auto

lemma split_on_append: "sep ch \<Longrightarrow> split_on sep (a @ ch # b) = split_on sep a @ split_on sep b"
proof (induction a)
  case Nil
  then show ?case by simp
next
  case (Cons x a)
  then show ?case using split_on_nonempty [of sep a] by (cases "split_on sep a") auto
qed

lemma procfs_tokens_append:
  "procfs_tokens (a @ b) sm = bind_res (procfs_tokens a sm) (procfs_tokens b)"
proof (induction a arbitrary: sm)
  case Nil
  then show ?case by simp
next
  case (Cons t a)
  then show ?case by (cases "procfs_token t sm") simp_all
qed

section \<open>The printed table\<close>

abbreviation blank :: "char \<Rightarrow> bool" where
  "blank \<equiv> \<lambda>ch. ch = CHR '' '' \<or> ch = CHR 0x09"

definition show_entry :: "nat \<times> nat \<Rightarrow> string" where
  "show_entry = (\<lambda>(t, v). dec_string t @ ''|'' @ dec_string v)"

text \<open>An entry is preceded by a blank and padded with \<open>p\<close> blanks.\<close>

definition show_cell :: "(nat \<times> nat) \<times> nat \<Rightarrow> string" where
  "show_cell = (\<lambda>(e, p). '' '' @ show_entry e @ replicate p CHR '' '')"

definition show_row :: "string \<times> ((nat \<times> nat) \<times> nat) list \<Rightarrow> string" where
  "show_row = (\<lambda>(lbl, cells). lbl @ concat (map show_cell cells) @ [CHR 0x0A])"

definition label_ok :: "string \<Rightarrow> bool" where
  "label_ok lbl \<longleftrightarrow> (\<forall>ch\<in>set lbl. ch \<noteq> CHR ''|'' \<and> \<not> blank ch)"

definition push_entry :: "nat \<times> nat \<Rightarrow> segment_manager \<Rightarrow> segment_manager res" where
  "push_entry = (\<lambda>(t, v) sm.
     if length (segments sm) \<le> unat (nr_segments sm) then Inl OutOfBounds
     else Inr (sm\<lparr>segments := (segments sm)[unat (nr_segments sm) :=
                     \<lparr>si_id = nr_segments sm, si_type = seg_type_of_int (int t),
                      si_valid_blocks = of_nat v\<rparr>],
                  nr_segments := nr_segments sm + 1\<rparr>))"

fun push_entries :: "(nat \<times> nat) list \<Rightarrow> segment_manager \<Rightarrow> segment_manager res" where
  "push_entries [] sm = Inr sm"
| "push_entries (e # es) sm = bind_res (push_entry e sm) (push_entries es)"

lemma digit_other: "is_digit ch \<Longrightarrow> ch \<noteq> CHR ''|'' \<and> \<not> blank ch"
  by (auto simp: is_digit_def)

lemma dec_string_no_bar: "ch \<in> set (dec_string n) \<Longrightarrow> ch \<noteq> CHR ''|''"
  using dec_string_digits digit_other by blast

lemma dec_string_no_blank: "ch \<in> set (dec_string n) \<Longrightarrow> \<not> blank ch"
  using dec_string_digits digit_other by blast

lemma show_entry_no_blank: "ch \<in> set (show_entry e) \<Longrightarrow> \<not> blank ch"
proof -
  assume "ch \<in> set (show_entry e)"
  then have "ch \<in> set (dec_string (fst e)) \<or> ch = CHR ''|'' \<or> ch \<in> set (dec_string (snd e))"
    by (cases e) (simp add: show_entry_def, blast)
  then show "\<not> blank ch" using dec_string_no_blank [of ch] by (elim disjE) simp_all
qed

lemma procfs_token_plain: "CHR ''|'' \<notin> set s \<Longrightarrow> procfs_token s sm = Inr sm"
  by (simp add: procfs_token_def)

lemma procfs_token_entry:
  assumes "s = [] \<or> s = [CHR 0x0A]"
  shows "procfs_token (show_entry (t, v) @ s) sm = push_entry (t, v) sm"
proof -
  have b: "split_on (\<lambda>ch. ch = CHR ''|'') (dec_string t @ CHR ''|'' # dec_string v @ s)
      = [dec_string t, dec_string v @ s]"
  proof -
    have "split_on (\<lambda>ch. ch = CHR ''|'') (dec_string t) = [dec_string t]"
      by (rule split_on_none, use dec_string_no_bar in blast)
    moreover have "split_on (\<lambda>ch. ch = CHR ''|'') (dec_string v @ s) = [dec_string v @ s]"
    proof (rule split_on_none, rule ballI)
      fix ch
      assume "ch \<in> set (dec_string v @ s)"
      then have "ch \<in> set (dec_string v) \<or> ch = CHR 0x0A" using assms by (elim disjE) (simp_all, blast)
      then show "ch \<noteq> CHR ''|''" by (elim disjE) (simp_all add: dec_string_no_bar)
    qed
    ultimately show ?thesis by (simp add: split_on_append)
  qed
  have a: "atoi (dec_string t) = int t" using atoi_dec_string [of "[]" t] by simp
  have "atoi (dec_string v @ s) = int v"
    using assms by (intro atoi_dec_string) (auto simp: is_digit_def)
  then show ?thesis
    by (simp add: procfs_token_def push_entry_def show_entry_def b a Let_def)
qed

section \<open>Reading a row\<close>

definition run :: "string \<Rightarrow> segment_manager \<Rightarrow> segment_manager res" where
  "run s = procfs_tokens (split_on blank s)"

lemma run_blank: "run (a @ CHR '' '' # b) sm = bind_res (run a sm) (run b)"
  by (simp add: run_def split_on_append procfs_tokens_append)

lemma run_token: "\<forall>ch\<in>set s. \<not> blank ch \<Longrightarrow> run s sm = procfs_token s sm"
  by (simp add: run_def split_on_none) (cases "procfs_token s sm"; simp)

lemma run_blanks: "run (replicate p CHR '' '' @ b) = run b"
proof (induction p)
  case 0
  then show ?case by simp
next
  case (Suc p)
  have "run [] sm = Inr sm" for sm by (simp add: run_def procfs_token_plain)
  then show ?case using Suc run_blank [of "[]"] by (simp add: fun_eq_iff)
qed

lemma run_cells:
  assumes "\<forall>ch\<in>set x. \<not> blank ch" "\<And>sm. procfs_token (x @ [CHR 0x0A]) sm = procfs_token x sm"
  shows "run (x @ concat (map show_cell cells) @ [CHR 0x0A]) sm =
    bind_res (procfs_token x sm) (push_entries (map fst cells))"
  using assms
proof (induction cells arbitrary: x sm)
  case Nil
  have "run (x @ [CHR 0x0A]) sm = procfs_token (x @ [CHR 0x0A]) sm"
    by (rule run_token) (use Nil.prems(1) in simp)
  then show ?case using Nil.prems(2) by (cases "procfs_token x sm") simp_all
next
  case (Cons c cells)
  obtain t v p where c: "c = ((t, v), p)" by (metis surj_pair)
  let ?e = "show_entry (t, v)"
  let ?rest = "concat (map show_cell cells) @ [CHR 0x0A]"
  have e: "\<forall>ch\<in>set ?e. \<not> blank ch" "procfs_token (?e @ [CHR 0x0A]) sm = procfs_token ?e sm"
    "procfs_token ?e sm = push_entry (t, v) sm" for sm
    using procfs_token_entry [of "[]" t v] procfs_token_entry [of "[CHR 0x0A]" t v]
    by (simp_all add: show_entry_no_blank)
  have "run (?e @ replicate p CHR '' '' @ ?rest) sm = bind_res (push_entry (t, v) sm) (push_entries (map fst cells))" for sm
  proof (cases p)
    case 0
    then show ?thesis using Cons.IH [OF e(1,2)] e(3) by simp
  next
    case (Suc q)
    have "run (?e @ replicate p CHR '' '' @ ?rest) sm = bind_res (procfs_token ?e sm) (run ?rest)"
      using e(1) by (simp add: Suc run_blank run_token run_blanks)
    moreover have "run ?rest = push_entries (map fst cells)"
      using Cons.IH [of "[]"] by (simp add: fun_eq_iff procfs_token_plain)
    ultimately show ?thesis by (simp add: e(3))
  qed
  moreover have "run (x @ concat (map show_cell (c # cells)) @ [CHR 0x0A]) sm
      = bind_res (procfs_token x sm) (run (?e @ replicate p CHR '' '' @ ?rest))"
    using run_blank [of x "?e @ replicate p CHR '' '' @ ?rest"] Cons.prems(1)
    by (simp add: show_cell_def c run_token)
  ultimately show ?case by (cases "procfs_token x sm") (simp_all add: c)
qed

lemma run_row: "label_ok lbl \<Longrightarrow> run (show_row (lbl, cells)) sm = push_entries (map fst cells) sm"
proof -
  assume "label_ok lbl"
  then have "\<forall>ch\<in>set lbl. \<not> blank ch" "CHR ''|'' \<notin> set lbl" by (auto simp only: label_ok_def)
  then show ?thesis
    using run_cells [of lbl cells sm] by (simp add: show_row_def procfs_token_plain)
qed

section \<open>Reading the file\<close>

text \<open>Entry \<open>n\<close> of the table gets number \<open>n\<close>.\<close>

definition seg_of :: "nat \<Rightarrow> nat \<times> nat \<Rightarrow> segment_info" where
  "seg_of n = (\<lambda>(t, v). \<lparr>si_id = of_nat n, si_type = seg_type_of_int (int t), si_valid_blocks = of_nat v\<rparr>)"

lemma push_entries_append: "push_entries (a @ b) sm = bind_res (push_entries a sm) (push_entries b)"
proof (induction a arbitrary: sm)
  case Nil
  then show ?case by simp
next
  case (Cons e a)
  then show ?case by (cases "push_entry e sm") simp_all
qed

lemma push_entries_table:
  assumes "unat (nr_segments sm) + length es \<le> length (segments sm)" "length (segments sm) < 2 ^ 32"
  shows "\<exists>sm'. push_entries es sm = Inr sm' \<and> unat (nr_segments sm') = unat (nr_segments sm) + length es \<and>
    segments sm' = take (unat (nr_segments sm)) (segments sm)
      @ map (\<lambda>i. seg_of (unat (nr_segments sm) + i) (es ! i)) [0..<length es]
      @ drop (unat (nr_segments sm) + length es) (segments sm)"
  using assms
proof (induction es arbitrary: sm)
  case Nil
  then show ?case by simp
next
  case (Cons e es)
  let ?n = "unat (nr_segments sm)"
  obtain t v where e: "e = (t, v)" by (cases e)
  let ?sm = "sm\<lparr>segments := (segments sm)[?n := seg_of ?n e], nr_segments := nr_segments sm + 1\<rparr>"
  have p: "push_entry e sm = Inr ?sm"
    using Cons.prems by (simp add: push_entry_def e seg_of_def)
  have n: "unat (nr_segments ?sm) = ?n + 1" using Cons.prems by (simp add: unat_add_mod)
  have "unat (nr_segments ?sm) + length es \<le> length (segments ?sm)" "length (segments ?sm) < 2 ^ 32"
    unfolding n using Cons.prems by simp_all
  from Cons.IH [OF this] obtain sm' where sm': "push_entries es ?sm = Inr sm'"
    "unat (nr_segments sm') = ?n + 1 + length es"
    "segments sm' = take (?n + 1) (segments ?sm)
      @ map (\<lambda>i. seg_of (?n + 1 + i) (es ! i)) [0..<length es] @ drop (?n + 1 + length es) (segments ?sm)"
    unfolding n by blast
  have "take (?n + 1) (segments ?sm) = take ?n (segments sm) @ [seg_of ?n e]"
    using Cons.prems(1) by (simp add: take_Suc_conv_app_nth)
  moreover have "drop (?n + 1 + length es) (segments ?sm) = drop (?n + 1 + length es) (segments sm)" by simp
  moreover have "map (\<lambda>i. seg_of (?n + i) ((e # es) ! i)) [0..<length (e # es)]
      = seg_of ?n e # map (\<lambda>i. seg_of (?n + 1 + i) (es ! i)) [0..<length es]"
    by (simp only: length_Cons upt_conv_Cons [OF zero_less_Suc] list.map map_Suc_upt [symmetric] map_map)
      (simp add: o_def)
  ultimately show ?case
    using sm' p by simp
qed

definition row_entries :: "(string \<times> ((nat \<times> nat) \<times> nat) list) list \<Rightarrow> (nat \<times> nat) list" where
  "row_entries rows = concat (map (\<lambda>(lbl, cells). map fst cells) rows)"

lemma procfs_lines_rows:
  assumes "\<forall>(lbl, cells)\<in>set rows. label_ok lbl" "2 \<le> n" "push_entries (row_entries rows) sm = Inr sm'"
    "unat (nr_segments sm) + length (row_entries rows) \<le> unat highest"
    "length (segments sm) < 2 ^ 32" "unat highest \<le> length (segments sm)"
  shows "procfs_lines n highest (map show_row rows) sm = Inr sm'"
  using assms
proof (induction rows arbitrary: sm)
  case Nil
  then show ?case by (simp add: row_entries_def)
next
  case (Cons r rows)
  obtain lbl cells where r: "r = (lbl, cells)" by (cases r)
  have es: "row_entries (r # rows) = map fst cells @ row_entries rows" by (simp add: row_entries_def r)
  from Cons.prems(3) obtain sm1 where sm1: "push_entries (map fst cells) sm = Inr sm1"
    "push_entries (row_entries rows) sm1 = Inr sm'"
    by (auto simp: es bind_res_Inr_iff push_entries_append)
  have "unat (nr_segments sm) + length (map fst cells) \<le> length (segments sm)"
    using Cons.prems(4,6) by (simp add: es)
  from push_entries_table [OF this Cons.prems(5)] sm1(1)
  have n1: "unat (nr_segments sm1) = unat (nr_segments sm) + length (map fst cells)"
    and l1: "length (segments sm1) = length (segments sm)"
    using \<open>unat (nr_segments sm) + length (map fst cells) \<le> length (segments sm)\<close> by auto
  have "\<not> highest < nr_segments sm1"
    using Cons.prems(4) by (simp add: word_less_nat_alt n1 es)
  moreover have "procfs_tokens (split_on blank (show_row r)) sm = Inr sm1"
    using run_row [of lbl cells sm] Cons.prems(1) sm1(1) by (simp add: run_def r)
  moreover have "procfs_lines n highest (map show_row rows) sm1 = Inr sm'"
    using Cons.prems sm1(2) by (intro Cons.IH) (simp_all add: n1 l1 es)
  ultimately show ?case using Cons.prems(2) by simp
qed

lemma fs_manager_init_table:
  fixes l :: f2fs_lib
  defines "n \<equiv> unat (sb32 l ''segment_count_main'')"
  assumes "\<forall>(lbl, cells)\<in>set rows. label_ok lbl" "length (row_entries rows) = n"
    "os_lines k (''/proc/fs/f2fs/'' @ dev @ ''/segment_info'') = Some (h1 # h2 # map show_row rows)"
    "last (split_on (\<lambda>ch. ch = CHR ''/'') devname) = dev" "length dev < 23"
  shows "f2fs_fs_manager_init k devname l =
    Inr (Some \<lparr>nr_segments = of_nat n, segments = map (\<lambda>i. seg_of i (row_entries rows ! i)) [0..<n]\<rparr>, [])"
proof -
  let ?sm = "\<lparr>nr_segments = 0, segments = replicate n zero_segment_info\<rparr>"
  have n: "n < 2 ^ 32" unfolding n_def by simp
  obtain sm' where sm': "push_entries (row_entries rows) ?sm = Inr sm'" "unat (nr_segments sm') = n"
    "segments sm' = map (\<lambda>i. seg_of i (row_entries rows ! i)) [0..<n]"
    using push_entries_table [of ?sm "row_entries rows"] assms(3) n by auto
  have nr: "nr_segments sm' = of_nat n" using sm'(2) by (metis of_nat_unat ucast_id)
  have "procfs_lines 2 (sb32 l ''segment_count_main'') (map show_row rows) ?sm = Inr sm'"
    using assms(2,3) sm'(1) n by (intro procfs_lines_rows) (simp_all add: n_def)
  then have "procfs_lines 0 (sb32 l ''segment_count_main'') (h1 # h2 # map show_row rows) ?sm = Inr sm'"
    by (simp add: numeral_2_eq_2)
  moreover have "sm' = \<lparr>nr_segments = of_nat n, segments = map (\<lambda>i. seg_of i (row_entries rows ! i)) [0..<n]\<rparr>"
    by (rule segment_manager.equality) (simp_all add: nr sm'(3))
  ultimately show ?thesis
    using assms(4-6)
    by (simp add: f2fs_fs_manager_init_def init_procfs_segment_bits_def Let_def n_def)
qed

section \<open>Properties\<close>

text \<open>C25. The parser of the segment table reads back the table as the kernel prints it: for a
  table with one entry per main segment, entry \<open>n\<close> becomes segment \<open>n\<close> with its type and its
  number of valid blocks, whatever the labels and the padding of the rows.\<close>

theorem segment_table_roundtrip:
  fixes l :: f2fs_lib
  assumes "\<forall>(lbl, cells)\<in>set rows. label_ok lbl"
    "length (row_entries rows) = unat (sb32 l ''segment_count_main'')"
    "os_lines k (''/proc/fs/f2fs/'' @ dev @ ''/segment_info'') = Some (h1 # h2 # map show_row rows)"
    "last (split_on (\<lambda>ch. ch = CHR ''/'') devname) = dev" "length dev < 23"
  shows "f2fs_fs_manager_init k devname l =
    Inr (Some \<lparr>nr_segments = sb32 l ''segment_count_main'',
      segments = map (\<lambda>i. seg_of i (row_entries rows ! i)) [0..<length (row_entries rows)]\<rparr>, [])"
  using fs_manager_init_table [OF assms] by (simp add: assms(2))

definition sample_rows :: "(string \<times> ((nat \<times> nat) \<times> nat) list) list" where
  "sample_rows = [(''0'', [((1, 512), 1), ((0, 7), 0)])]"

definition sample_lib :: f2fs_lib where
  "sample_lib = zero_f2fs_lib\<lparr>f2fs_sb := replicate 68 0 @ [2, 0, 0, 0]\<rparr>"

definition procfs_os :: os where
  "procfs_os = blank_os\<lparr>os_lines := \<lambda>p. Some (''format'' # ''header'' # map show_row sample_rows)\<rparr>"

theorem segment_table_roundtrip_witness:
  "f2fs_fs_manager_init procfs_os ''nvme0n1'' sample_lib =
    Inr (Some \<lparr>nr_segments = 2, segments =
      [\<lparr>si_id = 0, si_type = CURSEG_WARM_DATA, si_valid_blocks = 512\<rparr>,
       \<lparr>si_id = 1, si_type = CURSEG_HOT_DATA, si_valid_blocks = 7\<rparr>]\<rparr>, [])"
proof -
  have n: "sb32 sample_lib ''segment_count_main'' = 2"
    by (simp add: sample_lib_def fld_def f2fs_super_block_layout_def field_bytes_def)
  have e: "row_entries sample_rows = [(1, 512), (0, 7)]" by (simp add: row_entries_def sample_rows_def)
  have a: "\<forall>(lbl, cells)\<in>set sample_rows. label_ok lbl" by (simp add: sample_rows_def label_ok_def)
  have b: "length (row_entries sample_rows) = unat (sb32 sample_lib ''segment_count_main'')"
    by (simp add: n e)
  have d: "os_lines procfs_os (''/proc/fs/f2fs/'' @ ''nvme0n1'' @ ''/segment_info'')
      = Some (''format'' # ''header'' # map show_row sample_rows)"
    by (simp add: procfs_os_def)
  have f: "last (split_on (\<lambda>ch. ch = CHR ''/'') ''nvme0n1'') = ''nvme0n1''" by simp
  have g: "length ''nvme0n1'' < 23" by simp
  from segment_table_roundtrip [OF a b d f g] show ?thesis
    by (simp add: n e seg_of_def seg_type_of_int_def upt_rec)
qed

end
