(* ===== verification/Segmap_Main.thy ===== *)
theory Segmap_Main
  imports Json_Dump Fiemap_Report Procfs
begin

text \<open>
  The tool \<open>zns.segmap\<close> (\<open>src/segmap.c\<close>): its command line, the initialisation for a
  directory or a file, the walk over the directory, and \<open>main\<close>. The walk is shown to read
  exactly the files of the tree, depth first, and to record the extents of each.
\<close>

section \<open>The directory walk\<close>

text \<open>
  A directory as \<open>opendir\<close> and \<open>readdir\<close> present it: the entries in the order they are
  returned, a directory with its own entries, or with \<open>None\<close> when it cannot be opened.
\<close>

datatype dirent = Plain string | Sub_dir string "dirent list option"

definition collect_file :: "nat \<Rightarrow> os \<Rightarrow> string \<Rightarrow> control \<Rightarrow> control res" where
  "collect_file fuel k filename c =
     (if \<not> os_open k filename then
        (if \<not> os_access k filename then Inr (info 1 ''File no longer exists'' [S filename] c)
         else Inl (ErrExit ''failed opening file''))
      else case os_stat k filename of
        None \<Rightarrow> Inl (ErrExit ''Failed stat on file'')
      | Some st \<Rightarrow>
          bind_res (get_extents fuel k filename st c) (\<lambda>(ret, c).
            if ret = EXIT_FAILURE then Inl (ErrExit ''retrieving extents'')
            else case zonemap c of
              None \<Rightarrow> Inl NullDeref
            | Some m \<Rightarrow> if zm_extent_ctr m = 0 then Inl (ErrExit ''No extents found on device'') else Inr c))"

text \<open>
  \<open>snprintf\<close> is given room for one character less than \<open>"%s/%s/"\<close> prints.
\<close>

definition sub_path :: "string \<Rightarrow> string \<Rightarrow> string" where
  "sub_path p n = snprintf_n (length p + length n + 2) (p @ ''/'' @ n @ ''/'')"

fun collect_entries :: "nat \<Rightarrow> os \<Rightarrow> string \<Rightarrow> dirent list \<Rightarrow> control \<Rightarrow> control res" where
  "collect_entries fuel k p [] c = Inr c"
| "collect_entries fuel k p (Plain n # es) c =
     bind_res (collect_file fuel k (p @ ''/'' @ n) c) (collect_entries fuel k p es)"
| "collect_entries fuel k p (Sub_dir n ds # es) c =
     (if n = ''.'' \<or> n = ''..'' then collect_entries fuel k p es c
      else bind_res (case ds of
                       None \<Rightarrow> Inl (ErrExit ''Failed opening dir'')
                     | Some ds \<Rightarrow> collect_entries fuel k (sub_path p n) ds c)
             (collect_entries fuel k p es))"

definition collect_extents :: "nat \<Rightarrow> os \<Rightarrow> string \<Rightarrow> dirent list option \<Rightarrow> control \<Rightarrow> control res" where
  "collect_extents fuel k p ds c =
     (case ds of None \<Rightarrow> Inl (ErrExit ''Failed opening dir'')
      | Some ds \<Rightarrow> collect_entries fuel k p ds c)"

section \<open>Initialisation\<close>

definition check_dir_init_ctrl ::
    "os \<Rightarrow> f2fs_lib \<Rightarrow> segmap_manager \<times> control \<Rightarrow> (f2fs_lib \<times> segmap_manager \<times> control) res" where
  "check_dir_init_ctrl k l = (\<lambda>(sm, c).
     case os_stat k (sm_dir sm) of
       None \<Rightarrow> Inl (ErrExit ''Failed stat on dir'')
     | Some st \<Rightarrow>
         let c = info 1 (if st_isdir st then ''is a directory'' else ''is a file'') [S (sm_dir sm)] c;
             sm = (if st_isdir st then sm\<lparr>sm_isdir := True\<rparr> else sm)
         in bind_res (set_fs_magic k (sm_dir sm) c) (\<lambda>c.
            if fs_magic c = F2FS_MAGIC then
              bind_res (init_f2fs_ctrl k st l c) (\<lambda>(l, c).
              bind_res (f2fs_fs_manager_init k (dev_name (bdev c)) l) (\<lambda>(mgr, ls).
                Inr (l, sm, (fold msg ls c)\<lparr>fs_manager := mgr,
                       fs_info_init := Some fs_info_initialize,
                       fs_info_show := Some f2fs_show_segment,
                       fs_info_bytes := get_fs_info_bytes\<rparr>)))
            else if fs_magic c = BTRFS_MAGIC then
              bind_res (init_btrfs_ctrl k (sm_dir sm) c) (\<lambda>c. Inr (l, sm, c))
            else Inr (l, sm, c)))"

section \<open>The command line\<close>

definition segmap_show_info :: help_text where
  "segmap_show_info =
    [(''ACRONYM INFO'', ''''),
     (''LBAS:'', ''Logical Block Address Start (for the Zone)''),
     (''LBAE:'', ''Logical Block Address End (for the Zone, equal to LBAS + ZONE CAP)''),
     (''CAP:'', ''Zone Capacity (in 512B sectors)''),
     (''WP:'', ''Write Pointer of the Zone''),
     (''SIZE:'', ''Size of the Zone (in 512B sectors)''),
     (''STATE:'', ''State of a zone (e.g., FULL, EMPTY)''),
     (''MASK:'', ''The Zone Mask that is used to calculate LBAS of LBA addresses in a zone''),
     (''EXTID:'', ''Extent number out of total number of extents, in the order of the extents''),
     ('''', ''returned by ioctl(), depciting logical file data ordering''),
     (''PBAS:'', ''Physical Block Address Start''),
     (''PBAE:'', ''Physical Block Address End'')]"

definition segmap_show_help :: help_text where
  "segmap_show_help =
    [(''Possible flags are:'', ''''),
     (''-d [dir]'', ''Mounted dir to map [Required]''),
     (''-h'', ''Show this help''),
     (''-l [uint, 0-2]'', ''Log Level to print''),
     (''-i'', ''Resolve inlined file data in inodes''),
     (''-p'', ''Resolve segment information from procfs''),
     (''-w'', ''Show extent flags''),
     (''-s [uint]'', ''Set the starting zone to map. Default zone 1.''),
     (''-z [uint]'', ''Only show this single zone''),
     (''-e [uint]'', ''Set the ending zone to map. Default last zone.''),
     (''-c'', ''Show segment statistics (requires -p to be enabled).''),
     (''-o'', ''Show only segment statistics (automatically enables -s).''),
     (''-n'', ''Don't show holes between extents (only for Btrfs).'')] @ segmap_show_info"

definition segmap_optstring :: string where
  "segmap_optstring = ''d:hil:ws:e:pz:conj:''"

record segmap_flags =
  set_zone :: bool
  set_dir :: bool
  set_zone_end :: bool
  set_zone_start :: bool

definition no_flags :: segmap_flags where
  "no_flags = \<lparr>set_zone = False, set_dir = False, set_zone_end = False, set_zone_start = False\<rparr>"

type_synonym option_state = "segmap_flags \<times> segmap_manager \<times> control"

text \<open>The body of the \<open>switch\<close>, and the loop around it.\<close>

definition segmap_option :: "char \<Rightarrow> string \<Rightarrow> option_state \<Rightarrow> option_state res" where
  "segmap_option o' arg = (\<lambda>(f, sm, c).
     if o' = CHR ''d'' then Inr (f\<lparr>set_dir := True\<rparr>, sm\<lparr>sm_dir := arg\<rparr>, c)
     else if o' = CHR ''l'' then Inr (f, sm, c\<lparr>log_level := of_int (atoi arg)\<rparr>)
     else if o' = CHR ''i'' then Inr (f, sm, c\<lparr>exclude_flags := 0\<rparr>)
     else if o' = CHR ''j'' then Inr (f, sm, c\<lparr>json_file := arg, json_dump := True\<rparr>)
     else if o' = CHR ''w'' then Inr (f, sm, c\<lparr>show_flags := True\<rparr>)
     else if o' = CHR ''s'' then
       Inr (f\<lparr>set_zone_start := True\<rparr>, sm, c\<lparr>start_zone := of_int (atoi arg)\<rparr>)
     else if o' = CHR ''z'' then
       Inr (f\<lparr>set_zone := True\<rparr>, sm,
            c\<lparr>start_zone := of_int (atoi arg), end_zone := of_int (atoi arg)\<rparr>)
     else if o' = CHR ''e'' then
       Inr (f\<lparr>set_zone_end := True\<rparr>, sm, c\<lparr>end_zone := of_int (atoi arg)\<rparr>)
     else if o' = CHR ''p'' then Inr (f, sm, c\<lparr>procfs := True\<rparr>)
     else if o' = CHR ''c'' then Inr (f, sm, c\<lparr>show_class_stats := True\<rparr>)
     else if o' = CHR ''o'' then Inr (f, sm, c\<lparr>show_only_stats := True, show_class_stats := True\<rparr>)
     else if o' = CHR ''n'' then Inr (f, sm, c\<lparr>show_holes := False\<rparr>)
     else Inl (HelpExit segmap_show_help))"

fun segmap_options :: "(char \<times> string) list \<Rightarrow> option_state \<Rightarrow> option_state res" where
  "segmap_options [] s = Inr s"
| "segmap_options ((o', arg) # rest) s = bind_res (segmap_option o' arg s) (segmap_options rest)"

text \<open>The tests on the flags, before anything is read.\<close>

definition check_flags :: "segmap_flags \<Rightarrow> control \<Rightarrow> control res" where
  "check_flags f c =
     (if \<not> set_dir f then Inl (ErrExit ''Missing directory -d flag'')
      else if set_zone f \<and> (set_zone_start f \<or> set_zone_end f)
      then Inl (ErrExit ''Flag -z cannot be used with -s or -e'')
      else if show_class_stats c \<and> \<not> procfs c then
        (if show_only_stats c then Inl (ErrExit ''Cannot show stats without -p enabled'')
         else Inr ((msg (Warn ''-c requires -p flag to be enabled'' []) c)\<lparr>show_class_stats := False\<rparr>))
      else Inr c)"

definition default_zones :: "segmap_flags \<Rightarrow> control \<Rightarrow> control" where
  "default_zones f c =
     (let c = (if start_zone c = 0 \<and> \<not> set_zone f then c\<lparr>start_zone := 1\<rparr> else c)
      in if end_zone c = 0 \<and> \<not> set_zone f then c\<lparr>end_zone := b_nr_zones (znsdev c)\<rparr> else c)"

section \<open>The tool\<close>

text \<open>
  The extents of the directory or of the one file; \<open>False\<close> with a directory that gave none,
  which skips the report.
\<close>

definition collect_all :: "nat \<Rightarrow> os \<Rightarrow> dirent list option \<Rightarrow> segmap_manager \<Rightarrow> control
    \<Rightarrow> (bool \<times> control) res" where
  "collect_all fuel k ds sm c =
     (if sm_isdir sm then
        bind_res (collect_extents fuel k (sm_dir sm) ds c) (\<lambda>c.
          case zonemap c of
            None \<Rightarrow> Inl NullDeref
          | Some m \<Rightarrow>
              if zm_extent_ctr m = 0
              then Inr (False, msg (Warn ''No separate extent mappings found for any file''
                                [N (unat (inlined_extent_ctr c))]) c)
              else Inr (True, c))
      else if \<not> os_open k (sm_dir sm) then Inl (ErrExit ''Failed stat on file'')
      else case os_stat k (sm_dir sm) of
        None \<Rightarrow> Inl (ErrExit ''Failed stat on file'')
      | Some st \<Rightarrow>
          bind_res (get_extents fuel k (sm_dir sm) st c) (\<lambda>(ret, c).
            if ret = EXIT_FAILURE then Inl (ErrExit ''retrieving extents'')
            else case zonemap c of
              None \<Rightarrow> Inl NullDeref
            | Some m \<Rightarrow> if zm_extent_ctr m = 0 then Inl (ErrExit ''No extents found on device'')
                         else Inr (True, c)))"

text \<open>The JSON document when one is written, and the state at the end.\<close>

definition segmap_report :: "nat \<Rightarrow> 'j json_api \<Rightarrow> u64 \<Rightarrow> os \<Rightarrow> segmap_manager \<Rightarrow> control
    \<Rightarrow> ('j option \<times> segmap_manager \<times> control) res" where
  "segmap_report fuel J time k sm c =
     (if fs_magic c = F2FS_MAGIC then
        (if json_dump c
         then bind_res (json_dump_data fuel J time k c) (\<lambda>(root, c). Inr (Some root, sm, c))
         else bind_res (show_segment_report fuel k (sm, c)) (\<lambda>(sm, c). Inr (None, sm, c)))
      else if fs_magic c = BTRFS_MAGIC
      then bind_res (print_fiemap_report k c) (\<lambda>c. Inr (None, sm, c))
      else Inr (None, sm, c))"

definition segmap_cleanup :: "control \<Rightarrow> control res" where
  "segmap_cleanup c = cleanup_ctrl (c\<lparr>fs_manager := None\<rparr>)"

text \<open>\<open>prog\<close> is the name of the program, \<open>args\<close> are the words after it.\<close>

definition segmap_main :: "nat \<Rightarrow> 'j json_api \<Rightarrow> u64 \<Rightarrow> os \<Rightarrow> dirent list option \<Rightarrow> string
    \<Rightarrow> string list \<Rightarrow> ('j option \<times> segmap_manager \<times> control) res" where
  "segmap_main fuel J time k ds prog args =
     (let c = zero_control\<lparr>exclude_flags := FIEMAP_EXTENT_DATA_INLINE, show_holes := True, argv0 := prog\<rparr>
      in bind_res (segmap_options (getopt segmap_optstring args) (no_flags, zero_segmap_manager, c)) (\<lambda>(f, sm, c).
         bind_res (check_flags f c) (\<lambda>c.
         bind_res (check_dir_init_ctrl k zero_f2fs_lib (sm, c)) (\<lambda>(l, sm, c).
         bind_res (collect_all fuel k ds sm (default_zones f c)) (\<lambda>(found, c).
         bind_res (if found then segmap_report fuel J time k sm c else Inr (None, sm, c)) (\<lambda>(j, sm, c).
         bind_res (segmap_cleanup c) (\<lambda>c. Inr (j, sm, c))))))))"

section \<open>What the walk reads\<close>

text \<open>
  The files of a tree in the order of the walk. Every path is made of the names on the way to
  the file, joined by one slash.
\<close>

fun tree_files :: "string \<Rightarrow> dirent list \<Rightarrow> string list" where
  "tree_files p [] = []"
| "tree_files p (Plain n # es) = (p @ ''/'' @ n) # tree_files p es"
| "tree_files p (Sub_dir n ds # es) =
     (if n = ''.'' \<or> n = ''..'' then []
      else case ds of None \<Rightarrow> [] | Some ds \<Rightarrow> tree_files (p @ ''/'' @ n) ds) @ tree_files p es"

fun readable :: "dirent list \<Rightarrow> bool" where
  "readable [] \<longleftrightarrow> True"
| "readable (Plain n # es) \<longleftrightarrow> readable es"
| "readable (Sub_dir n ds # es) \<longleftrightarrow>
     (n = ''.'' \<or> n = ''..'' \<or> (case ds of None \<Rightarrow> False | Some ds \<Rightarrow> readable ds)) \<and> readable es"

fun collect_files :: "nat \<Rightarrow> os \<Rightarrow> string list \<Rightarrow> control \<Rightarrow> control res" where
  "collect_files fuel k [] c = Inr c"
| "collect_files fuel k (f # fs) c = bind_res (collect_file fuel k f c) (collect_files fuel k fs)"

lemma sub_path_eq: "sub_path p n = p @ ''/'' @ n"
  by (simp add: sub_path_def snprintf_n_def)

lemma collect_files_append:
  "collect_files fuel k (fs @ gs) c = bind_res (collect_files fuel k fs c) (collect_files fuel k gs)"
proof (induction fs arbitrary: c)
  case Nil
  then show ?case by simp
next
  case (Cons f fs)
  then show ?case by (cases "collect_file fuel k f c") simp_all
qed

lemma collect_entries_files:
  "readable es \<Longrightarrow> collect_entries fuel k p es c = collect_files fuel k (tree_files p es) c"
proof (induction p es arbitrary: c rule: tree_files.induct)
  case (1 p)
  then show ?case by simp
next
  case (2 p n es)
  then have "collect_entries fuel k p es = collect_files fuel k (tree_files p es)" by (simp add: fun_eq_iff)
  then show ?case by simp
next
  case (3 p n ds es)
  then have rest: "collect_entries fuel k p es = collect_files fuel k (tree_files p es)" by (simp add: fun_eq_iff)
  show ?case
  proof (cases "n = ''.'' \<or> n = ''..''")
    case True
    then show ?thesis using rest by auto
  next
    case False
    with "3.prems" obtain sub where d: "ds = Some sub" "readable sub" by (auto split: option.splits)
    with False "3.IH"(1) have "collect_entries fuel k (sub_path p n) sub c = collect_files fuel k (tree_files (p @ ''/'' @ n) sub) c"
      by (simp add: sub_path_eq)
    with False d(1) rest show ?thesis by (simp add: collect_files_append)
  qed
qed

section \<open>What the walk records\<close>

text \<open>The kernel serves the file \<open>f\<close> with the extents \<open>es\<close>.\<close>

definition serves_file :: "os \<Rightarrow> nat \<Rightarrow> (string \<Rightarrow> fiemap_extent list) \<Rightarrow> string \<Rightarrow> bool" where
  "serves_file k fuel es f \<longleftrightarrow> os_open k f \<and> (\<exists>st. os_stat k f = Some st \<and> st_blocks st \<noteq> 0 \<and>
     fiemap_serves k f st 0 (es f)) \<and> length (es f) \<le> fuel"

definition accepted_digests :: "control \<Rightarrow> (string \<Rightarrow> fiemap_extent list) \<Rightarrow> string \<Rightarrow> digest multiset" where
  "accepted_digests c es f = image_mset (fe_digest c f) (mset (filter (accepted c) (es f)))"

lemma collect_file_inv:
  assumes "ctrl_inv c" "serves_file k fuel es f" "unat (nr_files c) + 1 < 2 ^ 32"
    "size (recorded_in c) + length (es f) < 2 ^ 32" "collect_file fuel k f c = Inr c'"
  shows "ctrl_inv c' \<and> nr_files c' = nr_files c + 1 \<and> same_setting c c' \<and>
    image_mset digest (recorded_in c') = accepted_digests c es f + image_mset digest (recorded_in c)"
proof -
  from assms(2) obtain st where st: "os_open k f" "os_stat k f = Some st" "st_blocks st \<noteq> 0"
    "fiemap_serves k f st 0 (es f)" "length (es f) \<le> fuel"
    by (auto simp: serves_file_def)
  with assms(5) obtain ret where g: "get_extents fuel k f st c = Inr (ret, c')"
    by (auto simp: collect_file_def bind_res_Inr_iff split: if_splits option.splits)
  show ?thesis
    using get_extents_collects [OF assms(1) st(4,3,5) assms(3,4) g]
      get_extents_setting [OF assms(1) st(4,3,5) assms(3,4) g]
    by (simp add: accepted_digests_def)
qed

lemma collect_files_inv:
  "ctrl_inv c \<Longrightarrow> \<forall>f\<in>set fs. serves_file k fuel es f \<Longrightarrow> unat (nr_files c) + length fs < 2 ^ 32 \<Longrightarrow>
   size (recorded_in c) + (\<Sum>f\<leftarrow>fs. length (es f)) < 2 ^ 32 \<Longrightarrow> collect_files fuel k fs c = Inr c' \<Longrightarrow>
   ctrl_inv c' \<and> nr_files c' = nr_files c + of_nat (length fs) \<and> same_setting c c' \<and>
   image_mset digest (recorded_in c') = (\<Sum>f\<leftarrow>fs. accepted_digests c es f) + image_mset digest (recorded_in c)"
proof (induction fs arbitrary: c)
  case Nil
  then show ?case by (simp add: same_setting_refl)
next
  case (Cons f fs)
  from Cons.prems(5) obtain c1 where c1: "collect_file fuel k f c = Inr c1" "collect_files fuel k fs c1 = Inr c'"
    by (auto simp: bind_res_Inr_iff)
  have "unat (nr_files c) + 1 < 2 ^ 32" "size (recorded_in c) + length (es f) < 2 ^ 32" "serves_file k fuel es f"
    using Cons.prems(2-4) by simp_all
  note s = collect_file_inv [OF Cons.prems(1) this(3,1,2) c1(1)]
  have nr: "unat (nr_files c1) = unat (nr_files c) + 1" using s Cons.prems(3) by (simp add: unat_add_mod)
  have "size (accepted_digests c es f) \<le> length (es f)"
    unfolding accepted_digests_def size_image_mset size_mset by (rule length_filter_le)
  moreover have "size (recorded_in c1) = size (accepted_digests c es f) + size (recorded_in c)"
    using arg_cong [OF s [THEN conjunct2, THEN conjunct2, THEN conjunct2], of size] by simp
  ultimately have "size (recorded_in c1) + (\<Sum>f\<leftarrow>fs. length (es f)) < 2 ^ 32"
    using Cons.prems(4) by simp
  from Cons.IH [OF _ _ _ this c1(2)] s Cons.prems(2,3) nr
  have i: "ctrl_inv c' \<and> nr_files c' = nr_files c1 + of_nat (length fs) \<and> same_setting c1 c' \<and>
   image_mset digest (recorded_in c') = (\<Sum>f\<leftarrow>fs. accepted_digests c1 es f) + image_mset digest (recorded_in c1)"
    by simp
  have "same_setting c c1" using s by simp
  note fa = same_setting_facts(1,2) [OF this]
  have "accepted_digests c1 es = accepted_digests c es" by (simp add: accepted_digests_def fun_eq_iff fa)
  with i s same_setting_trans [of c c1 c'] show ?case by (simp add: ac_simps)
qed

text \<open>
  The walk returns when every accepted extent can be recorded and the first file has one. A
  first file without an extent on the zoned device ends the run.
\<close>

lemma ctrl_inv_count:
  "ctrl_inv c \<Longrightarrow> size (recorded_in c) < 2 ^ 32 \<Longrightarrow>
   \<exists>m. zonemap c = Some m \<and> unat (zm_extent_ctr m) = size (recorded_in c)"
  by (auto simp: ctrl_inv_def zm_inv_def recorded_in_def unat_of_nat take_bit_nat_eq_self_iff)

lemma collect_file_result:
  assumes "ctrl_inv c" "serves_file k fuel es f" "unat (nr_files c) + 1 < 2 ^ 32"
    "size (recorded_in c) + length (es f) < 2 ^ 32"
    "\<forall>fe\<in>set (es f). accepted c fe \<longrightarrow> recordable k c (nr_map_zones c) (fe_block c fe)"
  shows "if accepted_digests c es f = {#} \<and> recorded_in c = {#}
    then collect_file fuel k f c = Inl (ErrExit ''No extents found on device'')
    else \<exists>c'. collect_file fuel k f c = Inr c'"
proof -
  from assms(2) obtain st where st: "os_open k f" "os_stat k f = Some st" "st_blocks st \<noteq> 0"
    "fiemap_serves k f st 0 (es f)" "length (es f) \<le> fuel"
    by (auto simp: serves_file_def)
  from get_extents_returns [OF assms(1) st(4,3,5) assms(3,4,5)]
  obtain c1 where g: "get_extents fuel k f st c = Inr (EXIT_SUCCESS, c1)" ..
  note col = get_extents_collects [OF assms(1) st(4,3,5) assms(3,4) g]
  have sz: "size (recorded_in c1) = size (accepted_digests c es f) + size (recorded_in c)"
    using arg_cong [OF col [THEN conjunct2, THEN conjunct2, THEN conjunct2], of size]
    by (simp add: accepted_digests_def)
  have "size (accepted_digests c es f) \<le> length (es f)"
    unfolding accepted_digests_def size_image_mset size_mset by (rule length_filter_le)
  with sz assms(4) have "size (recorded_in c1) < 2 ^ 32" by simp
  with col ctrl_inv_count obtain m where m: "zonemap c1 = Some m"
    "unat (zm_extent_ctr m) = size (recorded_in c1)" by blast
  from sz have "zm_extent_ctr m = 0 \<longleftrightarrow> accepted_digests c es f = {#} \<and> recorded_in c = {#}"
    using m(2) by (simp add: unat_eq_zero [symmetric] del: unat_eq_zero)
  moreover have "EXIT_SUCCESS \<noteq> EXIT_FAILURE" by (simp add: EXIT_SUCCESS_def EXIT_FAILURE_def)
  ultimately show ?thesis
    using st(1,2) g m(1) by (simp add: collect_file_def)
qed

lemma collect_files_returns:
  "ctrl_inv c \<Longrightarrow> \<forall>f\<in>set fs. serves_file k fuel es f \<Longrightarrow> unat (nr_files c) + length fs < 2 ^ 32 \<Longrightarrow>
   size (recorded_in c) + (\<Sum>f\<leftarrow>fs. length (es f)) < 2 ^ 32 \<Longrightarrow>
   \<forall>f\<in>set fs. \<forall>fe\<in>set (es f). accepted c fe \<longrightarrow> recordable k c (nr_map_zones c) (fe_block c fe) \<Longrightarrow>
   fs = [] \<or> accepted_digests c es (hd fs) \<noteq> {#} \<or> recorded_in c \<noteq> {#} \<Longrightarrow>
   \<exists>c'. collect_files fuel k fs c = Inr c'"
proof (induction fs arbitrary: c)
  case Nil
  then show ?case by simp
next
  case (Cons f fs)
  have p: "serves_file k fuel es f" "unat (nr_files c) + 1 < 2 ^ 32" "size (recorded_in c) + length (es f) < 2 ^ 32"
    "\<forall>fe\<in>set (es f). accepted c fe \<longrightarrow> recordable k c (nr_map_zones c) (fe_block c fe)"
    using Cons.prems(2-5) by simp_all
  from collect_file_result [OF Cons.prems(1) p] Cons.prems(6)
  obtain c1 where c1: "collect_file fuel k f c = Inr c1" by (auto split: if_splits)
  note s = collect_file_inv [OF Cons.prems(1) p(1-3) c1]
  have nr: "unat (nr_files c1) = unat (nr_files c) + 1" using s Cons.prems(3) by (simp add: unat_add_mod)
  have sz: "size (recorded_in c1) = size (accepted_digests c es f) + size (recorded_in c)"
    using arg_cong [OF s [THEN conjunct2, THEN conjunct2, THEN conjunct2], of size] by simp
  have "size (accepted_digests c es f) \<le> length (es f)"
    unfolding accepted_digests_def size_image_mset size_mset by (rule length_filter_le)
  with sz Cons.prems(4) have "size (recorded_in c1) + (\<Sum>f\<leftarrow>fs. length (es f)) < 2 ^ 32" by simp
  moreover have "recorded_in c1 \<noteq> {#}" using sz Cons.prems(6) by auto
  moreover have "same_setting c c1" using s by simp
  note fa = same_setting_facts [OF this]
  have "\<forall>f\<in>set fs. \<forall>fe\<in>set (es f). accepted c1 fe \<longrightarrow> recordable k c1 (nr_map_zones c1) (fe_block c1 fe)"
    using Cons.prems(5) by (simp add: fa)
  ultimately have "\<exists>c'. collect_files fuel k fs c1 = Inr c'"
    using s Cons.prems(2,3) nr by (intro Cons.IH) simp_all
  with c1 show ?case by simp
qed

section \<open>Initialisation and flags\<close>

lemma sm_dir_isdir: "sm_dir (if b then sm\<lparr>sm_isdir := True\<rparr> else sm) = sm_dir sm"
  by simp

lemma check_dir_fresh:
  assumes "check_dir_init_ctrl k l (sm, c) = Inr (l', sm', c')" "unused c"
    "fs_magic c' = F2FS_MAGIC \<or> fs_magic c' = BTRFS_MAGIC"
  shows "fresh_inv c'"
proof -
  from assms(1) obtain st where st: "os_stat k (sm_dir sm) = Some st"
    by (auto simp: check_dir_init_ctrl_def split: option.splits)
  let ?c = "info 1 (if st_isdir st then ''is a directory'' else ''is a file'') [S (sm_dir sm)] c"
  from assms(1) st obtain c1 where m: "set_fs_magic k (sm_dir sm) ?c = Inr c1"
    by (auto simp: check_dir_init_ctrl_def sm_dir_isdir Let_def bind_res_Inr_iff)
  with assms(2) have none: "unused c1" using set_fs_magic_eq by (fastforce simp: unused_def)
  consider (f2fs) "fs_magic c1 = F2FS_MAGIC" | (btrfs) "fs_magic c1 \<noteq> F2FS_MAGIC" "fs_magic c1 = BTRFS_MAGIC"
    | (other) "fs_magic c1 \<noteq> F2FS_MAGIC" "fs_magic c1 \<noteq> BTRFS_MAGIC" by blast
  then show ?thesis
  proof cases
    case f2fs
    with assms(1) st m obtain l2 c2 mgr ls where s: "init_f2fs_ctrl k st l c1 = Inr (l2, c2)"
      "c' = (fold msg ls c2)\<lparr>fs_manager := mgr, fs_info_init := Some fs_info_initialize,
         fs_info_show := Some f2fs_show_segment, fs_info_bytes := get_fs_info_bytes\<rparr>"
      by (auto simp: check_dir_init_ctrl_def sm_dir_isdir Let_def bind_res_Inr_iff split: if_splits)
    have "fresh_inv c2" by (rule init_f2fs_ctrl_fresh [OF s(1) none])
    then have "fresh_inv (fold msg ls c2)"
    proof (induction ls arbitrary: c2)
      case Nil
      then show ?case by simp
    next
      case (Cons x ls)
      from Cons.prems have "fresh_inv (msg x c2)" by (rule fresh_inv_cong) simp_all
      with Cons.IH show ?case by simp
    qed
    then show ?thesis unfolding s(2) by (rule fresh_inv_cong) simp_all
  next
    case btrfs
    with assms(1) st m have "init_btrfs_ctrl k (sm_dir sm) c1 = Inr c'"
      by (auto simp: check_dir_init_ctrl_def sm_dir_isdir Let_def bind_res_Inr_iff split: if_splits)
    then show ?thesis using init_btrfs_ctrl_fresh [OF _ none] by blast
  next
    case other
    with assms(1) st m have "c' = c1"
      by (auto simp: check_dir_init_ctrl_def sm_dir_isdir Let_def bind_res_Inr_iff split: if_splits)
    with assms(3) other show ?thesis by simp
  qed
qed

text \<open>The walk only succeeds without an extent when every file has gone by the time it is opened.\<close>

lemma collect_files_nonzero:
  "collect_files fuel k fs c = Inr c' \<Longrightarrow> zonemap c' = Some m \<Longrightarrow> zm_extent_ctr m = 0 \<Longrightarrow>
   \<forall>f\<in>set fs. \<not> os_open k f \<and> \<not> os_access k f"
proof (induction fs arbitrary: c' rule: rev_induct)
  case Nil
  then show ?case by simp
next
  case (snoc f fs)
  then obtain c1 where c1: "collect_files fuel k fs c = Inr c1" "collect_file fuel k f c1 = Inr c'"
    by (auto simp: collect_files_append bind_res_Inr_iff)
  from c1(2) snoc.prems(2,3) have "\<not> os_open k f \<and> \<not> os_access k f \<and> zonemap c1 = Some m"
    by (auto simp: collect_file_def info_def msg_def bind_res_Inr_iff split: if_splits option.splits)
  with snoc.IH [OF c1(1) _ snoc.prems(3)] show ?case by simp
qed

text \<open>C5. The directory walk of \<open>zns.segmap\<close> reads exactly the files of the tree, depth first, and records
  for each its extents on the zoned device: it returns when every directory can be opened, every
  file is described by the kernel and the first file has such an extent, it keeps the invariant
  and counts the files.\<close>

theorem collect_extents_tree:
  assumes "ctrl_inv c" "readable ds" "\<forall>f\<in>set (tree_files p ds). serves_file k fuel es f"
    "unat (nr_files c) + length (tree_files p ds) < 2 ^ 32"
    "size (recorded_in c) + (\<Sum>f\<leftarrow>tree_files p ds. length (es f)) < 2 ^ 32"
    "\<forall>f\<in>set (tree_files p ds). \<forall>fe\<in>set (es f). accepted c fe \<longrightarrow>
       recordable k c (nr_map_zones c) (fe_block c fe)"
    "tree_files p ds = [] \<or> accepted_digests c es (hd (tree_files p ds)) \<noteq> {#} \<or> recorded_in c \<noteq> {#}"
  shows "\<exists>c'. collect_extents fuel k p (Some ds) c = Inr c' \<and> ctrl_inv c' \<and>
    nr_files c' = nr_files c + of_nat (length (tree_files p ds)) \<and>
    image_mset digest (recorded_in c') =
      (\<Sum>f\<leftarrow>tree_files p ds. accepted_digests c es f) + image_mset digest (recorded_in c)"
proof -
  obtain c' where c': "collect_files fuel k (tree_files p ds) c = Inr c'"
    using collect_files_returns [OF assms(1,3-7)] by blast
  have "collect_extents fuel k p (Some ds) c = Inr c'"
    by (simp add: collect_extents_def collect_entries_files [OF assms(2)] c')
  with collect_files_inv [OF assms(1,3-5) c'] show ?thesis by blast
qed

text \<open>The walk ends at a first file without extents on the zoned device.\<close>

text \<open>C29. The walk ends with an error at a first file without extents on the zoned device, whatever files
  follow it.\<close>

theorem collect_extents_stops:
  assumes "ctrl_inv c" "recorded_in c = {#}" "readable ds" "tree_files p ds = f # fs"
    "serves_file k fuel es f" "unat (nr_files c) + 1 < 2 ^ 32" "length (es f) < 2 ^ 32"
    "filter (accepted c) (es f) = []"
  shows "collect_extents fuel k p (Some ds) c = Inl (ErrExit ''No extents found on device'')"
proof -
  have n: "\<forall>fe\<in>set (es f). \<not> accepted c fe" using assms(8) by (simp add: filter_empty_conv)
  have e: "accepted_digests c es f = {#}" by (simp only: accepted_digests_def assms(8)) simp
  have "collect_file fuel k f c = Inl (ErrExit ''No extents found on device'')"
    using collect_file_result [OF assms(1,5,6)] assms(2,7) n e by simp
  then show ?thesis by (simp add: collect_extents_def collect_entries_files [OF assms(3)] assms(4))
qed

text \<open>C33. The warning that no file of a directory has extents is only reached when no file is read: when every
  file of the tree is gone by the time the walk comes to it, as in a tree without files. A file that
  can be opened either has given an extent or has ended the run with an error.\<close>

theorem collect_all_no_extents:
  assumes "collect_all fuel k (Some ds) sm c = Inr (False, c')" "sm_isdir sm" "readable ds"
  shows "\<forall>f\<in>set (tree_files (sm_dir sm) ds). \<not> os_open k f \<and> \<not> os_access k f"
proof -
  from assms(1,2) obtain c1 m where r: "collect_files fuel k (tree_files (sm_dir sm) ds) c = Inr c1"
    "zonemap c1 = Some m" "zm_extent_ctr m = 0"
    by (auto simp: collect_all_def collect_extents_def collect_entries_files [OF assms(3)] bind_res_Inr_iff
        split: option.splits if_splits)
  then show ?thesis by (rule collect_files_nonzero)
qed

text \<open>
  Without the segment table of the kernel there is no segment manager, and the first extent
  that is to be recorded reads through a null pointer.
\<close>

definition no_procfs_warning :: "string \<Rightarrow> out" where
  "no_procfs_warning d = Warn (''Failed opening. Ensure Kernel is running with F2FS Debugging enabled. '' @
     ''Falling back to disabling procfs segment resolving.'')
     [S (''/proc/fs/f2fs/'' @ last (split_on (\<lambda>ch. ch = CHR ''/'') d) @ ''/segment_info'')]"

lemma no_procfs_manager:
  assumes "\<forall>p. os_lines k p = None"
  shows "f2fs_fs_manager_init k d l = Inr (mgr, ls) \<Longrightarrow> mgr = None \<and> ls = [no_procfs_warning d]"
  using assms
  by (auto simp: f2fs_fs_manager_init_def init_procfs_segment_bits_def no_procfs_warning_def Let_def split: if_splits)

text \<open>C32. When the kernel has no segment table, the last line the initialisation prints is the warning that the tool
  falls back to not resolving segments, but there is no segment manager and the first extent to be
  recorded is read through a null pointer.\<close>

theorem no_procfs_crash:
  assumes "check_dir_init_ctrl k l (sm, c) = Inr (l', sm', c')" "os_statfs k (sm_dir sm) = Some F2FS_MAGIC"
    "\<forall>p. os_lines k p = None"
  shows "(\<exists>before. stdout c' = before @ [no_procfs_warning (dev_name (bdev c'))]) \<and>
    fs_manager c' = None \<and> add_fs_info c' e = Inl NullDeref"
proof -
  have m: "F2FS_MAGIC = fs_magic (c\<lparr>fs_magic := F2FS_MAGIC\<rparr>)" for c by simp
  from assms(1) obtain st where st: "os_stat k (sm_dir sm) = Some st"
    by (auto simp: check_dir_init_ctrl_def split: option.splits)
  with assms(1,2) obtain l2 c2 mgr ls where s: "f2fs_fs_manager_init k (dev_name (bdev c2)) l2 = Inr (mgr, ls)"
    "c' = (fold msg ls c2)\<lparr>fs_manager := mgr, fs_info_init := Some fs_info_initialize,
       fs_info_show := Some f2fs_show_segment, fs_info_bytes := get_fs_info_bytes\<rparr>"
    by (auto simp: check_dir_init_ctrl_def sm_dir_isdir Let_def bind_res_Inr_iff set_fs_magic_def)
  from no_procfs_manager [OF assms(3) s(1)] s(2)
  show ?thesis by (simp add: add_fs_info_def get_fs_info_bytes_def fs_info_initialize_def msg_def)
qed

section \<open>The command line\<close>

definition given :: "char \<Rightarrow> (char \<times> string) list \<Rightarrow> bool" where
  "given o' opts \<longleftrightarrow> o' \<in> fst ` set opts"

lemma given_simps [simp]: "\<not> given o' []" "given o' ((q, a) # r) \<longleftrightarrow> o' = q \<or> given o' r"
  by (auto simp: given_def)

text \<open>What the tests on the flags look at.\<close>

fun flag_view :: "option_state \<Rightarrow> bool list" where
  "flag_view (f, sm, c) = [set_dir f, set_zone f, set_zone_start f \<or> set_zone_end f, procfs c,
     show_only_stats c, show_class_stats c]"

definition given_view :: "(char \<times> string) list \<Rightarrow> bool list" where
  "given_view os = [given CHR ''d'' os, given CHR ''z'' os, given CHR ''s'' os \<or> given CHR ''e'' os,
     given CHR ''p'' os, given CHR ''o'' os, given CHR ''c'' os \<or> given CHR ''o'' os]"

lemma segmap_option_flags:
  "segmap_option q a s = Inr s' \<Longrightarrow> flag_view s' = map2 (\<or>) (flag_view s) (given_view [(q, a)])"
  by (cases s) (auto simp: segmap_option_def given_view_def split: if_splits)

lemma given_view_Cons: "given_view ((q, a) # os) = map2 (\<or>) (given_view [(q, a)]) (given_view os)"
  by (auto simp: given_view_def)

lemma segmap_options_flags:
  "segmap_options os s = Inr s' \<Longrightarrow> flag_view s' = map2 (\<or>) (flag_view s) (given_view os)"
proof (induction os s rule: segmap_options.induct)
  case (1 s)
  then show ?case by (cases s') (simp add: given_view_def)
next
  case (2 q a os s)
  from "2.prems" obtain s1 where s1: "segmap_option q a s = Inr s1" "segmap_options os s1 = Inr s'"
    by (auto simp: bind_res_Inr_iff)
  from "2.IH" [OF s1] have "flag_view s' = map2 (\<or>) (flag_view s1) (given_view os)" .
  then show ?case
    unfolding segmap_option_flags [OF s1(1)] given_view_Cons [of q a os]
    by (cases s) (simp add: given_view_def disj_assoc)
qed

text \<open>The options the \<open>switch\<close> has a case for, the help apart.\<close>

definition known_option :: "char \<Rightarrow> bool" where
  "known_option q \<longleftrightarrow> q \<in> set ''dlijwszepcon''"

definition all_known :: "(char \<times> string) list \<Rightarrow> bool" where
  "all_known os \<longleftrightarrow> list_all (\<lambda>opt. known_option (fst opt)) os"

lemma all_known_simps [simp]:
  "all_known []" "all_known (opt # os) \<longleftrightarrow> known_option (fst opt) \<and> all_known os"
  by (simp_all add: all_known_def)

lemma segmap_option_Inl: "segmap_option q a s = Inl e \<longleftrightarrow> \<not> known_option q \<and> e = HelpExit segmap_show_help"
  by (cases s) (auto simp: segmap_option_def known_option_def)

lemma segmap_options_result:
  "case segmap_options os s of Inl e \<Rightarrow> \<not> all_known os \<and> e = HelpExit segmap_show_help | Inr s' \<Rightarrow> all_known os"
proof (induction os arbitrary: s)
  case Nil
  then show ?case by simp
next
  case (Cons opt os)
  obtain q a where o: "opt = (q, a)" by (cases opt)
  show ?case
  proof (cases "segmap_option q a s")
    case (Inl e)
    then show ?thesis using segmap_option_Inl [of q a s e] by (simp add: o)
  next
    case (Inr s1)
    then have "known_option q" using segmap_option_Inl [of q a s "HelpExit segmap_show_help"] by auto
    with Inr Cons.IH [of s1] show ?thesis by (simp add: o split: sum.splits)
  qed
qed

text \<open>The flag combinations that end the run before anything is read.\<close>

definition flags_rejected :: "(char \<times> string) list \<Rightarrow> bool" where
  "flags_rejected opts \<longleftrightarrow> \<not> given CHR ''d'' opts \<or>
     given CHR ''z'' opts \<and> (given CHR ''s'' opts \<or> given CHR ''e'' opts) \<or>
     given CHR ''o'' opts \<and> \<not> given CHR ''p'' opts"

lemma check_flags_rejects:
  assumes "segmap_options opts (no_flags, sm, c) = Inr (f, sm', c')"
    "\<not> procfs c" "\<not> show_only_stats c" "\<not> show_class_stats c"
  shows "(\<exists>e. check_flags f c' = Inl e) \<longleftrightarrow> flags_rejected opts"
  using segmap_options_flags [OF assms(1)] assms(2-4)
  by (auto simp: check_flags_def flags_rejected_def no_flags_def given_view_def)

text \<open>C30. The combinations of options that are errors (no \<open>-d\<close>; \<open>-z\<close> with \<open>-s\<close> or \<open>-e\<close>; \<open>-o\<close> without \<open>-p\<close>)
  end \<open>zns.segmap\<close> with an error message on every machine, before anything is read; or with the help,
  which comes first when it is asked for or an option is not known.\<close>

theorem segmap_main_rejects:
  assumes "flags_rejected (getopt segmap_optstring args)"
  shows "\<exists>e. (\<forall>J time k ds. segmap_main fuel (J :: 'j json_api) time k ds prog args = Inl e) \<and>
    (if all_known (getopt segmap_optstring args) then \<exists>text. e = ErrExit text else e = HelpExit segmap_show_help)"
proof -
  let ?c = "zero_control\<lparr>exclude_flags := FIEMAP_EXTENT_DATA_INLINE, show_holes := True, argv0 := prog\<rparr>"
  let ?s = "(no_flags, zero_segmap_manager, ?c)"
  note res = segmap_options_result [of "getopt segmap_optstring args" ?s]
  show ?thesis
  proof (cases "segmap_options (getopt segmap_optstring args) ?s")
    case (Inl e)
    with res show ?thesis by (intro exI [of _ e]) (simp add: segmap_main_def)
  next
    case (Inr t)
    obtain f sm c where t: "t = (f, sm, c)" by (cases t)
    have "\<exists>e. check_flags f c = Inl e"
      using check_flags_rejects [OF Inr [unfolded t]] assms by (simp add: zero_control_def)
    then obtain e where "check_flags f c = Inl (ErrExit e)" by (auto simp: check_flags_def split: if_splits)
    with Inr t res show ?thesis by (intro exI [of _ "ErrExit e"]) (simp add: segmap_main_def)
  qed
qed

text \<open>C15. The initialisation of \<open>zns.segmap\<close> on F2FS or Btrfs, when it returns, establishes the
  invariant of the collection with nothing recorded, and the segment geometry of the device.\<close>

theorem check_dir_establishes:
  assumes "check_dir_init_ctrl k l (sm, c) = Inr (l', sm', c')" "unused c"
    "fs_magic c' = F2FS_MAGIC \<or> fs_magic c' = BTRFS_MAGIC"
  shows "ctrl_inv c' \<and> recorded_in c' = {#} \<and> nr_files c' = 0 \<and> has_geometry c'"
  using check_dir_fresh [OF assms] by (simp add: fresh_inv_def)

end
