(* ===== verification/Segmap_Total.thy ===== *)
theory Segmap_Total
  imports Segmap_Counts
begin

text \<open>
  The segment report succeeds: under the invariant of the collection, with extents that carry
  their segment information and zones the device reports, no step of the report fails, so
  the lines of \<open>Segmap_Spec\<close> are printed.
\<close>

section \<open>Results that are there\<close>

definition yields :: "'a res \<Rightarrow> ('a \<Rightarrow> bool) \<Rightarrow> bool" where
  "yields r P \<longleftrightarrow> (\<exists>x. r = Inr x \<and> P x)"

lemma yields_simps [simp]: "yields (Inr x) P \<longleftrightarrow> P x" "\<not> yields (Inl e) P"
  by (simp_all add: yields_def)

lemma yields_bind: "yields r P \<Longrightarrow> (\<And>x. r = Inr x \<Longrightarrow> P x \<Longrightarrow> yields (f x) Q) \<Longrightarrow> yields (bind_res r f) Q"
  by (auto simp: yields_def)

lemma yields_cong: "yields r P \<Longrightarrow> (\<And>x. P x \<Longrightarrow> Q x) \<Longrightarrow> yields r Q"
  by (auto simp: yields_def)

section \<open>What stays true during the report\<close>

text \<open>The array of the per-file statistics has room for every file with a recorded extent.\<close>

definition room :: "control \<Rightarrow> segmap_manager \<Rightarrow> bool" where
  "room c sm \<longleftrightarrow> (show_class_stats c \<longrightarrow> stats_shape sm \<and>
     stats_keys sm \<subseteq> e_file ` set_mset (recorded_in c) \<and> length (sm_fs sm) = unat (nr_files c))"

definition same_report :: "control \<Rightarrow> control \<Rightarrow> bool" where
  "same_report c c' \<longleftrightarrow> (\<exists>ls. seg_frame c ls c')"

lemma same_report_refl: "same_report c c"
  using seg_frame_refl by (auto simp: same_report_def)

lemma same_report_trans: "same_report a b \<Longrightarrow> same_report b c \<Longrightarrow> same_report a c"
  using seg_frame_trans by (fastforce simp: same_report_def)

lemma same_report_msg: "same_report c (msg l c)"
  using seg_frame_msg by (auto simp: same_report_def)

lemma same_report_cur: "same_report c (c\<lparr>cur_segment := g\<rparr>)"
  using seg_frame_cur by (auto simp: same_report_def)

text \<open>The file system has a function that shows a segment; with \<open>-o\<close> only the statistics are shown.\<close>

definition showing :: "control \<Rightarrow> bool" where
  "showing c \<longleftrightarrow> fs_info_show c = Some f2fs_show_segment"

lemma reporting_showing: "reporting c \<Longrightarrow> showing c"
  by (simp add: reporting_def showing_def)

lemma same_report_showing: "same_report c c' \<Longrightarrow> showing c' = showing c"
  using seg_frame_fields by (auto simp: same_report_def showing_def)

text \<open>An extent the report can print: its segment information, its zone and its counters.\<close>

definition reportable :: "os \<Rightarrow> control \<Rightarrow> extent \<Rightarrow> bool" where
  "reportable k c e \<longleftrightarrow> e \<in># recorded_in c \<and> fs_info e \<noteq> None \<and> zone_cap e \<noteq> 0 \<and>
     push_bit (zsh c) (b_zone_size (znsdev c)) \<noteq> 0 \<and> (\<exists>r. report_zone k (e_zone e) c = Inr r)"

section \<open>The steps\<close>

lemma yields_count: "ext_view c \<noteq> None \<Longrightarrow> yields (get_file_extent_count f c) (\<lambda>_. True)"
  by (auto simp: get_file_extent_count_view)

lemma same_report_view: "same_report c c' \<Longrightarrow> ext_view c' = ext_view c"
  by (auto simp: same_report_def seg_frame_def)

lemma yields_piece:
  assumes "same_report c c1" "ext_view c \<noteq> None"
  shows "yields (rep_piece a b s e c1) (same_report c)"
proof -
  have "ext_view c1 \<noteq> None" using same_report_view [OF assms(1)] assms(2) by simp
  then show ?thesis
    using assms(1) same_report_trans [OF assms(1) same_report_msg] yields_count [of c1 "e_file e"]
    by (auto simp: rep_piece_def yields_def)
qed

lemma yields_info:
  assumes "same_report c c1" "showing c" "fs_info e \<noteq> None"
  shows "yields (show_segment_info e sid c1) (same_report c)"
proof -
  have r: "fs_info_show c1 = Some f2fs_show_segment"
    using same_report_showing [OF assms(1)] assms(2) by (simp add: showing_def)
  obtain c2 where c2: "show_segment_info e sid c1 = Inr c2" using f2fs.info_shown [OF r assms(3)] by blast
  have "same_report c1 c2"
    using cuts_env [OF cuts_segment_info [OF c2 r]] by (simp add: same_report_def)
  with c2 same_report_trans [OF assms(1)] show ?thesis by simp
qed

lemma yields_info_piece:
  assumes "same_report c c1" "showing c" "ext_view c \<noteq> None" "fs_info e \<noteq> None"
  shows "yields (bind_res (show_segment_info e sid c1) (rep_piece a b s e)) (same_report c)"
  by (rule yields_bind [OF yields_info [OF assms(1,2,4)]]) (rule yields_piece [OF _ assms(3)])

lemma room_cong:
  "sm_fs sm' = sm_fs sm \<Longrightarrow> sm_ctr sm' = sm_ctr sm \<Longrightarrow> room c sm' = room c sm"
  by (simp add: room_def stats_shape_def stats_keys_def stats_active_def)

lemma yields_set:
  assumes "ctrl_inv c" "same_report c c1" "reportable k c e" "room c sm"
  shows "yields (set_segment_counters c1 n e sm) (room c)"
proof -
  obtain si where si: "fs_info e = Some si" using assms(3) by (auto simp: reportable_def)
  have f: "show_class_stats c1 = show_class_stats c" "nr_files c1 = nr_files c"
    using assms(2) seg_frame_fields by (auto simp: same_report_def)
  let ?sm = "sm\<lparr>sm_segment_ctr := sm_segment_ctr sm + n\<rparr>"
  have rm: "room c ?sm" using assms(4) room_cong [of ?sm sm] by simp
  show ?thesis
  proof (cases "show_class_stats c \<and> 1 < nr_files c")
    case False
    have "room c (bump_heat (si_type si) n ?sm)" using rm room_cong [of "bump_heat (si_type si) n ?sm" ?sm] by simp
    with False assms(4) show ?thesis
      unfolding set_segment_counters_def si f option.case if_not_P [OF False] Let_def by (simp split: if_split)
  next
    case True
    show ?thesis
    proof (cases "e_flags e AND FIEMAP_EXTENT_DATA_INLINE \<noteq> 0 \<and> exclude_flags c1 AND FIEMAP_EXTENT_DATA_INLINE = 0")
      case skip: True
      then show ?thesis using assms(4) unfolding set_segment_counters_def si by simp
    next
      case ninl: False
      from rm True have sh: "stats_shape ?sm" "stats_keys ?sm \<subseteq> e_file ` set_mset (recorded_in c)"
        "length (sm_fs ?sm) = unat (nr_files c)" by (simp_all add: room_def)
      have e: "e \<in># recorded_in c" using assms(3) by (simp add: reportable_def)
      from stats_index_in_range [OF assms(1) e sh] obtain i sm1 where
        "get_file_stats_index (e_file e) ?sm = Inr (i, sm1)" by blast
      then obtain sm' where sm': "set_segment_counters c1 n e sm = Inr sm'"
        using True unfolding set_segment_counters_def si f if_not_P [OF ninl] Let_def by simp
      from assms(1) e have "e_file e \<in> fcm_keys (counters c)" "fcm_inv (counters c)"
        by (auto simp: ctrl_inv_def files_inv_def recorded_in_def)
      then have "counted c1 e" using True ninl by (auto simp: counted_def f fcm_inv_def)
      moreover have "stats_shape sm" using assms(4) True by (simp add: room_def)
      ultimately have "stats_shape sm' \<and> stats_keys sm' = insert (e_file e) (stats_keys sm) \<and>
          length (sm_fs sm') = length (sm_fs sm)" by (rule set_segment_counters_shape [OF sm'])
      with assms(4) True e have "room c sm'" by (simp add: room_def)
      with sm' show ?thesis by simp
    qed
  qed
qed

section \<open>One extent\<close>

definition ready :: "control \<Rightarrow> report_state \<Rightarrow> bool" where
  "ready c s \<longleftrightarrow> room c (fst s) \<and> same_report c (snd s)"

lemma ready_pair [simp]: "ready c (sm, c1) \<longleftrightarrow> room c sm \<and> same_report c c1"
  by (simp add: ready_def)

definition printable :: "os \<Rightarrow> control \<Rightarrow> extent \<Rightarrow> bool" where
  "printable k c e \<longleftrightarrow> ctrl_inv c \<and> showing c \<and> ext_view c \<noteq> None \<and> reportable k c e"

lemma printableD:
  assumes "printable k c e"
  shows "ctrl_inv c" "showing c" "ext_view c \<noteq> None" "reportable k c e" "fs_info e \<noteq> None"
  using assms by (simp_all add: printable_def reportable_def)

lemma yields_set_pair:
  assumes "printable k c e" "same_report c c1" "room c sm"
  shows "yields (bind_res (set_segment_counters c1 n e sm) (\<lambda>sm. Inr (sm, c1))) (ready c)"
  by (rule yields_bind [OF yields_set [OF printableD(1) [OF assms(1)] assms(2) printableD(4) [OF assms(1)] assms(3)]])
    (simp add: assms(2))

lemma yields_single:
  assumes "printable k c e" "ready c (sm, c1)"
  shows "yields (show_single e sid (sm, c1)) (ready c)"
proof -
  note p = printableD [OF assms(1)]
  have r: "room c sm" "same_report c c1" using assms(2) by simp_all
  have a: "yields (bind_res (show_segment_info e sid c1) (\<lambda>c. bind_res
      (set_segment_counters (c\<lparr>cur_segment := sid\<rparr>) 1 e sm) (\<lambda>sm. Inr (sm, c\<lparr>cur_segment := sid\<rparr>)))) (ready c)"
    by (rule yields_bind [OF yields_info [OF r(2) p(2,5)]])
      (rule yields_set_pair [OF assms(1) same_report_trans [OF _ same_report_cur] r(1)])
  have b: "yields (case s of (sm, c) \<Rightarrow> bind_res (rep_piece (phy_blk e) (phy_blk e + e_len e) (e_len e) e c)
      (\<lambda>c. Inr (sm, c))) (ready c)" if "ready c s" for s
    using that by (cases s) (auto intro!: yields_bind [OF yields_piece [OF _ p(3)]])
  show ?thesis
    unfolding show_single_def prod.case Let_def
    by (rule yields_bind [where P = "ready c"]) (use a r in simp, rule b)
qed

lemma yields_beginning:
  assumes "printable k c e" "ready c (sm, c1)"
  shows "yields (show_beginning e sid (sm, c1)) (\<lambda>(q, s). ready c s)"
proof -
  note p = printableD [OF assms(1)]
  have r: "room c sm" "same_report c c1" using assms(2) by simp_all
  have a: "yields (if sid \<noteq> cur_segment c1 then show_segment_info e q c1 else Inr c1) (same_report c)" for q
    using yields_info [OF r(2) p(2,5)] r(2) by simp
  have b: "yields (show_beginning_segment e c2) (same_report c)" if "same_report c c2" for c2
    unfolding show_beginning_segment_def Let_def by (rule yields_piece [OF that p(3)])
  have d: "yields (bind_res (set_segment_counters c2 1 e sm) (\<lambda>sm. Inr (sid + 1, sm, c2))) (\<lambda>(q, s). ready c s)"
    if "same_report c c2" for c2
    by (rule yields_bind [OF yields_set [OF p(1) that p(4) r(1)]]) (simp add: that)
  have m: "yields (bind_res (if sid \<noteq> cur_segment c1 then show_segment_info e q c1 else Inr c1) (\<lambda>c.
      bind_res (show_beginning_segment e c) (\<lambda>c.
      bind_res (set_segment_counters c 1 e sm) (\<lambda>sm. Inr (sid + 1, sm, c))))) (\<lambda>(q, s). ready c s)" for q
    by (rule yields_bind [OF a], rule yields_bind [OF b], assumption, rule d)
  show ?thesis using m r unfolding show_beginning_def prod.case by (simp split: if_split)
qed

lemma yields_consecutive:
  assumes "printable k c e" "ready c (sm, c1)"
  shows "yields (show_consecutive_segments e sid (sm, c1)) (ready c)"
proof -
  note p = printableD [OF assms(1)]
  have r: "room c sm" "same_report c c1" using assms(2) by simp_all
  have a: "yields (if b then set_segment_counters c1 n e sm else Inr sm) (room c)" for b n
    using yields_set [OF p(1) r(2) p(4) r(1)] r(1) by simp
  have rp: "same_report c (rep q l c1)" for q l
    using r(2) same_report_trans [OF r(2) same_report_msg] by (simp add: rep_def)
  have i: "yields (bind_res (show_segment_info e s c2) (rep_piece x y z e)) (same_report c)"
    if "same_report c c2" for s x y z c2
    by (rule yields_info_piece [OF that p(2,3,5)])
  show ?thesis
    unfolding show_consecutive_segments_def prod.case Let_def
    by (rule yields_bind [OF a], rule yields_bind [where P = "same_report c"])
      (simp_all add: i r rp)
qed

lemma yields_remainder:
  "printable k c e \<Longrightarrow> same_report c c1 \<Longrightarrow> yields (show_remainder_segment e c1) (same_report c)"
  unfolding show_remainder_segment_def Let_def
  by (rule yields_info_piece) (simp_all add: printableD)

lemma yields_multiple:
  assumes "printable k c e" "ready c (sm, c1)"
  shows "yields (show_multiple e sid (sm, c1)) (ready c)"
proof -
  have m: "yields (if b then show_consecutive_segments e q (sm2, c2) else Inr (sm2, c2)) (ready c)"
    if "ready c (sm2, c2)" for b q sm2 c2
    using yields_consecutive [OF assms(1) that] that by (simp split: if_split)
  have l: "yields (if b then bind_res (show_remainder_segment e c3)
      (\<lambda>c. bind_res (set_segment_counters c 1 e sm3) (\<lambda>sm. Inr (sm, c))) else Inr (sm3, c3)) (ready c)"
    if "ready c (sm3, c3)" for b sm3 c3
  proof -
    have r: "room c sm3" "same_report c c3" using that by simp_all
    have "yields (bind_res (show_remainder_segment e c3)
        (\<lambda>c. bind_res (set_segment_counters c 1 e sm3) (\<lambda>sm. Inr (sm, c)))) (ready c)"
      by (rule yields_bind [OF yields_remainder [OF assms(1) r(2)]]) (rule yields_set_pair [OF assms(1) _ r(1)])
    with that show ?thesis by (simp split: if_split)
  qed
  have ml: "yields (bind_res (if b then show_consecutive_segments e q (sm2, c2) else Inr (sm2, c2)) (\<lambda>(sm, c).
      if d then bind_res (show_remainder_segment e c)
        (\<lambda>c. bind_res (set_segment_counters c 1 e sm) (\<lambda>sm. Inr (sm, c))) else Inr (sm, c))) (ready c)"
    if "ready c (sm2, c2)" for b d q sm2 c2
    by (rule yields_bind [OF m [OF that]]) (auto simp del: ready_pair intro!: l)
  show ?thesis
    unfolding show_multiple_def
    by (rule yields_bind [OF yields_beginning [OF assms]])
      (auto simp: Let_def simp del: ready_pair intro!: ml)
qed

lemma same_report_fields:
  assumes "same_report c c1"
  shows "znsdev c1 = znsdev c \<and> zns_sector_shift c1 = zns_sector_shift c \<and>
     zonemap c1 = zonemap c \<and> report_zone k z c1 = report_zone k z c"
proof -
  have "znsdev c1 = znsdev c" "zns_sector_shift c1 = zns_sector_shift c" "zonemap c1 = zonemap c"
    using assms seg_frame_fields by (auto simp: same_report_def)
  then show ?thesis by (simp add: report_zone_def)
qed

lemma yields_zone_info:
  assumes "same_report c c1" "report_zone k z c = Inr r"
  shows "yields (print_zone_info k z c1) (same_report c)"
proof -
  have "report_zone k z c1 = Inr r" using same_report_fields [OF assms(1)] assms(2) by simp
  then show ?thesis
    using assms(1) same_report_trans [OF assms(1) same_report_msg]
    by (simp add: print_zone_info_def split: option.split)
qed

lemma yields_enter:
  assumes "printable k c e" "same_report c c1"
  shows "yields (enter_zone k e z c1) (same_report c)"
proof -
  obtain r where "report_zone k (e_zone e) c = Inr r"
    using assms(1) by (auto simp: printable_def reportable_def)
  from yields_zone_info [OF assms(2) this] assms(2) show ?thesis
    by (simp add: enter_zone_def)
qed

text \<open>The counters of a file with a recorded extent are found.\<close>

lemma counter_found:
  assumes "printable k c e" "same_report c c1"
  shows "\<exists>m i. file_counter_map c1 = Some m \<and> index_of (same_file (e_file e)) (active m) = Some i \<and>
    i < length (files m)"
proof -
  note p = printableD [OF assms(1)]
  have v: "ext_view c1 = ext_view c" by (rule same_report_view [OF assms(2)])
  from p(3) obtain fm where fm: "file_counter_map c = Some fm" by (auto simp: ext_view_def)
  from v fm obtain m where m: "file_counter_map c1 = Some m" "file_ctr m = file_ctr fm"
    "map (\<lambda>f. (fc_file f, fc_ext_ctr f)) (files m) = map (\<lambda>f. (fc_file f, fc_ext_ctr f)) (files fm)"
    by (auto simp: ext_view_def split: option.splits)
  have "map fc_file (files m) = map fc_file (files fm)"
    using arg_cong [OF m(3), of "map fst"] by (simp add: o_def)
  then have "map fc_file (active m) = map fc_file (active fm)" by (simp add: active_def m(2) flip: take_map)
  then have keys: "fcm_keys m = fcm_keys fm" by (metis fcm_keys_def)
  have "e \<in># recorded_in c" using p(4) by (simp add: reportable_def)
  then have "e_file e \<in> fcm_keys m"
    using p(1) fm by (auto simp: keys ctrl_inv_def files_inv_def recorded_in_def counters_def)
  then obtain i where i: "index_of (same_file (e_file e)) (active m) = Some i"
    by (cases "index_of (same_file (e_file e)) (active m)") (auto simp: index_of_None same_file_eq fcm_keys_def)
  then have "i < length (active m)" by (rule index_of_less)
  with i m(1) show ?thesis by (auto simp: active_def)
qed

lemma yields_increase:
  assumes "printable k c e" "same_report c c1"
  shows "yields (increase_file_segment_counter (e_file e) n cur (fs_info e) (zone_cap e) c1) (same_report c)"
proof -
  note p = printableD [OF assms(1)]
  obtain si where si: "fs_info e = Some si" using p(5) by blast
  obtain m i where m: "file_counter_map c1 = Some m" "index_of (same_file (e_file e)) (active m) = Some i"
    "i < length (files m)" using counter_found [OF assms] by blast
  have cap: "zone_cap e \<noteq> 0" and zs: "push_bit (zsh c1) (b_zone_size (znsdev c1)) \<noteq> 0"
    using p(4) same_report_fields [OF assms(2)] by (simp_all add: reportable_def)
  have "\<exists>c2. increase_file_segment_counter (e_file e) n cur (fs_info e) (zone_cap e) c1 = Inr c2"
    using m cap zs by (simp add: increase_file_segment_counter_def si get_zone_number_def bump_zones_def Let_def)
  then obtain c2 where c2: "increase_file_segment_counter (e_file e) n cur (fs_info e) (zone_cap e) c1 = Inr c2" ..
  have "same_report c1 c2" using increase_file_segment_counter_frame [OF c2] by (auto simp: same_report_def)
  with c2 same_report_trans [OF assms(2)] show ?thesis by simp
qed

lemma yields_extent:
  assumes "printable k c e" "ready c (sm, c1)"
  shows "yields (report_extent k e (z, sm, c1)) (\<lambda>(z, s). ready c s)"
proof -
  have r: "room c sm" "same_report c c1" using assms(2) by simp_all
  have l: "yields (bind_res (if b then show_single e q (sm, c2) else show_multiple e q (sm, c2))
      (\<lambda>s. Inr (e_zone e, s))) (\<lambda>(z, s). ready c s)" if "same_report c c2" for b q c2
    by (rule yields_bind [where P = "ready c"])
      (use yields_single [OF assms(1)] yields_multiple [OF assms(1)] that r in \<open>simp_all split: if_split\<close>)
  show ?thesis
    unfolding report_extent_def prod.case Let_def
    by (rule yields_bind [OF yields_enter [OF assms(1) r(2)]],
        rule yields_bind [OF yields_increase [OF assms(1)]], assumption, rule l)
qed

section \<open>The whole report\<close>

lemma same_report_range:
  "same_report c c1 \<Longrightarrow> start_blk c1 e = start_blk c e \<and> report_end_lba c1 = report_end_lba c \<and>
     report_start_lba c1 = report_start_lba c"
  using range_frame by (auto simp: same_report_def)

lemma yields_zone_extents:
  "\<forall>e\<in>set es. printable k c e \<and> report_start_lba c \<le> start_blk c e \<Longrightarrow> length es \<le> fuel \<Longrightarrow> ready c s \<Longrightarrow>
   yields (report_zone_extents fuel k es (z, s)) (\<lambda>(z, s). ready c s)"
proof (induction es arbitrary: fuel z s)
  case Nil
  then show ?case by (cases s) simp
next
  case (Cons e es)
  from Cons.prems(2) obtain n where fuel: "fuel = Suc n" "length es \<le> n" by (cases fuel) auto
  obtain sm c1 where s: "s = (sm, c1)" by (cases s)
  have r: "same_report c c1" and p: "printable k c e" using Cons.prems(1,3) by (simp_all add: s)
  have b: "push_bit (ssh c1) (segment_id_of c1 (phy_blk e)) = start_blk c e"
    "report_end_lba c1 = report_end_lba c" "report_start_lba c1 = report_start_lba c"
    using same_report_range [OF r, of e] by (simp_all add: start_blk_def)
  have "\<not> start_blk c e < report_start_lba c" using Cons.prems(1) by (simp add: not_less)
  moreover have "yields (bind_res (report_extent k e (z, sm, c1)) (report_zone_extents n k es)) (\<lambda>(z, s). ready c s)"
    by (rule yields_bind [OF yields_extent [OF p Cons.prems(3) [unfolded s]]])
      (use Cons.IH [OF _ fuel(2)] Cons.prems(1) in auto)
  ultimately show ?case
    using Cons.prems(3) by (simp add: fuel(1) s b Let_def)
qed

lemma yields_all_zones:
  "\<forall>i\<in>set is. i < length (zones m) \<and> length (extents (zones m ! i)) \<le> fuel \<and>
     (\<forall>e\<in>set (extents (zones m ! i)). printable k c e \<and> report_start_lba c \<le> start_blk c e) \<Longrightarrow>
   ready c s \<Longrightarrow> yields (report_all_zones fuel k m is (z, s)) (\<lambda>(z, s). ready c s)"
proof (induction "is" arbitrary: z s)
  case Nil
  then show ?case by simp
next
  case (Cons i "is")
  have "yields (bind_res (report_zone_extents fuel k (extents (zones m ! i)) (z, s)) (report_all_zones fuel k m is))
      (\<lambda>(z, s). ready c s)"
    by (rule yields_bind [OF yields_zone_extents]) (use Cons in auto)
  with Cons show ?case by simp
qed

lemma yields_stats:
  assumes "ctrl_inv c" "ext_view c \<noteq> None" "same_report c c1"
  shows "yields (show_segment_stats sm c1) (\<lambda>_. True)"
proof -
  obtain fm where fm: "file_counter_map c = Some fm" using assms(2) by (auto simp: ext_view_def)
  then have fi: "fcm_inv fm" using assms(1) by (auto simp: ctrl_inv_def files_inv_def counters_def)
  from same_report_view [OF assms(3)] fm obtain m where m: "file_counter_map c1 = Some m"
    "file_ctr m = file_ctr fm" "length (files m) = length (files fm)"
    by (auto simp: ext_view_def dest: arg_cong [of _ _ length] split: option.splits)
  have "\<not> length (files m) < unat (file_ctr m)" using fi by (simp add: m fcm_inv_def)
  then show ?thesis using m(1) by (simp add: show_segment_stats_def Let_def)
qed

lemma ready_start:
  assumes "ctrl_inv c" "sm_ctr sm = 0"
  shows "room c (if show_class_stats c then sm\<lparr>sm_fs := replicate (unat (nr_files c)) zero_file_stats\<rparr> else sm)"
  using assms(2) by (simp add: room_def stats_shape_def stats_keys_def stats_active_def)

lemma ext_view_recorded: "ctrl_inv c \<Longrightarrow> e \<in># recorded_in c \<Longrightarrow> ext_view c \<noteq> None"
  by (auto simp: ctrl_inv_def files_inv_def recorded_in_def counters_def ext_view_def no_files_def
      fcm_keys_def active_def split: option.splits)

lemma show_segment_report_total:
  assumes "ctrl_inv c" "showing c" "zonemap c = Some m" "sm_ctr sm = 0" "recorded m \<noteq> {#}"
    "\<forall>e\<in>#recorded m. reportable k c e \<and> report_start_lba c \<le> start_blk c e"
    "\<forall>z\<in>set (zones m). length (extents z) \<le> fuel"
  shows "\<exists>sm' c'. show_segment_report fuel k (sm, c) = Inr (sm', c')"
proof -
  let ?c = "rep (show_only_stats c) (Text ''SEGMENT MAPPINGS'') c"
  let ?sm = "if show_class_stats c then sm\<lparr>sm_fs := replicate (unat (nr_files c)) zero_file_stats\<rparr> else sm"
  have inv: "zm_inv m" using assms(1,3) by (auto simp: ctrl_inv_def)
  then have nz: "unat (zm_nr_zones m) = length (zones m)" by (simp add: zm_inv_def)
  have rc: "recorded_in c = recorded m" by (simp add: recorded_in_def assms(3))
  obtain e0 where "e0 \<in># recorded_in c" using assms(5) rc by auto
  with assms(1) have v: "ext_view c \<noteq> None" by (rule ext_view_recorded)
  have p: "printable k c e" if "e \<in># recorded m" for e
    using that assms(1,2,6) v by (simp add: printable_def)
  have sr: "same_report c ?c" using same_report_msg same_report_refl by (simp add: rep_def)
  have z: "\<forall>i\<in>set [0..<length (zones m)]. i < length (zones m) \<and> length (extents (zones m ! i)) \<le> fuel \<and>
     (\<forall>e\<in>set (extents (zones m ! i)). printable k c e \<and> report_start_lba c \<le> start_blk c e)"
    using assms(6,7) p recorded_member by auto
  have "ready c (?sm, ?c)" using ready_start [OF assms(1,4)] sr by simp
  from yields_all_zones [OF z this, of 0] have all:
    "yields (report_all_zones fuel k m [0..<length (zones m)] (0, ?sm, ?c)) (\<lambda>(z, s). ready c s)" .
  have zm: "zonemap ?c = Some m" using assms(3) by (simp add: rep_def)
  have st: "yields (bind_res (show_segment_stats sm1 c1) (\<lambda>c. Inr (sm1, c))) (\<lambda>_. True)"
    if "same_report c c1" for sm1 c1
    by (rule yields_bind [OF yields_stats [OF assms(1) v that]]) simp
  have "yields (show_segment_report fuel k (sm, c)) (\<lambda>_. True)"
    unfolding show_segment_report_def prod.case Let_def zm option.case nz
    by (rule yields_bind [OF all]) (auto intro: st)
  then show ?thesis by (auto simp: yields_def)
qed

lemma show_segment_report_yields:
  assumes "ctrl_inv c" "reporting c" "zonemap c = Some m" "sm_ctr sm = 0" "recorded m \<noteq> {#}"
    "\<forall>e\<in>#recorded m. reportable k c e \<and> report_start_lba c \<le> start_blk c e"
    "\<forall>z\<in>set (zones m). length (extents z) \<le> fuel"
  shows "\<exists>sm' c' ls. show_segment_report fuel k (sm, c) = Inr (sm', c') \<and> stdout c' = stdout c @ ls \<and>
    piece_lines ls = concat (map (zone_pieces c) (zones m)) \<and> zonemap c' = zonemap c"
proof -
  have inv: "zm_inv m" using assms(1,3) by (auto simp: ctrl_inv_def)
  obtain sm' c' where r: "show_segment_report fuel k (sm, c) = Inr (sm', c')"
    using show_segment_report_total [OF assms(1) reporting_showing [OF assms(2)] assms(3-7)] by blast
  from show_segment_report_lines [OF r assms(2,3) inv] show_segment_report_zonemap [OF r assms(2,3) inv] r
  show ?thesis by (auto simp: assms(3))
qed

text \<open>C3. The segment report of \<open>zns.segmap\<close> succeeds and prints, zone by zone and in address order,
  the pieces of every extent in the range of zones, each with the file name, the number of the
  extent and the number of extents of its file. It needs the invariant of the collection, the
  segment information of every extent, a device that reports the zones, no extent in front of
  the start zone, and fuel for the longest list of a zone.\<close>

theorem show_segment_report_prints:
  assumes "ctrl_inv c" "reporting c" "zonemap c = Some m" "sm_ctr sm = 0" "recorded m \<noteq> {#}"
    "\<forall>e\<in>#recorded m. reportable k c e \<and> report_start_lba c \<le> start_blk c e"
    "\<forall>z\<in>set (zones m). length (extents z) \<le> fuel"
  shows "\<exists>sm' c' ls. show_segment_report fuel k (sm, c) = Inr (sm', c') \<and> stdout c' = stdout c @ ls \<and>
    piece_lines ls = concat (map (zone_pieces c) (zones m))"
  using show_segment_report_yields [OF assms] by blast

end
