(* ===== verification/Imap.thy ===== *)
theory Imap
  imports Geometry Nat_Scan Fiemap_Report
begin

text \<open>
  The tool \<open>zns.imap\<close> (\<open>src/imap.c\<close>): it looks for the inode of a file in the NAT, reads the
  node block each candidate entry names until one is an inode, and prints its location, its
  footer and its fields.
\<close>

section \<open>The search\<close>

text \<open>
  \<open>do ... while (!IS_INODE(node_block))\<close>; every round goes on in the NAT where the last one
  stopped. \<open>bpath\<close> is the conventional device with the NAT, \<open>zpath\<close> the zoned one.
\<close>

fun imap_search :: "nat \<Rightarrow> os \<Rightarrow> string \<Rightarrow> string \<Rightarrow> u32 \<Rightarrow> f2fs_lib
    \<Rightarrow> (f2fs_nat_entry \<times> u8 list \<times> f2fs_lib) res" where
  "imap_search 0 k bpath zpath ino l = Inl OutOfFuel"
| "imap_search (Suc fuel) k bpath zpath ino l =
     bind_res (f2fs_get_inode_nat_entry k bpath ino l) (\<lambda>(ne, l).
       case ne of
         None \<Rightarrow> Inl (ErrExit ''finding NAT entry'')
       | Some nat_entry \<Rightarrow>
           bind_res (f2fs_get_node_block k zpath (ne_block_addr nat_entry)) (\<lambda>node.
             if IS_INODE node then Inr (nat_entry, node, l)
             else imap_search fuel k bpath zpath ino l))"

section \<open>The tool\<close>

definition imap_show_help :: help_text where
  "imap_show_help =
    [(''Possible flags are:'', ''''),
     (''-f [file]'', ''Input file retrieve inode for [Required]''),
     (''-l [Int, 0-2]'', ''Log Level to print (Default 0)''),
     (''-s'', ''Show the superblock''),
     (''-c'', ''Show the checkpoint'')]"

definition imap_optstring :: string where
  "imap_optstring = ''cf:hl:s''"

fun imap_option_list :: "(char \<times> string) list \<Rightarrow> string option \<times> control \<Rightarrow> (string option \<times> control) res" where
  "imap_option_list [] s = Inr s"
| "imap_option_list ((o', arg) # rest) (file, c) =
     (if o' = CHR ''f'' then imap_option_list rest (Some arg, c)
      else if o' = CHR ''l'' then imap_option_list rest (file, c\<lparr>log_level := of_int (atoi arg)\<rparr>)
      else if o' = CHR ''s'' then imap_option_list rest (file, c\<lparr>show_superblock := True\<rparr>)
      else if o' = CHR ''c'' then imap_option_list rest (file, c\<lparr>show_checkpoint := True\<rparr>)
      else Inl (HelpExit imap_show_help))"

text \<open>The inode is the first part of the node block.\<close>

definition inode_of :: "u8 list \<Rightarrow> u8 list" where
  "inode_of node = take (layout_size f2fs_inode_layout) node"

text \<open>\<open>block_addr << F2FS_BLKSIZE_BITS >> sector_shift\<close> in 32 bits.\<close>

definition inode_lba :: "control \<Rightarrow> u32 \<Rightarrow> u64" where
  "inode_lba c block_addr =
     ucast (drop_bit (unat (sector_shift c)) (push_bit F2FS_BLKSIZE_BITS block_addr))"

definition imap_report :: "os \<Rightarrow> string \<Rightarrow> f2fs_nat_entry \<Rightarrow> u8 list \<Rightarrow> control \<Rightarrow> control res" where
  "imap_report k filename ne node c =
     (let lba = inode_lba c (ne_block_addr ne) in
      bind_res (get_zone_number c lba) (\<lambda>zone.
        let c = msg (Field ''located in zone'' [S filename, N (unat (ne_ino ne)), N (unat zone)])
                  (msg (Text ''INODE'') c)
        in bind_res (print_zone_info k zone c) (\<lambda>c.
          let c = msg (Field ''INODE'' [N (unat lba), N (unat (lba + F2FS_SECS_PER_BLOCK)),
                    N (unat F2FS_SECS_PER_BLOCK), S filename]) c;
              c = msg (Text ''NODE FOOTER'') c;
              c = fold (\<lambda>f. msg (Field f [N (unat (node_footer node f))]))
                    [''nid'', ''ino'', ''flag'', ''next_blkaddr''] c;
              c = msg (Text ''INODE'') c
          in Inr (fold msg (f2fs_show_inode_info (inode_of node)) c))))"

definition imap_main :: "nat \<Rightarrow> os \<Rightarrow> string list \<Rightarrow> control res" where
  "imap_main fuel k args =
     bind_res (imap_option_list (getopt imap_optstring args) (None, zero_control)) (\<lambda>(file, c).
       case file of
         None \<Rightarrow> Inl (ErrExit ''Missing file name -f Flag.'')
       | Some filename \<Rightarrow>
           if \<not> os_open k filename then Inl (ErrExit ''Failed opening fd'')
           else case os_stat k filename of
             None \<Rightarrow> Inl (ErrExit ''Failed stat on file'')
           | Some st \<Rightarrow>
               bind_res (init_ctrl k filename st zero_f2fs_lib c) (\<lambda>(l, c).
                 let c = (if show_superblock c then fold msg (f2fs_show_super_block (f2fs_sb l)) c else c);
                     c = info 1 ''ZNS address space in F2FS starting at'' [N (unat (offset c))] c;
                     c = info 1 ''F2FS main area starting at''
                           [N (unat (push_bit F2FS_BLKSIZE_BITS (ucast (sb32 l ''main_blkaddr'') :: u64)))] c
                 in bind_res (if show_checkpoint c
                              then bind_res (f2fs_read_checkpoint k (dev_path (bdev c)) l) (\<lambda>l.
                                     Inr (l, fold msg (f2fs_show_checkpoint (f2fs_cp l)) c))
                              else Inr (l, c)) (\<lambda>(l, c).
                 let c = info 1 ''has inode number'' [S filename, N (unat (st_ino st))] c in
                 bind_res (imap_search fuel k (dev_path (bdev c)) (dev_path (znsdev c)) (ucast (st_ino st)) l)
                   (\<lambda>(ne, node, l).
                 bind_res (imap_report k filename ne node c) (\<lambda>c.
                   cleanup_ctrl c)))))"

section \<open>The search finds the inode\<close>

text \<open>A scan that finds an entry does not depend on how many more blocks it may read.\<close>

lemma nat_scan_more:
  "nat_scan n k dpath ino blk l = Inr (Some e, l') \<Longrightarrow> n \<le> n' \<Longrightarrow> nat_scan n' k dpath ino blk l = Inr (Some e, l')"
proof (induction n arbitrary: n' blk l)
  case 0
  then show ?case by simp
next
  case (Suc n)
  then obtain m where "n' = Suc m" "n \<le> m" by (cases n') auto
  with Suc show ?case by (auto split: option.splits)
qed

lemma nat_holds_mono: "nat_holds k dpath l tbl lo hi \<Longrightarrow> lo \<le> lo' \<Longrightarrow> hi' \<le> hi \<Longrightarrow> nat_holds k dpath l tbl lo' hi'"
  by (auto simp: nat_holds_def)

text \<open>\<open>blocks\<close> NAT blocks hold the table, and the superblock announces at least as many.\<close>

definition nat_table :: "os \<Rightarrow> string \<Rightarrow> f2fs_lib \<Rightarrow> (nat \<Rightarrow> f2fs_nat_entry) \<Rightarrow> nat \<Rightarrow> bool" where
  "nat_table k dpath l tbl blocks \<longleftrightarrow> os_open k dpath \<and> nat_holds k dpath l tbl 0 blocks \<and>
     blocks \<le> unat (nat_blocks l) \<and> blocks < 2 ^ 32 \<and>
     unat (nat_entry_offset l) < NAT_ENTRY_PER_BLOCK"

lemma find_upt_first:
  assumes "P p" "lo \<le> p" "p < hi" "\<forall>q\<in>{lo..<p}. \<not> P q"
  shows "find P [lo..<hi] = Some p"
proof -
  have "[lo..<hi] = [lo..<p] @ p # [Suc p..<hi]"
    using assms(2,3) upt_add_eq_append [of lo p "hi - p"] by (simp add: upt_conv_Cons)
  moreover have "find P [lo..<p] = None" using assms(4) by (auto simp: find_None_iff)
  ultimately show ?thesis using assms(1) by (simp add: find_append)
qed

lemma get_inode_nat_entry_first:
  assumes "nat_table k dpath l tbl blocks" "ne_ino (tbl p) = ino" "nat_pos l \<le> p"
    "p < blocks * NAT_ENTRY_PER_BLOCK" "\<forall>q\<in>{nat_pos l..<p}. ne_ino (tbl q) \<noteq> ino"
  shows "f2fs_get_inode_nat_entry k dpath ino l = Inr (Some (tbl p), seek (p + 1) l)"
proof -
  let ?b = "unat (nat_block_offset l)"
  have "?b * NAT_ENTRY_PER_BLOCK \<le> p" using assms(3) by (simp add: nat_pos_def)
  with assms(4) have "?b * NAT_ENTRY_PER_BLOCK < blocks * NAT_ENTRY_PER_BLOCK" by linarith
  then have b: "?b < blocks" by simp
  let ?n = "blocks - ?b"
  have "find (\<lambda>p. ne_ino (tbl p) = ino) [nat_pos l..<(?b + ?n) * NAT_ENTRY_PER_BLOCK] = Some p"
    using assms(2-5) b by (intro find_upt_first) simp_all
  moreover have "nat_holds k dpath l tbl ?b (?b + ?n)"
    using assms(1) b by (auto simp: nat_table_def intro: nat_holds_mono)
  ultimately have "nat_scan ?n k dpath ino (replicate BLOCK_SZ 0) l = Inr (Some (tbl p), seek (p + 1) l)"
    using nat_scan_table [of k dpath l tbl ?n "replicate BLOCK_SZ 0" ino] assms(1) b
    by (simp add: nat_table_def)
  then have "nat_scan (unat (nat_blocks l)) k dpath ino (replicate BLOCK_SZ 0) l = Inr (Some (tbl p), seek (p + 1) l)"
    using assms(1) by (elim nat_scan_more) (auto simp: nat_table_def)
  then show ?thesis using assms(1) by (simp add: f2fs_get_inode_nat_entry_def nat_table_def)
qed

lemma seek_same_nat:
  "nat_block_addr (seek p l) b = nat_block_addr l b" "nat_blocks (seek p l) = nat_blocks l"
  by (simp_all add: seek_def nat_block_addr_def cur_nat_blkaddress_def nat_blocks_def)

lemma nat_pos_seek:
  assumes "p \<le> blocks * NAT_ENTRY_PER_BLOCK" "blocks < 2 ^ 32"
  shows "nat_pos (seek p l) = p" "unat (nat_entry_offset (seek p l)) < NAT_ENTRY_PER_BLOCK"
proof -
  have "p div NAT_ENTRY_PER_BLOCK \<le> blocks"
    using div_le_mono [OF assms(1), of NAT_ENTRY_PER_BLOCK] by (simp add: entries_per_block)
  then have b: "p div NAT_ENTRY_PER_BLOCK < 2 ^ 32" using assms(2) by linarith
  have m: "p mod NAT_ENTRY_PER_BLOCK < 455" by (simp add: entries_per_block)
  have u: "unat (of_nat n :: u32) = n" if "n < 2 ^ 32" for n
    using that by (simp add: unat_of_nat take_bit_nat_eq_self_iff)
  have "unat (of_nat (p mod NAT_ENTRY_PER_BLOCK) :: u32) = p mod NAT_ENTRY_PER_BLOCK"
    using m by (intro u) simp
  with u [OF b] show "nat_pos (seek p l) = p" "unat (nat_entry_offset (seek p l)) < NAT_ENTRY_PER_BLOCK"
    by (simp_all add: nat_pos_def seek_def) (simp add: entries_per_block)
qed

lemma nat_table_seek:
  "nat_table k dpath l tbl blocks \<Longrightarrow> p \<le> blocks * NAT_ENTRY_PER_BLOCK \<Longrightarrow> nat_table k dpath (seek p l) tbl blocks"
  using nat_pos_seek(2) [of p blocks l] by (simp add: nat_table_def nat_holds_def seek_same_nat)

text \<open>The entry the search is to find, and what may come before it.\<close>

definition names_inode :: "os \<Rightarrow> string \<Rightarrow> u32 \<Rightarrow> f2fs_nat_entry \<Rightarrow> u8 list \<Rightarrow> bool" where
  "names_inode k zpath ino e node \<longleftrightarrow> ne_ino e = ino \<and>
     f2fs_get_node_block k zpath (ne_block_addr e) = Inr node \<and> IS_INODE node"

definition names_other_node :: "os \<Rightarrow> string \<Rightarrow> u32 \<Rightarrow> f2fs_nat_entry \<Rightarrow> bool" where
  "names_other_node k zpath ino e \<longleftrightarrow> (ne_ino e = ino \<longrightarrow>
     (\<exists>node. f2fs_get_node_block k zpath (ne_block_addr e) = Inr node \<and> \<not> IS_INODE node))"

lemma imap_search_finds_first:
  "nat_table k bpath l tbl blocks \<Longrightarrow> nat_pos l \<le> q \<Longrightarrow> q < blocks * NAT_ENTRY_PER_BLOCK \<Longrightarrow>
   names_inode k zpath ino (tbl q) node \<Longrightarrow> \<forall>p\<in>{nat_pos l..<q}. names_other_node k zpath ino (tbl p) \<Longrightarrow>
   q < nat_pos l + fuel \<Longrightarrow>
   imap_search fuel k bpath zpath ino l = Inr (tbl q, node, seek (q + 1) l)"
proof (induction fuel arbitrary: l)
  case 0
  then show ?case by simp
next
  case (Suc fuel)
  let ?P = "\<lambda>p. nat_pos l \<le> p \<and> ne_ino (tbl p) = ino"
  have q: "?P q" using Suc.prems by (simp add: names_inode_def)
  define p where "p = (LEAST p. ?P p)"
  have p: "nat_pos l \<le> p" "ne_ino (tbl p) = ino" "p \<le> q"
    using LeastI [of ?P, OF q] Least_le [of ?P, OF q] by (simp_all add: p_def)
  have first: "\<forall>r\<in>{nat_pos l..<p}. ne_ino (tbl r) \<noteq> ino"
  proof
    fix r assume "r \<in> {nat_pos l..<p}"
    then have "nat_pos l \<le> r" "\<not> ?P r" using not_less_Least [of r ?P] by (simp_all add: p_def)
    then show "ne_ino (tbl r) \<noteq> ino" by simp
  qed
  have hi: "p < blocks * NAT_ENTRY_PER_BLOCK" using p(3) Suc.prems(3) by simp
  note ge = get_inode_nat_entry_first [OF Suc.prems(1) p(2,1) hi first]
  show ?case
  proof (cases "p = q")
    case True
    with ge Suc.prems(4) show ?thesis by (simp add: names_inode_def)
  next
    case False
    with p Suc.prems(5) obtain other where o: "f2fs_get_node_block k zpath (ne_block_addr (tbl p)) = Inr other"
      "\<not> IS_INODE other" by (auto simp: names_other_node_def)
    have blocks: "blocks < 2 ^ 32" using Suc.prems(1) by (simp add: nat_table_def)
    have ps: "nat_pos (seek (p + 1) l) = p + 1"
      using hi blocks by (intro nat_pos_seek [of _ blocks]) simp_all
    have "imap_search fuel k bpath zpath ino (seek (p + 1) l) = Inr (tbl q, node, seek (q + 1) (seek (p + 1) l))"
    proof (rule Suc.IH)
      show "nat_table k bpath (seek (p + 1) l) tbl blocks"
        using Suc.prems(1) hi by (intro nat_table_seek) simp_all
    qed (use Suc.prems p(1,3) False in \<open>simp_all add: ps [simplified]\<close>)
    moreover have "seek (q + 1) (seek (p + 1) l) = seek (q + 1) l" by (simp add: seek_def)
    ultimately show ?thesis using ge o by simp
  qed
qed

section \<open>Properties\<close>

text \<open>C12. The search of \<open>zns.imap\<close> returns the first NAT entry of the inode whose block is an inode, with
  that block, when the entries of the same inode number in front of it name readable node blocks
  that are not inodes; one round per entry of the table is fuel enough.\<close>

theorem imap_search_finds:
  "nat_table k bpath l tbl blocks \<Longrightarrow> nat_pos l \<le> q \<Longrightarrow> q < blocks * NAT_ENTRY_PER_BLOCK \<Longrightarrow>
   names_inode k zpath ino (tbl q) node \<Longrightarrow> \<forall>p\<in>{nat_pos l..<q}. names_other_node k zpath ino (tbl p) \<Longrightarrow>
   q < nat_pos l + fuel \<Longrightarrow>
   imap_search fuel k bpath zpath ino l = Inr (tbl q, node, seek (q + 1) l)"
  by (rule imap_search_finds_first)

end
