(* ===== verification/Fiemap_Spec.thy ===== *)
theory Fiemap_Spec
  imports Fiemap_Report
begin

text \<open>
  What \<open>print_fiemap_report\<close> prints: every extent of the zone map once, zone by zone and in
  address order, and the holes a simple specification names; the statistics are those of the
  printed lines.
\<close>

section \<open>Lines of a report\<close>

definition printed_extents :: "out list \<Rightarrow> (u32 \<times> u64 \<times> u64 \<times> u64) list" where
  "printed_extents ls = concat (map (\<lambda>l. case l of ExtentLine n a b s \<Rightarrow> [(n, a, b, s)] | _ \<Rightarrow> []) ls)"

definition printed_holes :: "out list \<Rightarrow> (u64 \<times> u64 \<times> u64) list" where
  "printed_holes ls = concat (map (\<lambda>l. case l of HoleLine a b s \<Rightarrow> [(a, b, s)] | _ \<Rightarrow> []) ls)"

lemma printed_simps [simp]:
  "printed_extents [] = []" "printed_holes [] = []"
  "printed_extents (ls @ ls') = printed_extents ls @ printed_extents ls'"
  "printed_holes (ls @ ls') = printed_holes ls @ printed_holes ls'"
  "printed_extents (ExtentLine n a b s # ls) = (n, a, b, s) # printed_extents ls"
  "printed_extents (HoleLine a b s # ls) = printed_extents ls"
  "printed_extents (FlagLine fl # ls) = printed_extents ls"
  "printed_extents (ZoneLine z a b d e f g i # ls) = printed_extents ls"
  "printed_extents (Text t # ls) = printed_extents ls"
  "printed_extents (StatsLine v w x y # ls) = printed_extents ls"
  "printed_extents (HoleStats q w x # ls) = printed_extents ls"
  "printed_holes (ExtentLine n a b s # ls) = printed_holes ls"
  "printed_holes (HoleLine a b s # ls) = (a, b, s) # printed_holes ls"
  "printed_holes (FlagLine fl # ls) = printed_holes ls"
  "printed_holes (ZoneLine z a b d e f g i # ls) = printed_holes ls"
  "printed_holes (Text t # ls) = printed_holes ls"
  "printed_holes (StatsLine v w x y # ls) = printed_holes ls"
  "printed_holes (HoleStats q w x # ls) = printed_holes ls"
  by (simp_all add: printed_extents_def printed_holes_def)

definition extent_line :: "extent \<Rightarrow> u32 \<times> u64 \<times> u64 \<times> u64" where
  "extent_line e = (ext_nr e + 1, phy_blk e, phy_blk e + e_len e, e_len e)"

definition hole_line :: "u64 \<times> u64 \<Rightarrow> u64 \<times> u64 \<times> u64" where
  "hole_line = (\<lambda>(a, b). (a, b, b - a))"

text \<open>The holes of a list of extents that follows \<open>prev\<close>.\<close>

fun holes_from :: "control \<Rightarrow> extent option \<Rightarrow> extent list \<Rightarrow> (u64 \<times> u64) list" where
  "holes_from c prev [] = []"
| "holes_from c prev (cur # rest) =
     between_hole c prev cur @ start_hole c prev (rest \<noteq> []) cur @ end_hole c (rest \<noteq> []) cur
     @ holes_from c (Some cur) rest"

definition count_holes :: "(u64 \<times> u64) list \<Rightarrow> hole_stats \<Rightarrow> hole_stats" where
  "count_holes hs h = h\<lparr>hole_ctr := hole_ctr h + of_nat (length hs),
     hole_cum_size := hole_cum_size h + (\<Sum>(a, b)\<leftarrow>hs. b - a)\<rparr>"

text \<open>Printing \<open>ls\<close>, seen from the control structure.\<close>

definition prints :: "out list \<Rightarrow> control \<Rightarrow> control" where
  "prints ls c = c\<lparr>stdout := stdout c @ ls\<rparr>"

lemma msg_prints: "msg l (prints ls c) = prints (ls @ [l]) c" "msg l c = prints [l] c"
  by (simp_all add: msg_def prints_def)

lemma prints_prints: "prints ls' (prints ls c) = prints (ls @ ls') c"
  by (simp add: prints_def)

lemma prints_nil [simp]: "prints [] c = c"
  by (simp add: prints_def)

lemma prints_frame [simp]:
  "show_holes (prints ls c) = show_holes c" "show_flags (prints ls c) = show_flags c"
  "zonemap (prints ls c) = zonemap c" "znsdev (prints ls c) = znsdev c"
  "zns_sector_shift (prints ls c) = zns_sector_shift c" "stdout (prints ls c) = stdout c @ ls"
  by (simp_all add: prints_def)

lemma hole_tests_prints [simp]:
  "between_hole (prints ls c) = between_hole c" "start_hole (prints ls c) = start_hole c"
  "end_hole (prints ls c) = end_hole c"
  by (simp_all add: fun_eq_iff between_hole_def start_hole_def end_hole_def split: option.split)

lemma holes_from_prints [simp]: "holes_from (prints ls c) p es = holes_from c p es"
  by (induction es arbitrary: p) simp_all

lemma count_holes_append: "count_holes (xs @ ys) h = count_holes ys (count_holes xs h)"
  by (simp add: count_holes_def add.assoc)

lemma fold_add_hole:
  "fold add_hole hs (h, c) = (count_holes hs h, prints (map (\<lambda>(a, b). HoleLine a b (b - a)) hs) c)"
proof (induction hs arbitrary: h c)
  case Nil
  then show ?case by (simp add: count_holes_def)
next
  case (Cons x hs)
  obtain a b where x: "x = (a, b)" by (cases x)
  have "add_hole (a, b) (h, c) = (count_holes [(a, b)] h, prints [HoleLine a b (b - a)] c)"
    by (simp add: add_hole_def count_holes_def msg_prints)
  then show ?case
    using count_holes_append [of "[(a, b)]" hs h] by (simp add: x Cons prints_prints)
qed

lemma printed_hole_lines:
  "printed_extents (map (\<lambda>(a, b). HoleLine a b (b - a)) hs) = []"
  "printed_holes (map (\<lambda>(a, b). HoleLine a b (b - a)) hs) = map hole_line hs"
  by (induction hs) (auto simp: hole_line_def)

section \<open>One zone\<close>

lemma report_extents_prints:
  "\<exists>ls. report_extents es (p, h, c) =
     (if es = [] then p else Some (last es), count_holes (holes_from c p es) h, prints ls c) \<and>
     printed_extents ls = map extent_line es \<and> printed_holes ls = map hole_line (holes_from c p es)"
proof (induction es arbitrary: p h c)
  case Nil
  then show ?case by (intro exI [of _ "[]"]) (simp add: count_holes_def)
next
  case (Cons e es)
  let ?b = "between_hole c p e" and ?s = "start_hole c p (es \<noteq> []) e" and ?e = "end_hole c (es \<noteq> []) e"
  let ?hl = "map (\<lambda>(a, b). HoleLine a b (b - a))"
  let ?fl = "if e_flags e \<noteq> 0 \<and> show_flags c then [show_extent_flags (e_flags e)] else []"
  let ?ls = "?hl ?b @ ?hl ?s @ [ExtentLine (ext_nr e + 1) (phy_blk e) (phy_blk e + e_len e) (e_len e)] @ ?fl @ ?hl ?e"
  have fl: "printed_extents ?fl = []" "printed_holes ?fl = []" by (simp_all add: show_extent_flags_def)
  have step: "report_extents (e # es) (p, h, c) =
      report_extents es (Some e, count_holes (?b @ ?s @ ?e) h, prints ?ls c)"
    by (simp add: Let_def fold_add_hole msg_prints prints_prints count_holes_append split_def)
  obtain ls where ls: "report_extents es (Some e, count_holes (?b @ ?s @ ?e) h, prints ?ls c) =
      (if es = [] then Some e else Some (last es),
       count_holes (holes_from c (Some e) es) (count_holes (?b @ ?s @ ?e) h), prints ls (prints ?ls c))"
    "printed_extents ls = map extent_line es" "printed_holes ls = map hole_line (holes_from c (Some e) es)"
    using Cons.IH [of "Some e" "count_holes (?b @ ?s @ ?e) h" "prints ?ls c"] by auto
  have a: "(if es = [] then Some e else Some (last es)) = Some (last (e # es))" by simp
  have b: "printed_extents (?ls @ ls) = map extent_line (e # es)"
    by (simp add: ls(2) printed_hole_lines fl extent_line_def)
  have d: "printed_holes (?ls @ ls) = map hole_line (holes_from c p (e # es))"
    by (simp add: ls(3) printed_hole_lines fl)
  have f: "count_holes (holes_from c (Some e) es) (count_holes (?b @ ?s @ ?e) h)
      = count_holes (holes_from c p (e # es)) h"
    by (simp add: count_holes_append [symmetric])
  show ?case
    unfolding step ls(1) prints_prints a f by (intro exI [of _ "?ls @ ls"] conjI b d) simp
qed

text \<open>
  The holes in a zone, from its list alone: the gaps between neighbours, at most one in front
  of the first extent and at most one after the last.
\<close>

fun gaps :: "extent list \<Rightarrow> (u64 \<times> u64) list" where
  "gaps (a # b # es) =
     (if phy_blk a + e_len a \<noteq> phy_blk b then [(phy_blk a + e_len a, phy_blk b)] else []) @ gaps (b # es)"
| "gaps _ = []"

lemma holes_from_gaps:
  assumes "show_holes c" "\<forall>x\<in>set (e # es). e_zone x = z"
  shows "holes_from c (Some e) es =
    gaps (e # es) @ (if es = [] then [] else end_hole c False (last es))"
  using assms(2)
proof (induction es arbitrary: e)
  case Nil
  then show ?case by simp
next
  case (Cons a es)
  have st: "start_hole c (Some e) x a = []" for x using Cons.prems by (simp add: start_hole_def)
  have en: "end_hole c True a = []" by (simp add: end_hole_def Let_def)
  have bt: "between_hole c (Some e) a =
      (if phy_blk e + e_len e \<noteq> phy_blk a then [(phy_blk e + e_len e, phy_blk a)] else [])"
    using Cons.prems assms(1) by (simp add: between_hole_def)
  have "holes_from c (Some a) es = gaps (a # es) @ (if es = [] then [] else end_hole c False (last es))"
    using Cons.prems by (intro Cons.IH) simp
  then show ?case by (cases "es = []") (simp_all only: holes_from.simps st bt gaps.simps, simp_all add: en)
qed

lemma holes_of_zone:
  assumes "show_holes c" "\<forall>x\<in>set (e # es). e_zone x = z" "\<forall>q. p = Some q \<longrightarrow> e_zone q \<noteq> z"
  shows "holes_from c p (e # es) =
    start_hole c p (es \<noteq> []) e @ gaps (e # es) @ end_hole c False (last (e # es))"
proof -
  have "between_hole c p e = []" using assms(2,3) by (auto simp: between_hole_def split: option.split)
  moreover have "end_hole c True e = []" by (simp add: end_hole_def Let_def)
  ultimately show ?thesis
    using holes_from_gaps [OF assms(1,2)] by (cases "es = []") simp_all
qed

text \<open>Extents that lie one after the other without overlap.\<close>

fun laid_out :: "extent list \<Rightarrow> bool" where
  "laid_out (a # b # es) \<longleftrightarrow> unat (phy_blk a) + unat (e_len a) \<le> unat (phy_blk b) \<and> laid_out (b # es)"
| "laid_out [e] \<longleftrightarrow> unat (phy_blk e) + unat (e_len e) < 2 ^ 64"
| "laid_out [] \<longleftrightarrow> True"

lemma laid_out_end: "laid_out (e # es) \<Longrightarrow> unat (phy_blk e + e_len e) = unat (phy_blk e) + unat (e_len e)"
proof (cases es)
  case Nil
  then show "laid_out (e # es) \<Longrightarrow> ?thesis" by (simp add: unat_add_nowrap)
next
  case (Cons b bs)
  assume "laid_out (e # es)"
  with Cons have "unat (phy_blk e) + unat (e_len e) \<le> unat (phy_blk b)" by simp
  also have "\<dots> < 2 ^ LENGTH(64)" by (rule unsigned_less)
  finally show ?thesis by (rule unat_add_nowrap)
qed

lemma gaps_account:
  "laid_out (e # es) \<Longrightarrow>
   (\<Sum>x\<leftarrow>e # es. unat (e_len x)) + (\<Sum>(a, b)\<leftarrow>gaps (e # es). unat (b - a)) + unat (phy_blk e)
     = unat (phy_blk (last (e # es))) + unat (e_len (last (e # es)))"
proof (induction es arbitrary: e)
  case Nil
  then show ?case by simp
next
  case (Cons b es)
  note en = laid_out_end [OF Cons.prems]
  have le: "unat (phy_blk e) + unat (e_len e) \<le> unat (phy_blk b)" and lb: "laid_out (b # es)"
    using Cons.prems by simp_all
  have "unat (phy_blk b - (phy_blk e + e_len e)) = unat (phy_blk b) - (unat (phy_blk e) + unat (e_len e))"
    using le en unat_sub_nowrap [of "phy_blk e + e_len e" "phy_blk b"] by simp
  moreover have "phy_blk e + e_len e = phy_blk b \<Longrightarrow> unat (phy_blk e) + unat (e_len e) = unat (phy_blk b)"
    using en by simp
  ultimately show ?case using Cons.IH [OF lb] le
    by (cases "phy_blk e + e_len e = phy_blk b") auto
qed

section \<open>The whole report\<close>

text \<open>The holes of the zones: the extent printed last is the one in front of the next zone.\<close>

fun holes_of_zones :: "control \<Rightarrow> extent option \<Rightarrow> zone list \<Rightarrow> (u64 \<times> u64) list" where
  "holes_of_zones c p [] = []"
| "holes_of_zones c p (z # zs) = holes_from c p (extents z) @
     holes_of_zones c (if extents z = [] then p else Some (last (extents z))) zs"

lemma holes_of_zones_prints [simp]: "holes_of_zones (prints ls c) p zs = holes_of_zones c p zs"
  by (induction zs arbitrary: p) simp_all

lemma print_zone_info_prints:
  "print_zone_info k z c = Inr c' \<Longrightarrow>
   \<exists>ls. c' = prints ls c \<and> printed_extents ls = [] \<and> printed_holes ls = []"
proof -
  assume a: "print_zone_info k z c = Inr c'"
  then obtain r where r: "report_zone k z c = Inr r" by (auto simp: print_zone_info_def bind_res_Inr_iff)
  show ?thesis
  proof (cases r)
    case None
    with a r show ?thesis by (intro exI [of _ "[]"]) (simp add: print_zone_info_def)
  next
    case (Some b)
    with a r show ?thesis
      by (clarsimp simp: print_zone_info_def msg_prints) (rule exI, rule conjI, rule refl, simp)
  qed
qed

text \<open>The device answers a report for every zone that has extents.\<close>

definition zones_reported :: "os \<Rightarrow> control \<Rightarrow> zone_map \<Rightarrow> bool" where
  "zones_reported k c m \<longleftrightarrow>
     (\<forall>i<length (zones m). z_extent_ctr (zones m ! i) \<noteq> 0 \<longrightarrow> (\<exists>r. report_zone k (of_nat i) c = Inr r))"

lemma report_zone_prints [simp]: "report_zone k z (prints ls c) = report_zone k z c"
  by (simp add: report_zone_def)

lemma print_zone_info_ok: "report_zone k z c = Inr r \<Longrightarrow> \<exists>c'. print_zone_info k z c = Inr c'"
  by (simp add: print_zone_info_def split: option.split)

lemma report_zones_prints:
  "\<forall>i\<in>set is. i < length (zones m) \<and> zone_wf (zones m ! i) \<Longrightarrow> zones_reported k c m \<Longrightarrow>
   \<exists>p' ls. let hs = holes_of_zones c p (map (\<lambda>i. zones m ! i) is) in
     report_zones k m is (p, h, c) = Inr (p', count_holes hs h, prints ls c) \<and>
     printed_holes ls = map hole_line hs \<and>
     printed_extents ls = concat (map (\<lambda>i. map extent_line (extents (zones m ! i))) is)"
proof (induction "is" arbitrary: p h c)
  case Nil
  then show ?case by (intro exI [of _ "[]"] exI [of _ p]) (simp add: count_holes_def)
next
  case (Cons i "is")
  show ?case
  proof (cases "z_extent_ctr (zones m ! i) = 0")
    case True
    with Cons.prems have "extents (zones m ! i) = []" by (simp add: zone_wf_def)
    with Cons True show ?thesis by simp
  next
    case False
    with Cons.prems obtain r where "report_zone k (of_nat i) c = Inr r" by (auto simp: zones_reported_def)
    then obtain c1 where z: "print_zone_info k (of_nat i) c = Inr c1" using print_zone_info_ok by blast
    obtain l1 where l1: "c1 = prints l1 c" "printed_extents l1 = []" "printed_holes l1 = []"
      using print_zone_info_prints [OF z] by blast
    let ?hs = "holes_from c p (extents (zones m ! i))"
    let ?p = "if extents (zones m ! i) = [] then p else Some (last (extents (zones m ! i)))"
    obtain l2 where l2: "report_extents (extents (zones m ! i)) (p, h, c1) =
        (?p, count_holes ?hs h, prints l2 c1)"
      "printed_extents l2 = map extent_line (extents (zones m ! i))" "printed_holes l2 = map hole_line ?hs"
      using report_extents_prints [of "extents (zones m ! i)" p h c1] by (auto simp: l1(1))
    let ?c = "prints l2 c1"
    have "zones_reported k ?c m" using Cons.prems(2) by (simp add: zones_reported_def l1(1) prints_prints)
    with Cons.IH [of ?c ?p "count_holes ?hs h"] Cons.prems(1) obtain p' l3 where l3:
      "report_zones k m is (?p, count_holes ?hs h, ?c) =
        Inr (p', count_holes (holes_of_zones c ?p (map (\<lambda>i. zones m ! i) is)) (count_holes ?hs h), prints l3 ?c)"
      "printed_holes l3 = map hole_line (holes_of_zones c ?p (map (\<lambda>i. zones m ! i) is))"
      "printed_extents l3 = concat (map (\<lambda>i. map extent_line (extents (zones m ! i))) is)"
      by (auto simp: Let_def l1(1) prints_prints)
    have "report_zones k m (i # is) (p, h, c) =
        report_zones k m is (?p, count_holes ?hs h, ?c)"
      using False Cons.prems(1) z l2(1) by simp
    with l3 l2(2,3) l1 show ?thesis
      by (intro exI [of _ p'] exI [of _ "l1 @ l2 @ l3"])
        (simp add: Let_def prints_prints count_holes_append)
  qed
qed

definition stats_line :: "zone_map \<Rightarrow> out" where
  "stats_line m = StatsLine (zm_extent_ctr m) (cum_extent_size m) (cum_extent_size m div zm_extent_ctr m) (zone_ctr m)"

definition holes_lines :: "control \<Rightarrow> (u64 \<times> u64) list \<Rightarrow> out list" where
  "holes_lines c hs =
     (let n = of_nat (length hs) :: u32; s = (\<Sum>(a, b)\<leftarrow>hs. b - a) in
      if \<not> show_holes c then [] else if n = 0 then [Text ''NOH: 0''] else [HoleStats n s (s div ucast n)])"

lemma print_fiemap_report_prints:
  assumes "zonemap c = Some m" "zm_inv m" "zones_reported k c m" "zm_extent_ctr m \<noteq> 0"
  shows "\<exists>ls. let hs = holes_of_zones c None (zones m) in
    print_fiemap_report k c = Inr (prints (ls @ [stats_line m] @ holes_lines c hs) c) \<and>
    printed_extents ls = concat (map (\<lambda>z. map extent_line (extents z)) (zones m)) \<and>
    printed_holes ls = map hole_line hs"
proof -
  let ?is = "[0..<length (zones m)]"
  let ?c = "msg (Text ''EXTENT MAPPINGS'') c"
  let ?hs = "holes_of_zones c None (zones m)"
  let ?h0 = "\<lparr>hole_ctr = 0, hole_cum_size = 0\<rparr>"
  have nz: "unat (zm_nr_zones m) = length (zones m)" using assms(2) by (simp add: zm_inv_def)
  have "\<forall>i\<in>set ?is. i < length (zones m) \<and> zone_wf (zones m ! i)" using assms(2) by (simp add: zm_inv_def)
  moreover have "zones_reported k ?c m" using assms(3) by (simp add: zones_reported_def msg_prints)
  ultimately obtain p ls where l: "report_zones k m ?is (None, ?h0, ?c) = Inr (p, count_holes ?hs ?h0, prints ls ?c)"
    "printed_holes ls = map hole_line ?hs"
    "printed_extents ls = concat (map (\<lambda>i. map extent_line (extents (zones m ! i))) ?is)"
    using report_zones_prints [of ?is m k ?c None ?h0] by (auto simp: Let_def map_nth msg_prints)
  have zs: "concat (map (\<lambda>i. map extent_line (extents (zones m ! i))) ?is)
      = concat (map (\<lambda>z. map extent_line (extents z)) (zones m))"
    by (rule arg_cong [of _ _ concat], rule nth_equalityI) simp_all
  have h: "hole_ctr (count_holes ?hs ?h0) = of_nat (length ?hs)"
    "hole_cum_size (count_holes ?hs ?h0) = (\<Sum>(a, b)\<leftarrow>?hs. b - a)"
    by (simp_all add: count_holes_def)
  let ?ls = "[Text ''EXTENT MAPPINGS''] @ ls @ [Text ''STATS SUMMARY'']"
  have "print_fiemap_report k c = report_stats m (count_holes ?hs ?h0) (prints ?ls c)"
    using assms(1) l(1) by (simp add: print_fiemap_report_def nz msg_prints prints_prints)
  also have "\<dots> = Inr (prints (?ls @ [stats_line m] @ holes_lines c ?hs) c)"
    using assms(4) unfolding report_stats_def h holes_lines_def stats_line_def Let_def msg_prints prints_prints
    by (simp add: word_gt_0)
  finally show ?thesis
    using l(2,3) by (intro exI [of _ ?ls]) (simp add: Let_def zs)
qed

section \<open>Properties\<close>

text \<open>C27. The holes of a zone, when holes are shown: for extents of one zone, printed first or after an extent of another zone,
  the report names and prints the gaps between neighbours, at most one hole in front of the first extent
  and at most one after the last.\<close>

theorem zone_holes:
  assumes "show_holes c" "\<forall>x\<in>set (e # es). e_zone x = z" "\<forall>q. p = Some q \<longrightarrow> e_zone q \<noteq> z"
  shows "holes_from c p (e # es) =
      start_hole c p (es \<noteq> []) e @ gaps (e # es) @ end_hole c False (last (e # es)) \<and>
    (\<exists>p' h' ls. report_extents (e # es) (p, h, c) = (p', h', prints ls c) \<and>
      printed_holes ls = map hole_line (start_hole c p (es \<noteq> []) e @ gaps (e # es) @ end_hole c False (last (e # es))))"
  using holes_of_zone [OF assms] report_extents_prints [of "e # es" p h c] by auto

definition ext_at :: "u64 \<Rightarrow> u64 \<Rightarrow> extent" where
  "ext_at p n = zero_extent\<lparr>phy_blk := p, e_len := n, zone_lbas := 8, zone_lbae := 64, zone_wp := 48\<rparr>"

lemma two_extents:
  fixes c :: control
  defines "c \<equiv> zero_control\<lparr>show_holes := True\<rparr>"
  shows "show_holes c" "\<forall>x\<in>set [ext_at 16 8, ext_at 32 8]. e_zone x = 0"
    "\<forall>q. (None :: extent option) = Some q \<longrightarrow> e_zone q \<noteq> 0"
    "start_hole c None ([ext_at 32 8] \<noteq> []) (ext_at 16 8) = []"
    "end_hole c False (last [ext_at 16 8, ext_at 32 8]) = [(40, 48)]"
  by (simp_all add: c_def ext_at_def zero_extent_def start_hole_def end_hole_def)

theorem zone_holes_witness:
  "holes_from (zero_control\<lparr>show_holes := True\<rparr>) None [ext_at 16 8, ext_at 32 8] = [(24, 32), (40, 48)]"
  using zone_holes [OF two_extents(1-3)] by (simp add: two_extents(4,5) [simplified]) (simp add: ext_at_def zero_extent_def)

definition holes_size :: "(u64 \<times> u64) list \<Rightarrow> nat" where
  "holes_size hs = (\<Sum>(a, b)\<leftarrow>hs. unat (b - a))"

text \<open>C28. The lines of a zone account for its range, when holes are shown: for extents of one zone that do not
  overlap, printed first or after an extent of another zone, the
  sizes printed for the extents and for the holes add up to the distance from the start of the first extent
  to the end of the last, and the holes in front of the first and after the last.\<close>

theorem extents_and_holes_cover:
  assumes "show_holes c" "\<forall>x\<in>set (e # es). e_zone x = z" "\<forall>q. p = Some q \<longrightarrow> e_zone q \<noteq> z" "laid_out (e # es)"
  shows "\<exists>p' h' ls. report_extents (e # es) (p, h, c) = (p', h', prints ls c) \<and>
    (\<Sum>(n, a, b, s)\<leftarrow>printed_extents ls. unat s) + (\<Sum>(a, b, s)\<leftarrow>printed_holes ls. unat s) + unat (phy_blk e)
      = unat (phy_blk (last (e # es))) + unat (e_len (last (e # es)))
        + holes_size (start_hole c p (es \<noteq> []) e) + holes_size (end_hole c False (last (e # es)))"
proof -
  obtain ls where ls: "report_extents (e # es) (p, h, c) =
      (Some (last (e # es)), count_holes (holes_from c p (e # es)) h, prints ls c)"
    "printed_extents ls = map extent_line (e # es)" "printed_holes ls = map hole_line (holes_from c p (e # es))"
    using report_extents_prints [of "e # es" p h c] by (auto simp del: report_extents.simps holes_from.simps)
  have "(\<Sum>(n, a, b, s)\<leftarrow>printed_extents ls. unat s) = (\<Sum>x\<leftarrow>e # es. unat (e_len x))"
    unfolding ls(2) map_map by (simp add: o_def extent_line_def)
  moreover have "(\<Sum>(a, b, s)\<leftarrow>printed_holes ls. unat s) = holes_size (holes_from c p (e # es))"
    unfolding ls(3) map_map holes_size_def by (simp add: o_def hole_line_def split_def del: holes_from.simps)
  moreover have "holes_size (gaps (e # es)) = (\<Sum>(a, b)\<leftarrow>gaps (e # es). unat (b - a))" by (simp add: holes_size_def)
  moreover have "holes_size (holes_from c p (e # es)) = holes_size (start_hole c p (es \<noteq> []) e)
      + holes_size (gaps (e # es)) + holes_size (end_hole c False (last (e # es)))"
    unfolding holes_of_zone [OF assms(1-3)] by (simp add: holes_size_def)
  ultimately have "(\<Sum>(n, a, b, s)\<leftarrow>printed_extents ls. unat s) + (\<Sum>(a, b, s)\<leftarrow>printed_holes ls. unat s) + unat (phy_blk e)
      = unat (phy_blk (last (e # es))) + unat (e_len (last (e # es)))
        + holes_size (start_hole c p (es \<noteq> []) e) + holes_size (end_hole c False (last (e # es)))"
    using gaps_account [OF assms(4)] by linarith
  with ls(1) show ?thesis by blast
qed

theorem extents_and_holes_cover_witness:
  "\<forall>h. \<exists>p' h' ls. report_extents [ext_at 16 8, ext_at 32 8] (None, h, zero_control\<lparr>show_holes := True\<rparr>) =
      (p', h', prints ls (zero_control\<lparr>show_holes := True\<rparr>)) \<and>
    (\<Sum>(n, a, b, s)\<leftarrow>printed_extents ls. unat s) + (\<Sum>(a, b, s)\<leftarrow>printed_holes ls. unat s) = 32"
proof
  fix h
  have "laid_out [ext_at 16 8, ext_at 32 8]" by (simp add: ext_at_def zero_extent_def)
  from extents_and_holes_cover [OF two_extents(1-3) this, of h]
  show "\<exists>p' h' ls. report_extents [ext_at 16 8, ext_at 32 8] (None, h, zero_control\<lparr>show_holes := True\<rparr>) =
      (p', h', prints ls (zero_control\<lparr>show_holes := True\<rparr>)) \<and>
    (\<Sum>(n, a, b, s)\<leftarrow>printed_extents ls. unat s) + (\<Sum>(a, b, s)\<leftarrow>printed_holes ls. unat s) = 32"
    by (simp only: two_extents(4,5)) (simp add: holes_size_def ext_at_def zero_extent_def)
qed

end
