(* ===== verification/Fiemap_Tool.thy ===== *)
theory Fiemap_Tool
  imports Fiemap_Spec
begin

text \<open>
  \<open>zns.fiemap\<close> from the command line to the report: the initialisation, the collection and
  the report composed. The printed extents are the extents of the file on the zoned device.
\<close>

section \<open>The options\<close>

lemma fiemap_options_unused:
  "fiemap_options opts (f, c) = Inr (f', c') \<Longrightarrow> unused c \<Longrightarrow> unused c'"
  by (induction opts "(f, c)" arbitrary: f c rule: fiemap_options.induct)
    (auto simp: unused_def split: if_splits)

lemma unused_zero: "unused zero_control"
  by (simp add: unused_def zero_control_def)

section \<open>A collected file can be reported\<close>

text \<open>The device answers for every zone an extent is recorded in.\<close>

lemma zones_reportedI:
  assumes "zm_inv m" "\<forall>e\<in>#recorded m. \<exists>r. report_zone k (e_zone e) c = Inr r"
  shows "zones_reported k c m"
  unfolding zones_reported_def
proof (intro allI impI)
  fix i assume i: "i < length (zones m)" "z_extent_ctr (zones m ! i) \<noteq> 0"
  then have "unat (z_extent_ctr (zones m ! i)) = length (extents (zones m ! i))"
    using assms(1) by (simp add: zm_inv_def zone_wf_def)
  with i(2) have "extents (zones m ! i) \<noteq> []" by (metis list.size(3) unat_eq_zero)
  then obtain e where e: "e \<in> set (extents (zones m ! i))" by (cases "extents (zones m ! i)") auto
  then have "unat (e_zone e) = i" using assms(1) i(1) by (auto simp: zm_inv_def)
  then have "e_zone e = of_nat i" by auto
  with assms(2) recorded_member [OF i(1) e] show "\<exists>r. report_zone k (of_nat i) c = Inr r" by auto
qed

lemma same_setting_report_zone:
  assumes "same_setting c c'"
  shows "report_zone k z c' = report_zone k z c" "get_zone_number c' x = get_zone_number c x"
    "zns_sector_shift c' = zns_sector_shift c"
  using assms by (simp_all add: same_setting_def same_env_def report_zone_def get_zone_number_def)

text \<open>Every recorded extent was accepted, so its zone is one the device answered for.\<close>

lemma collected_reported:
  assumes "ctrl_inv c'" "zonemap c' = Some m" "same_setting c c'"
    "image_mset digest (recorded_in c') = image_mset (fe_digest c f) (mset (filter (accepted c) es))"
    "\<forall>fe\<in>set es. accepted c fe \<longrightarrow> recordable k c n (fe_block c fe)"
  shows "zones_reported k c' m"
proof (rule zones_reportedI)
  show "zm_inv m" using assms(1,2) by (auto simp: ctrl_inv_def)
  show "\<forall>e\<in>#recorded m. \<exists>r. report_zone k (e_zone e) c' = Inr r"
  proof
    fix e assume e: "e \<in># recorded m"
    then have "digest e \<in># image_mset (fe_digest c f) (mset (filter (accepted c) es))"
      unfolding assms(4) [symmetric] by (simp add: recorded_in_def assms(2))
    then obtain fe where fe: "fe \<in> set es" "accepted c fe" "digest e = fe_digest c f fe" by auto
    have p: "phy_blk e = fe_block c fe"
      using fe(3) by (simp add: digest_def fe_digest_def fill_extent_def fe_block_def)
    have "get_zone_number c' (push_bit (zsh c') (phy_blk e)) = Inr (e_zone e)"
      using assms(1,2) e by (auto simp: ctrl_inv_def placed_def)
    then have z: "get_zone_number c (push_bit (zsh c) (phy_blk e)) = Inr (e_zone e)"
      by (simp add: same_setting_report_zone [OF assms(3)])
    from assms(5) fe(1,2) have "recordable k c n (phy_blk e)" unfolding p by blast
    with z show "\<exists>r. report_zone k (e_zone e) c' = Inr r"
      by (auto simp: recordable_def same_setting_report_zone [OF assms(3)])
  qed
qed

section \<open>The whole tool\<close>

text \<open>PBAS and SIZE of an extent line; the same two numbers of what the kernel reported.\<close>

definition line_range :: "u32 \<times> u64 \<times> u64 \<times> u64 \<Rightarrow> u64 \<times> u64" where
  "line_range = (\<lambda>(n, a, b, s). (a, s))"

definition fe_range :: "control \<Rightarrow> fiemap_extent \<Rightarrow> u64 \<times> u64" where
  "fe_range c fe = (fe_block c fe, drop_bit (unat (sector_shift c)) (fe_length fe))"

lemma line_range_extent: "line_range (extent_line e) = (phy_blk e, e_len e)"
  by (simp add: line_range_def extent_line_def)

lemma mset_concat_extents:
  "mset (concat (map (\<lambda>z. map g (extents z)) zs)) = image_mset g (\<Sum>z\<leftarrow>zs. mset (extents z))"
  by (induction zs) simp_all

lemma digest_range: "(\<lambda>(l, p, n, fl, f). (p, n)) (digest e) = (phy_blk e, e_len e)"
  by (simp add: digest_def)

lemma fe_digest_range: "(\<lambda>(l, p, n, fl, f). (p, n)) (fe_digest c f fe) = fe_range c fe"
  by (simp add: digest_def fe_digest_def fe_range_def fe_block_def fill_extent_def)

text \<open>C1. \<open>zns.fiemap\<close> from the command line to the report: for a file the kernel describes completely and
  whose extents on the zoned device are in reported zones, the tool succeeds, prints every such
  extent exactly once (start and length in sectors of the device), zone by zone in address order,
  the holes of the specification, and the statistics. The number of zones it prints is the number
  of extents.\<close>

theorem fiemap_main_prints:
  fixes fuel :: nat
  assumes "fiemap_options (getopt fiemap_optstring args) (None, zero_control) = Inr (Some f, c0)"
    "os_open k f" "os_stat k f = Some st" "init_ctrl k f st zero_f2fs_lib c0 = Inr (l, c)"
    "fs_magic c = F2FS_MAGIC \<or> fs_magic c = BTRFS_MAGIC"
    "fiemap_serves k f st 0 es" "st_blocks st \<noteq> 0" "length es \<le> fuel" "length es < 2 ^ 32"
    "\<forall>fe\<in>set es. accepted c fe \<longrightarrow> recordable k c (nr_map_zones c) (fe_block c fe)"
    "filter (accepted c) es \<noteq> []"
  shows "\<exists>c1 m c' ls hs. get_extents fuel k f st c = Inr (EXIT_SUCCESS, c1) \<and> zonemap c1 = Some m \<and>
    fiemap_main fuel k args = Inr c' \<and>
    stdout c' = stdout c1 @ ls @ [stats_line m] @ holes_lines c1 (holes_of_zones c1 None (zones m)) \<and>
    printed_extents ls = concat (map (\<lambda>z. map extent_line (extents z)) (zones m)) \<and>
    mset (map line_range (printed_extents ls)) = image_mset (fe_range c) (mset (filter (accepted c) es)) \<and>
    printed_holes ls = map hole_line (holes_of_zones c1 None (zones m)) \<and>
    zm_extent_ctr m = of_nat (length (filter (accepted c) es)) \<and>
    zone_ctr m = of_nat (length (filter (accepted c) es))"
proof -
  define n where "n = length (filter (accepted c) es)"
  have "unused c0" by (rule fiemap_options_unused [OF assms(1) unused_zero])
  then have fr: "fresh_inv c" by (rule init_ctrl_fresh [OF assms(4) _ assms(5)])
  then have i: "ctrl_inv c" "recorded_in c = {#}" "nr_files c = 0" by (simp_all add: fresh_inv_def)
  have b: "unat (nr_files c) + 1 < 2 ^ 32" "size (recorded_in c) + length es < 2 ^ 32"
    using assms(9) by (simp_all add: i(2,3))
  obtain c1 where g: "get_extents fuel k f st c = Inr (EXIT_SUCCESS, c1)"
    using get_extents_returns [OF i(1) assms(6-8) b assms(10)] by blast
  note col = get_extents_collects [OF i(1) assms(6-8) b g]
  note set = get_extents_setting [OF i(1) assms(6-8) b g]
  from col obtain m where m: "zonemap c1 = Some m" "zm_inv m" by (auto simp: ctrl_inv_def)
  have d: "image_mset digest (recorded_in c1) = image_mset (fe_digest c f) (mset (filter (accepted c) es))"
    using col i(2) by simp
  have rec: "recorded_in c1 = recorded m" by (simp add: recorded_in_def m(1))
  have sz: "size (recorded m) = n"
    using arg_cong [OF d, of size] unfolding n_def rec size_image_mset size_mset .
  have ctr: "zm_extent_ctr m = of_nat n" "zone_ctr m = of_nat n"
    using m(2) by (simp_all add: zm_inv_def sz)
  have "n < 2 ^ 32" 
    unfolding n_def by (rule le_less_trans [OF length_filter_le assms(9)])
  moreover have "n \<noteq> 0" using assms(11) by (simp add: n_def)
  ultimately have nz: "zm_extent_ctr m \<noteq> 0"
    by (simp add: ctr unat_eq_zero [symmetric] unat_of_nat take_bit_nat_eq_self_iff del: unat_eq_zero)
  have "zones_reported k c1 m"
    using collected_reported [OF _ m(1) set d assms(10)] col by blast
  from print_fiemap_report_prints [OF m this nz] obtain ls where ls:
    "print_fiemap_report k c1 = Inr (prints (ls @ [stats_line m] @ holes_lines c1 (holes_of_zones c1 None (zones m))) c1)"
    "printed_extents ls = concat (map (\<lambda>z. map extent_line (extents z)) (zones m))"
    "printed_holes ls = map hole_line (holes_of_zones c1 None (zones m))"
    by (auto simp: Let_def)
  let ?r = "\<lambda>(l :: u64, p :: u64, n :: u64, fl :: u32, f :: string). (p, n)"
  have "mset (map line_range (printed_extents ls)) = image_mset (\<lambda>e. ?r (digest e)) (recorded m)"
    unfolding ls(2) map_concat by (simp add: mset_concat_extents recorded_def o_def line_range_extent digest_range)
  also have "\<dots> = image_mset ?r (image_mset digest (recorded_in c1))"
    by (simp add: rec image_mset.compositionality o_def)
  also have "\<dots> = image_mset (fe_range c) (mset (filter (accepted c) es))"
    unfolding d by (simp add: image_mset.compositionality o_def fe_digest_range)
  finally have rng: "mset (map line_range (printed_extents ls)) = image_mset (fe_range c) (mset (filter (accepted c) es))" .
  have e: "EXIT_SUCCESS \<noteq> EXIT_FAILURE" by (simp add: EXIT_SUCCESS_def EXIT_FAILURE_def)
  obtain c' where c': "fiemap_main fuel k args = Inr c'"
    "stdout c' = stdout c1 @ ls @ [stats_line m] @ holes_lines c1 (holes_of_zones c1 None (zones m))"
    using assms(1-4) g m(1) nz ls(1) e by (simp add: fiemap_main_def cleanup_ctrl_def)
  show ?thesis
    using g m(1) c' ls(2,3) rng ctr unfolding n_def by blast
qed

end
