(* ===== verification/Samples.thy ===== *)
theory Samples
  imports Segmap_Main Segmap_Total Imap Fiemap_Tool
begin

text \<open>
  A small machine on which the theorems about whole tools are applied: a zoned device with
  512-byte sectors and four zones of 8192 sectors, and a file of two extents on it, in the
  order the kernel returns them.
\<close>

section \<open>The machine\<close>

definition sample_zone :: "nat \<Rightarrow> blk_zone" where
  "sample_zone i = \<lparr>bz_start = of_nat i * 8192, bz_len = 8192, bz_wp = of_nat i * 8192 + 7000,
     bz_cond = 2, bz_capacity = 8192\<rparr>"

definition sample_extents :: "fiemap_extent list" where
  "sample_extents =
     [\<lparr>fe_logical = 0, fe_physical = 0x500000, fe_length = 0x3000, fe_flags = 0\<rparr>,
      \<lparr>fe_logical = 0x3000, fe_physical = 0x200000, fe_length = 0x1000, fe_flags = 1\<rparr>]"

definition sample_stat :: stat where
  "sample_stat = \<lparr>st_major = 259, st_minor = 3, st_ino = 7, st_blocks = 32, st_isdir = False\<rparr>"

definition sample_os :: os where
  "sample_os = \<lparr>os_open = \<lambda>p. True, os_access = \<lambda>p. True, os_readlink = \<lambda>p. Some ''../nvme0n2'',
     os_stat = \<lambda>p. Some sample_stat,
     os_statfs = \<lambda>p. Some BTRFS_MAGIC, os_scanf = Some ''nvme0n2'',
     os_sector_size = \<lambda>p. Some 512, os_dev_size = \<lambda>p. Some 0x2000000,
     os_zone_size = \<lambda>p. Some 8192, os_nr_zones = \<lambda>p. Some 4,
     os_report_zones = \<lambda>p s n. Some (map sample_zone [unat s div 8192..<min 4 (unat s div 8192 + unat n)]),
     os_fiemap = \<lambda>f s l n. if s = 0 then Some (2, sample_extents ! 0) else Some (1, sample_extents ! 1),
     os_read = \<lambda>p off n. None, os_lines = \<lambda>p. None, os_fresh = zero_file_counter\<rparr>"

definition sample_args :: "string list" where
  "sample_args = [''-f'', ''f'', ''-s'']"

definition sample_start :: control where
  "sample_start = zero_control\<lparr>show_holes := True\<rparr>"

definition empty_zone :: "nat \<Rightarrow> zone" where
  "empty_zone i = \<lparr>zone_number = of_nat i, z_start = of_nat i * 8192, z_end = of_nat i * 8192 + 8192,
     z_capacity = 8192, z_wp = 0, z_state = 32, z_mask = 0, z_extent_ctr = 0, extents = []\<rparr>"

definition sample_ctrl :: control where
  "sample_ctrl = sample_start\<lparr>
     znsdev := \<lparr>dev_name = ''nvme0n2'', dev_path = ''/dev/nvme0n2'', link_name = [],
       b_is_zoned = True, b_nr_zones = 4, b_zone_size = 8192, b_zone_mask = 0xFFFFE000\<rparr>,
     fs_magic := BTRFS_MAGIC, sector_size := 512, sector_shift := 9,
     f2fs_segment_sectors := 4096, f2fs_segment_mask := - 4096, segment_shift := 12,
     zonemap := Some \<lparr>zm_nr_zones = 4, zm_extent_ctr = 0, cum_extent_size = 0, zone_ctr = 0,
       zones = map empty_zone [0..<4]\<rparr>,
     stdout := [Warn ''is registered as being on Btrfs'' [S ''f'']]\<rparr>"

section \<open>What the machine does\<close>

lemmas init_steps = init_ctrl_def set_fs_magic_def init_btrfs_ctrl_def init_znsdev_def is_zoned_def
  get_sector_size_def get_nr_zones_def set_geometry_def init_zone_map_def set_zone_sizes_def
  get_zone_size_def mk_zone_def report_zone_at_def info_def msg_def Let_def

lemmas init_values = BTRFS_MAGIC_def F2FS_MAGIC_def MAX_DEV_NAME_def EXIT_SUCCESS_def EXIT_FAILURE_def
  F2FS_SEGMENT_BYTES_def zero_control_def zero_bdev_def sample_start_def sample_os_def sample_zone_def

lemma sample_init:
  "init_ctrl sample_os ''f'' sample_stat zero_f2fs_lib sample_start = Inr (zero_f2fs_lib, sample_ctrl)"
  by (simp add: init_steps init_values upt_rec sample_ctrl_def empty_zone_def)

lemma sample_calls:
  "os_open sample_os f" "os_stat sample_os f = Some sample_stat" "os_statfs sample_os f = Some BTRFS_MAGIC"
  by (simp_all add: sample_os_def)

lemma sample_serves: "fiemap_serves sample_os f sample_stat 0 sample_extents"
  by (simp add: sample_os_def sample_extents_def sample_stat_def FIEMAP_EXTENT_LAST_def)

lemma sample_fields:
  "fs_magic sample_ctrl = BTRFS_MAGIC" "nr_files sample_ctrl = 0" "sector_shift sample_ctrl = 9"
  "offset sample_ctrl = 0" "zns_sector_shift sample_ctrl = 0" "fs_info_bytes sample_ctrl = 0"
  "exclude_flags sample_ctrl = 0" "nr_map_zones sample_ctrl = 4"
  "b_zone_size (znsdev sample_ctrl) = 8192" "dev_path (znsdev sample_ctrl) = ''/dev/nvme0n2''"
  by (simp_all add: sample_ctrl_def sample_start_def zero_control_def nr_map_zones_def)

lemma sample_blocks: "st_blocks sample_stat \<noteq> 0" by (simp add: sample_stat_def)

lemma sample_accepted: "list_all (accepted sample_ctrl) sample_extents"
  by (simp add: accepted_def [abs_def] sample_fields list_all_iff)

lemma sample_filter: "filter (accepted sample_ctrl) sample_extents = sample_extents"
  using sample_accepted by (simp add: list_all_iff)

lemma sample_length: "length sample_extents = 2"
  by (simp add: sample_extents_def)

lemma sample_fresh: "fresh_inv sample_ctrl"
proof -
  have "init_btrfs_ctrl sample_os ''f'' (sample_start\<lparr>fs_magic := BTRFS_MAGIC\<rparr>) = Inr sample_ctrl"
    using sample_init
    by (auto simp: init_ctrl_def set_fs_magic_def sample_calls F2FS_MAGIC_def BTRFS_MAGIC_def bind_res_Inr_iff)
  then show ?thesis
    by (rule init_btrfs_ctrl_fresh) (simp add: unused_def sample_start_def zero_control_def)
qed

text \<open>An executable condition for an extent that can be recorded.\<close>

definition can_record :: "os \<Rightarrow> control \<Rightarrow> u64 \<Rightarrow> bool" where
  "can_record k c p \<longleftrightarrow> fs_info_bytes c = 0 \<and>
     (case get_zone_number c (push_bit (zsh c) p) of Inl _ \<Rightarrow> False
      | Inr z \<Rightarrow> unat z < nr_map_zones c \<and> (case report_zone k z c of Inl _ \<Rightarrow> False | Inr _ \<Rightarrow> True))"

lemma can_record: "can_record k c p \<Longrightarrow> recordable k c (nr_map_zones c) p"
  by (auto simp: can_record_def recordable_def has_fs_info_def split: sum.splits)

lemma sample_can_record: "list_all (\<lambda>fe. can_record sample_os sample_ctrl (fe_block sample_ctrl fe)) sample_extents"
  by (simp add: can_record_def sample_fields sample_extents_def fe_block_def get_zone_number_def
      report_zone_def sample_os_def Let_def)

lemma sample_recordable:
  "\<forall>fe\<in>set sample_extents. accepted sample_ctrl fe \<longrightarrow>
     recordable sample_os sample_ctrl (nr_map_zones sample_ctrl) (fe_block sample_ctrl fe)"
  using sample_can_record can_record by (auto simp: list_all_iff)

text \<open>Fields of zero bytes.\<close>

lemma le_nat_zeros [simp]: "le_nat (replicate n 0) = 0"
  by (induction n) simp_all

lemma fld_zeros [simp]: "fld fs name i (replicate n 0) = 0"
  by (simp add: fld_def)

section \<open>The tools on the machine\<close>

theorem init_ctrl_establishes_witness: "ctrl_inv sample_ctrl \<and> has_geometry sample_ctrl"
proof -
  have "unused sample_start" by (simp add: unused_def sample_start_def zero_control_def)
  then show ?thesis
    using init_ctrl_establishes [OF sample_init] by (simp add: sample_fields)
qed

theorem fiemap_main_prints_witness:
  "\<exists>c' ls. fiemap_main 2 sample_os sample_args = Inr c' \<and>
     mset (map line_range (printed_extents ls)) = {#(0x2800, 24), (0x1000, 8)#} \<and>
     (\<exists>pre post. stdout c' = pre @ ls @ post)"
proof -
  have o: "fiemap_options (getopt fiemap_optstring sample_args) (None, zero_control) = Inr (Some ''f'', sample_start)"
    by (simp add: sample_args_def fiemap_optstring_def is_option_def sample_start_def)
  have m: "fs_magic sample_ctrl = F2FS_MAGIC \<or> fs_magic sample_ctrl = BTRFS_MAGIC" by (simp add: sample_fields)
  have l: "length sample_extents \<le> 2" "length sample_extents < 2 ^ 32" "filter (accepted sample_ctrl) sample_extents \<noteq> []"
    by (simp_all add: sample_filter) (simp_all add: sample_extents_def)
  have r: "image_mset (fe_range sample_ctrl) (mset sample_extents) = {#(0x2800, 24), (0x1000, 8)#}"
    by (simp add: sample_extents_def fe_range_def fe_block_def sample_fields)
  note main = fiemap_main_prints [OF o sample_calls(1,2) sample_init m sample_serves sample_blocks l(1,2)
      sample_recordable l(3)]
  show ?thesis using main unfolding sample_filter r by meson
qed

section \<open>Walking a directory\<close>

definition sample_tree :: "dirent list" where
  "sample_tree = [Sub_dir ''.'' None, Sub_dir ''sub'' (Some [Plain ''b'']), Plain ''a'']"

lemma sample_tree_files: "tree_files ''/mnt'' sample_tree = [''/mnt/sub/b'', ''/mnt/a'']" "readable sample_tree"
  by (simp_all add: sample_tree_def)

lemma sample_serves_file: "serves_file sample_os 2 (\<lambda>_. sample_extents) f"
  by (simp add: serves_file_def sample_calls sample_serves sample_blocks sample_length)

lemma sample_inv: "ctrl_inv sample_ctrl" "recorded_in sample_ctrl = {#}"
  using sample_fresh by (simp_all add: fresh_inv_def)

theorem collect_extents_tree_witness:
  "\<exists>c'. collect_extents 2 sample_os ''/mnt'' (Some sample_tree) sample_ctrl = Inr c' \<and> ctrl_inv c' \<and>
     nr_files c' = 2 \<and> size (recorded_in c') = 4"
proof -
  let ?es = "\<lambda>_ :: string. sample_extents"
  have a: "\<forall>f\<in>set (tree_files ''/mnt'' sample_tree). serves_file sample_os 2 ?es f"
    by (simp add: sample_serves_file)
  have b: "unat (nr_files sample_ctrl) + length (tree_files ''/mnt'' sample_tree) < 2 ^ 32"
    "size (recorded_in sample_ctrl) + (\<Sum>f\<leftarrow>tree_files ''/mnt'' sample_tree. length (?es f)) < 2 ^ 32"
    by (simp_all add: sample_tree_files sample_fields sample_inv sample_length)
  have c: "\<forall>f\<in>set (tree_files ''/mnt'' sample_tree). \<forall>fe\<in>set (?es f). accepted sample_ctrl fe \<longrightarrow>
      recordable sample_os sample_ctrl (nr_map_zones sample_ctrl) (fe_block sample_ctrl fe)"
    using sample_recordable by simp
  have sz: "size (accepted_digests sample_ctrl ?es f) = 2" for f
    unfolding accepted_digests_def size_image_mset size_mset sample_filter by (rule sample_length)
  have d: "accepted_digests sample_ctrl ?es (hd (tree_files ''/mnt'' sample_tree)) \<noteq> {#}"
    using sz by (metis size_empty zero_neq_numeral)
  from collect_extents_tree [OF sample_inv(1) sample_tree_files(2) a b c disjI2 [OF disjI1 [OF d]]]
  obtain c' where c': "collect_extents 2 sample_os ''/mnt'' (Some sample_tree) sample_ctrl = Inr c'" "ctrl_inv c'"
    "nr_files c' = nr_files sample_ctrl + of_nat (length (tree_files ''/mnt'' sample_tree))"
    "image_mset digest (recorded_in c') = (\<Sum>f\<leftarrow>tree_files ''/mnt'' sample_tree. accepted_digests sample_ctrl ?es f)
       + image_mset digest (recorded_in sample_ctrl)" by blast
  have "size (recorded_in c') = 4"
    using arg_cong [OF c'(4), of size] by (simp add: sample_tree_files sample_inv sz)
  with c' show ?thesis by (simp add: sample_tree_files sample_fields)
qed

text \<open>The same tree when every extent carries a flag that is excluded.\<close>

definition excluding_ctrl :: control where
  "excluding_ctrl = sample_ctrl\<lparr>exclude_flags := 3\<rparr>"

definition flagged_extents :: "fiemap_extent list" where
  "flagged_extents = [\<lparr>fe_logical = 0, fe_physical = 0x500000, fe_length = 0x3000, fe_flags = 1\<rparr>]"

definition flagged_os :: os where
  "flagged_os = sample_os\<lparr>os_fiemap := \<lambda>f s l n. Some (1, flagged_extents ! 0)\<rparr>"

theorem collect_extents_stops_witness:
  "collect_extents 2 flagged_os ''/mnt'' (Some sample_tree) excluding_ctrl
    = Inl (ErrExit ''No extents found on device'')"
proof -
  have a: "ctrl_inv excluding_ctrl" "recorded_in excluding_ctrl = {#}"
    using sample_inv ctrl_inv_cong [of excluding_ctrl sample_ctrl]
    by (simp_all add: excluding_ctrl_def recorded_in_def)
  have s: "fiemap_serves flagged_os f sample_stat 0 flagged_extents" for f
    by (simp add: flagged_os_def flagged_extents_def FIEMAP_EXTENT_LAST_def)
  have b: "serves_file flagged_os 2 (\<lambda>_. flagged_extents) ''/mnt/sub/b''"
    using s by (auto simp: serves_file_def flagged_os_def sample_calls sample_blocks flagged_extents_def)
  have c: "unat (nr_files excluding_ctrl) + 1 < 2 ^ 32" "length flagged_extents < 2 ^ 32"
    "filter (accepted excluding_ctrl) flagged_extents = []"
    by (simp_all add: excluding_ctrl_def flagged_extents_def sample_fields accepted_def)
  show ?thesis
    using collect_extents_stops [OF a sample_tree_files(2,1) b c] by simp
qed

end
