(* ===== verification/Sample_Reports.thy ===== *)
theory Sample_Reports
  imports Samples
begin

text \<open>
  The reports of \<open>zns.segmap\<close> and the search of \<open>zns.imap\<close> on small inputs: one extent over
  four segments, in zone 1 of the sample device.
\<close>

section \<open>An extent over four segments\<close>

definition long_extent :: extent where
  "long_extent = zero_extent\<lparr>e_zone := 1, phy_blk := 8292, e_len := 16000, zone_cap := 8192,
     fs_info := Some \<lparr>si_id = 2, si_type = CURSEG_WARM_DATA, si_valid_blocks = 300\<rparr>, e_file := ''a''\<rparr>"

lemma sample_geometry: "has_geometry sample_ctrl"
  using sample_fresh by (simp add: fresh_inv_def)

lemma sample_segments:
  "f2fs_segment_sectors sample_ctrl = 4096" "f2fs_segment_mask sample_ctrl = - 4096"
  "segment_shift sample_ctrl = 12" "sector_shift sample_ctrl = 9" "sector_size sample_ctrl = 512"
  by (simp_all add: sample_ctrl_def)

lemma long_extent_fields:
  "phy_blk long_extent = 8292" "e_len long_extent = 16000" "e_zone long_extent = 1"
  "e_file long_extent = ''a''" "zone_cap long_extent = 8192" "e_flags long_extent = 0"
  "fs_info long_extent = Some \<lparr>si_id = 2, si_type = CURSEG_WARM_DATA, si_valid_blocks = 300\<rparr>"
  by (simp_all add: long_extent_def zero_extent_def)

lemma long_extent_pieces:
  "pieces sample_ctrl long_extent = [(8292, 12288, 3996), (12288, 20480, 8192), (20480, 24292, 3812)]"
  by (simp add: pieces_def piece_defs sample_segments long_extent_fields F2FS_SEGMENT_BYTES_def Let_def)

lemma long_extent_cut: "\<not> bad_cut sample_ctrl long_extent" "ext_end long_extent = 24292"
  by (simp_all add: bad_cut_def end_seg_def first_seg_def ext_end_def seg_blocks_def long_extent_fields sample_segments)

theorem pieces_partition_witness:
  "chain 8292 [(8292, 12288, 3996), (12288, 20480, 8192), (20480, 24292, 3812)] 24292"
  using pieces_partition [OF sample_geometry, of long_extent] long_extent_cut
  unfolding long_extent_pieces by (simp add: long_extent_fields)

section \<open>A control structure with the extent recorded\<close>

definition long_counter :: file_counter where
  "long_counter = zero_file_counter\<lparr>fc_file := ''a'', fc_ext_ctr := 1\<rparr>"

definition long_map :: zone_map where
  "long_map = \<lparr>zm_nr_zones = 4, zm_extent_ctr = 1, cum_extent_size = 16000, zone_ctr = 1,
     zones = [empty_zone 0, (empty_zone 1)\<lparr>z_extent_ctr := 1, extents := [long_extent]\<rparr>,
              empty_zone 2, empty_zone 3]\<rparr>"

definition long_ctrl :: "u32 \<Rightarrow> control" where
  "long_ctrl start = sample_ctrl\<lparr>zonemap := Some long_map, nr_files := 1,
     file_counter_map := Some \<lparr>file_ctr = 1, files = [long_counter]\<rparr>,
     fs_info_show := Some f2fs_show_segment, start_zone := start, end_zone := 4\<rparr>"

lemma long_recorded: "recorded long_map = {#long_extent#}"
  by (simp add: recorded_def long_map_def empty_zone_def)

lemma long_zm_inv: "zm_inv long_map"
  by (simp add: zm_inv_def long_recorded long_extent_fields)
    (simp add: long_map_def empty_zone_def zone_wf_def less_Suc_eq long_extent_fields)

lemma long_files_inv: "files_inv \<lparr>file_ctr = 1, files = [long_counter]\<rparr> long_map"
  by (simp add: files_inv_def long_recorded fcm_inv_def fcm_keys_def active_def ext_count_def extents_of_file_def
      long_counter_def zero_file_counter_def long_extent_fields MAX_FILE_LENGTH_def)

lemma long_placed: "placed (long_ctrl start) long_map"
  by (simp add: placed_def long_recorded long_extent_fields get_zone_number_def long_ctrl_def sample_ctrl_def
      sample_start_def zero_control_def)

lemma long_inv: "ctrl_inv (long_ctrl start)"
  using long_zm_inv long_files_inv long_placed [of start]
  by (simp add: ctrl_inv_def counters_def) (simp add: long_ctrl_def)

section \<open>The segment report\<close>

lemma long_setting:
  "f2fs_segment_mask (long_ctrl start) = - 4096" "segment_shift (long_ctrl start) = 12"
  "b_zone_size (znsdev (long_ctrl start)) = 8192" "zns_sector_shift (long_ctrl start) = 0"
  "start_zone (long_ctrl start) = start" "end_zone (long_ctrl start) = 4"
  "zonemap (long_ctrl start) = Some long_map"
  by (simp_all add: long_ctrl_def sample_segments sample_fields)

lemma long_report_values:
  "report_start_lba (long_ctrl 1) = 0" "report_start_lba (long_ctrl 3) = 16384"
  "report_end_lba (long_ctrl start) = 32768" "start_blk (long_ctrl start) long_extent = 8192"
  by (simp_all add: report_start_lba_def report_end_lba_def start_blk_def segment_id_of_def
      long_setting long_extent_fields)

lemma long_reportable: "reportable sample_os (long_ctrl start) long_extent"
  by (simp add: reportable_def recorded_in_def long_setting long_recorded long_extent_fields report_zone_def
      sample_os_def Let_def)

lemma long_pieces_frame: "pieces (long_ctrl start) e = pieces sample_ctrl e"
  by (simp add: pieces_def piece_defs Let_def long_ctrl_def)

lemma long_total: "ext_total (long_ctrl start) ''a'' = 1" and long_ext_nr: "ext_nr long_extent = 0"
  by (simp_all add: ext_total_def get_file_extent_count_view ext_view_def long_ctrl_def long_counter_def
      zero_file_counter_def long_extent_def zero_extent_def)

theorem show_segment_report_prints_witness:
  "\<exists>sm' c' ls. show_segment_report 1 sample_os (zero_segmap_manager, long_ctrl 1) = Inr (sm', c') \<and>
     stdout c' = stdout (long_ctrl 1) @ ls \<and>
     piece_lines ls = [((8292, 12288, 3996), ''a'', 1, 1), ((12288, 20480, 8192), ''a'', 1, 1),
       ((20480, 24292, 3812), ''a'', 1, 1)]"
proof -
  have r: "reporting (long_ctrl 1)"
    by (simp add: reporting_def long_ctrl_def sample_ctrl_def sample_start_def zero_control_def)
  have e: "\<forall>e\<in>#recorded long_map. reportable sample_os (long_ctrl 1) e \<and>
      report_start_lba (long_ctrl 1) \<le> start_blk (long_ctrl 1) e"
    using long_reportable by (simp add: long_recorded long_report_values)
  have z: "\<forall>z\<in>set (zones long_map). length (extents z) \<le> 1" by (simp add: long_map_def empty_zone_def)
  have p: "concat (map (zone_pieces (long_ctrl 1)) (zones long_map)) = 
    [((8292, 12288, 3996), ''a'', 1, 1), ((12288, 20480, 8192), ''a'', 1, 1), ((20480, 24292, 3812), ''a'', 1, 1)]"
    by (simp add: long_map_def empty_zone_def zone_pieces_def long_report_values lines_of_def long_pieces_frame
        long_extent_pieces long_extent_fields long_total long_ext_nr)
  have "sm_ctr zero_segmap_manager = 0" "recorded long_map \<noteq> {#}"
    by (simp_all add: zero_segmap_manager_def long_recorded)
  from show_segment_report_prints [OF long_inv r long_setting(7) this e z] show ?thesis
    unfolding p .
qed

lemma long_zones: "unat (zm_nr_zones long_map) = 4" "length (zones long_map) = 4"
  "z_extent_ctr (zones long_map ! 0) = 0" "z_extent_ctr (zones long_map ! 1) = 1"
  "extents (zones long_map ! 1) = [long_extent]"
  by (simp_all add: long_map_def empty_zone_def)

section \<open>The statistics\<close>

definition stats_ctrl :: control where
  "stats_ctrl = zero_control\<lparr>show_class_stats := True, nr_files := 2\<rparr>"

definition two_stats :: segmap_manager where
  "two_stats = zero_segmap_manager\<lparr>sm_fs := replicate 2 zero_file_stats\<rparr>"

lemma two_stats_inv: "stats_inv two_stats" "stats_keys two_stats = {}"
  using stats_inv_init [of 2] by (simp_all add: two_stats_def stats_keys_def stats_active_def zero_segmap_manager_def)

theorem segment_counts_consistent_witness:
  "\<exists>sm'. set_segment_counters stats_ctrl 4 long_extent two_stats = Inr sm' \<and> stats_inv sm' \<and>
     stats_keys sm' = {''a''} \<and> stats_count sm' ''a'' = 4"
proof -
  have c: "counted stats_ctrl long_extent"
    by (simp add: counted_def stats_ctrl_def zero_control_def long_extent_fields MAX_FILE_LENGTH_def)
  have "stats_count two_stats ''a'' = 0"
    by (simp add: stats_count_def stats_active_def two_stats_def zero_segmap_manager_def)
  moreover have "\<exists>sm'. set_segment_counters stats_ctrl 4 long_extent two_stats = Inr sm'"
    unfolding set_segment_counters_def
    by (simp add: long_extent_fields get_file_stats_index_def two_stats_def zero_segmap_manager_def stats_ctrl_def
        zero_control_def)
  ultimately show ?thesis
    using segment_counts_consistent [OF _ c two_stats_inv(1)] by (auto simp: two_stats_inv long_extent_fields)
qed

theorem stats_array_large_enough_witness:
  "\<exists>i sm'. get_file_stats_index ''a'' (two_stats\<lparr>sm_fs := [zero_file_stats]\<rparr>) = Inr (i, sm') \<and> i < 1"
proof -
  have "long_extent \<in># recorded_in (long_ctrl 1)" by (simp add: recorded_in_def long_setting long_recorded)
  moreover have "stats_shape (two_stats\<lparr>sm_fs := [zero_file_stats]\<rparr>)"
    "stats_keys (two_stats\<lparr>sm_fs := [zero_file_stats]\<rparr>) = {}"
    by (simp_all add: stats_shape_def stats_keys_def stats_active_def two_stats_def zero_segmap_manager_def)
  moreover have "unat (nr_files (long_ctrl 1)) = 1" by (simp add: long_ctrl_def)
  ultimately show ?thesis
    using stats_array_large_enough [OF long_inv, of long_extent 1 "two_stats\<lparr>sm_fs := [zero_file_stats]\<rparr>"]
    by (simp add: long_extent_fields)
qed

section \<open>The search for an inode\<close>

text \<open>A superblock with two segments of one block for the NAT, on a disk of zero bytes.\<close>

definition two_segment_nat :: f2fs_lib where
  "two_segment_nat = zero_f2fs_lib\<lparr>f2fs_sb :=
     replicate (field_off f2fs_super_block_layout ''segment_count_nat'') 0 @ [2, 0, 0, 0] @ replicate 2000 0\<rparr>"

definition zero_nat_entry :: f2fs_nat_entry where
  "zero_nat_entry = \<lparr>ne_version = 0, ne_ino = 0, ne_block_addr = 0\<rparr>"

lemma two_segment_blocks: "nat_blocks two_segment_nat = 1"
  by (simp add: nat_blocks_def two_segment_nat_def fld_def layout_defs field_bytes_def take_Cons')

theorem imap_search_finds_witness:
  "imap_search 1 blank_os ''/dev/sda1'' ''/dev/nvme0n2'' 0 two_segment_nat =
     Inr (zero_nat_entry, replicate 4096 0, seek 1 two_segment_nat)"
proof -
  have n: "nat_table blank_os ''/dev/sda1'' two_segment_nat (\<lambda>_. zero_nat_entry) 1"
    by (simp add: nat_table_def nat_holds_def two_segment_blocks blank_os_def nat_entry_at_def zero_nat_entry_def)
      (simp add: two_segment_nat_def zero_f2fs_lib_def NAT_ENTRY_PER_BLOCK_def)
  have p: "nat_pos two_segment_nat = 0" by (simp add: nat_pos_def two_segment_nat_def zero_f2fs_lib_def)
  have s: "layout_size f2fs_node_layout = 4096"
    by (simp add: layout_defs layout_size_def field_bytes_def)
  have "names_inode blank_os ''/dev/nvme0n2'' 0 zero_nat_entry (replicate 4096 0)"
    by (simp add: names_inode_def f2fs_get_node_block_def IS_INODE_def node_footer_def blank_os_def zero_nat_entry_def s
       f2fs_read_block_def)
  from imap_search_finds [OF n _ _ this, of 0 1] show ?thesis by (simp add: p NAT_ENTRY_PER_BLOCK_def)
qed

end
