(* ===== verification/Segmap_Stats.thy ===== *)
theory Segmap_Stats
  imports Segmap_Total
begin

text \<open>
  The statistics at the end of the segment report: what every file counter has become when all
  zones have been walked. Only \<open>increase_file_segment_counter\<close> changes the counters, one extent
  at a time and only those of the file of the extent, so the counters of a file are a fold over
  its extents in the order of the report.
\<close>

named_theorems kept \<open>steps of the report that leave the file counters alone\<close>

section \<open>Printing leaves the counters alone\<close>

lemma kept_msg [simp]: "file_counter_map (msg l c) = file_counter_map c"
  by (simp add: msg_def)

lemma kept_rep [simp]: "file_counter_map (rep q l c) = file_counter_map c"
  by (simp add: rep_def)

lemma kept_fold [simp]: "file_counter_map (fold msg ls c) = file_counter_map c"
  by (simp add: fold_msg_stdout)

lemma kept_piece [kept]: "rep_piece a b s e c = Inr c' \<Longrightarrow> file_counter_map c' = file_counter_map c"
  by (auto simp: rep_piece_def bind_res_Inr_iff split: if_splits)

lemma kept_info [kept]:
  "show_segment_info e s c = Inr c' \<Longrightarrow> file_counter_map c' = file_counter_map c"
  by (auto simp: show_segment_info_def Let_def bind_res_Inr_iff split: if_splits option.splits)

lemma kept_info_piece [kept]:
  "bind_res (show_segment_info e s c) (rep_piece a b n e) = Inr c' \<Longrightarrow>
   file_counter_map c' = file_counter_map c"
  by (auto simp: bind_res_Inr_iff dest!: kept)

lemma kept_remainder [kept]:
  "show_remainder_segment e c = Inr c' \<Longrightarrow> file_counter_map c' = file_counter_map c"
  unfolding show_remainder_segment_def Let_def by (rule kept_info_piece)

lemma isdir_index:
  "get_file_stats_index n sm = Inr (i, sm') \<Longrightarrow> sm_isdir sm' = sm_isdir sm"
  by (auto simp: get_file_stats_index_def Let_def split: option.splits if_splits)

lemma isdir_heat [simp]: "sm_isdir (bump_heat t n sm) = sm_isdir sm"
  by (simp add: bump_heat_def split: seg_type.split)

lemma isdir_set [kept]: "set_segment_counters c n e sm = Inr sm' \<Longrightarrow> sm_isdir sm' = sm_isdir sm"
  by (auto simp: set_segment_counters_def Let_def bind_res_Inr_iff split: option.splits if_splits
      dest!: isdir_index)

lemma kept_consecutive [kept]:
  "show_consecutive_segments e s (sm, c) = Inr (sm', c') \<Longrightarrow>
   file_counter_map c' = file_counter_map c \<and> sm_isdir sm' = sm_isdir sm"
  unfolding show_consecutive_segments_def prod.case Let_def
  by (auto simp: bind_res_Inr_iff split: if_splits dest!: kept)

lemma kept_single [kept]:
  "show_single e s (sm, c) = Inr (sm', c') \<Longrightarrow>
   file_counter_map c' = file_counter_map c \<and> sm_isdir sm' = sm_isdir sm"
  unfolding show_single_def prod.case Let_def
  by (auto simp: bind_res_Inr_iff split: if_splits dest!: kept)

lemma kept_beginning [kept]:
  "show_beginning e s (sm, c) = Inr (q, sm', c') \<Longrightarrow>
   file_counter_map c' = file_counter_map c \<and> sm_isdir sm' = sm_isdir sm"
  unfolding show_beginning_def show_beginning_segment_def prod.case Let_def
  by (auto simp: bind_res_Inr_iff split: if_splits dest!: kept)

lemma kept_multiple [kept]:
  "show_multiple e s (sm, c) = Inr (sm', c') \<Longrightarrow>
   file_counter_map c' = file_counter_map c \<and> sm_isdir sm' = sm_isdir sm"
  unfolding show_multiple_def Let_def
  by (auto simp: bind_res_Inr_iff split: if_splits dest!: kept)

lemma kept_enter [kept]: "enter_zone k e z c = Inr c' \<Longrightarrow> file_counter_map c' = file_counter_map c"
  by (auto simp: enter_zone_def print_zone_info_def bind_res_Inr_iff split: if_splits option.splits)

section \<open>What an extent adds to the counters of its file\<close>

text \<open>
  The segments an extent touches, the first of them, and the zone its first segment is said to
  lie in, as the report computes them (32 bits each).
\<close>

definition seg_span :: "control \<Rightarrow> extent \<Rightarrow> u32" where
  "seg_span c e = ucast (segment_id_of c (phy_blk e + e_len e)
     - drop_bit (ssh c) (phy_blk e AND f2fs_segment_mask c) + 1)"

definition seg_of :: "control \<Rightarrow> extent \<Rightarrow> u32" where
  "seg_of c e = ucast (segment_id_of c (phy_blk e))"

definition seg_zone :: "control \<Rightarrow> extent \<Rightarrow> u32" where
  "seg_zone c e =
     (case get_zone_number c (ucast (drop_bit (zsh c) (push_bit (unat (segment_shift c)) (seg_of c e)))) of
        Inr z \<Rightarrow> z | Inl _ \<Rightarrow> 0)"

text \<open>The zones the segments of an extent fill, rounded down, and one more.\<close>

definition zone_span :: "control \<Rightarrow> extent \<Rightarrow> u32" where
  "zone_span c e = ucast (ucast (drop_bit (unat (sector_shift c)) (seg_span c e * ucast F2FS_SEGMENT_BYTES) :: u32)
     div zone_cap e + 1 :: u64)"

definition heat_of :: "extent \<Rightarrow> seg_type option" where
  "heat_of e = map_option si_type (fs_info e)"

definition span_if :: "control \<Rightarrow> seg_type \<Rightarrow> extent \<Rightarrow> u32" where
  "span_if c t e = (if heat_of e = Some t then seg_span c e else 0)"

definition tally_extent :: "control \<Rightarrow> extent \<Rightarrow> file_counter \<Rightarrow> file_counter" where
  "tally_extent c e f =
     (let f = (if last_segment_id f = ucast (seg_of c e) then f
               else f\<lparr>fc_segment_ctr := fc_segment_ctr f + seg_span c e,
                      cold_ctr := cold_ctr f + span_if c CURSEG_COLD_DATA e,
                      warm_ctr := warm_ctr f + span_if c CURSEG_WARM_DATA e,
                      hot_ctr := hot_ctr f + span_if c CURSEG_HOT_DATA e,
                      last_segment_id := ucast (seg_of c e)\<rparr>)
      in if fc_last_zone f = seg_zone c e then f
         else f\<lparr>fc_zone_ctr := fc_zone_ctr f + zone_span c e, fc_last_zone := seg_zone c e\<rparr>)"

lemma tally_extent_name [simp]: "fc_file (tally_extent c e f) = fc_file f"
  by (simp add: tally_extent_def Let_def)

lemma fold_tally_name [simp]: "fc_file (fold (tally_extent c) es f) = fc_file f"
  by (induction es arbitrary: f) simp_all

text \<open>The entry \<open>increase_file_segment_counter\<close> writes is \<open>tally_extent\<close> of the one it found.\<close>

lemma bump_is_tally:
  assumes "fs_info e = Some i" "zone_cap e \<noteq> 0"
  shows "bump_zones c (seg_span c e) (zone_cap e) (seg_zone c e)
      (bump_segments (si_type i) (seg_span c e) (seg_of c e) f) = Inr (tally_extent c e f)"
proof -
  have h: "bump_segments (si_type i) (seg_span c e) (seg_of c e) f =
      (if last_segment_id f = ucast (seg_of c e) then f
       else f\<lparr>fc_segment_ctr := fc_segment_ctr f + seg_span c e,
              cold_ctr := cold_ctr f + span_if c CURSEG_COLD_DATA e,
              warm_ctr := warm_ctr f + span_if c CURSEG_WARM_DATA e,
              hot_ctr := hot_ctr f + span_if c CURSEG_HOT_DATA e,
              last_segment_id := ucast (seg_of c e)\<rparr>)"
    by (simp add: bump_segments_def bump_class_def span_if_def heat_of_def assms(1) split: seg_type.split)
  show ?thesis
    unfolding h tally_extent_def Let_def bump_zones_def zone_span_def using assms(2) by simp
qed

lemma seg_frame_seg:
  assumes "same_report c c1"
  shows "seg_span c1 = seg_span c" "seg_of c1 = seg_of c" "seg_zone c1 = seg_zone c"
    "tally_extent c1 = tally_extent c"
proof -
  have f: "segment_shift c1 = segment_shift c" "f2fs_segment_mask c1 = f2fs_segment_mask c"
    "znsdev c1 = znsdev c" "zns_sector_shift c1 = zns_sector_shift c" "sector_shift c1 = sector_shift c"
    using assms seg_frame_fields by (auto simp: same_report_def)
  show s: "seg_span c1 = seg_span c" "seg_of c1 = seg_of c"
    by (simp_all add: fun_eq_iff seg_span_def seg_of_def segment_id_of_def f)
  show z: "seg_zone c1 = seg_zone c"
    by (simp add: fun_eq_iff seg_zone_def get_zone_number_def f s)
  have "span_if c1 = span_if c" "zone_span c1 = zone_span c"
    by (simp_all add: fun_eq_iff span_if_def zone_span_def f s)
  then show "tally_extent c1 = tally_extent c"
    by (simp add: fun_eq_iff tally_extent_def s z)
qed

lemma update_distinct:
  assumes "distinct (map key xs)" "i < length xs" "\<And>x. key x = key (xs ! i) \<Longrightarrow> x = xs ! i \<Longrightarrow> g x = y"
  shows "xs[i := y] = map (\<lambda>x. if key x = key (xs ! i) then g x else x) xs"
proof (rule nth_equalityI)
  fix j assume "j < length (xs[i := y])"
  with assms nth_eq_iff_index_eq [of "map key xs" j i]
  show "xs[i := y] ! j = map (\<lambda>x. if key x = key (xs ! i) then g x else x) xs ! j"
    by (cases "j = i") simp_all
qed simp

text \<open>A call for an extent that is recorded changes the entry of its file and no other.\<close>

lemma increase_counts:
  assumes "printable k c e" "same_report c c1" "file_counter_map c1 = Some m"
    "increase_file_segment_counter (e_file e) (seg_span c e) (seg_of c e) (fs_info e) (zone_cap e) c1 = Inr c2"
  shows "\<exists>m2. file_counter_map c2 = Some m2 \<and>
    active m2 = map (\<lambda>f. if fc_file f = e_file e then tally_extent c e f else f) (active m)"
proof -
  note p = printableD [OF assms(1)]
  obtain si where si: "fs_info e = Some si" using p(5) by blast
  obtain i where i: "index_of (same_file (e_file e)) (active m) = Some i" "i < length (files m)"
    using counter_found [OF assms(1,2)] assms(3) by auto
  have cap: "zone_cap e \<noteq> 0" using p(4) by (simp add: reportable_def)
  have "push_bit (zsh c1) (b_zone_size (znsdev c1)) \<noteq> 0"
    using p(4) same_report_fields [OF assms(2)] by (simp add: reportable_def)
  then obtain z where z: "get_zone_number c1 (ucast (drop_bit (zsh c1)
      (push_bit (unat (segment_shift c1)) (seg_of c1 e)))) = Inr z"
    by (simp add: get_zone_number_def Let_def)
  then have "seg_zone c1 e = z" by (simp add: seg_zone_def)
  with z have z: "get_zone_number c1 (ucast (drop_bit (zsh c1)
      (push_bit (unat (segment_shift c1)) (seg_of c e)))) = Inr (seg_zone c1 e)"
    by (simp add: seg_frame_seg [OF assms(2)])
  have b: "bump_zones c1 (seg_span c e) (zone_cap e) (seg_zone c1 e)
      (bump_segments (si_type si) (seg_span c e) (seg_of c e) f) = Inr (tally_extent c e f)" for f
    using bump_is_tally [OF si cap, of c1 f] by (simp add: seg_frame_seg [OF assms(2)])
  have c2: "file_counter_map c2 = Some (m\<lparr>files := (files m)[i := tally_extent c e (files m ! i)]\<rparr>)"
    using assms(4) i by (simp add: increase_file_segment_counter_def si assms(3) z b Let_def flip: not_less) auto
  have n: "fc_file (active m ! i) = e_file e" "i < length (active m)"
    using i(1) by (auto simp: index_of_Some_iff same_file_eq)
  have v: "ext_view c1 = ext_view c" by (rule same_report_view [OF assms(2)])
  obtain fm where fm: "file_counter_map c = Some fm" using p(3) by (auto simp: ext_view_def)
  with v assms(3) have eq: "file_ctr m = file_ctr fm"
    "map (\<lambda>f. (fc_file f, fc_ext_ctr f)) (files m) = map (\<lambda>f. (fc_file f, fc_ext_ctr f)) (files fm)"
    by (auto simp: ext_view_def)
  have "map fc_file (files m) = map fc_file (files fm)"
    using arg_cong [OF eq(2), of "map fst"] by (simp add: o_def)
  then have "map fc_file (active m) = map fc_file (active fm)" by (simp add: active_def eq(1) flip: take_map)
  moreover have "fcm_inv fm" using p(1) fm by (auto simp: ctrl_inv_def files_inv_def counters_def)
  ultimately have d: "distinct (map fc_file (active m))" by (simp add: fcm_inv_def)
  have "i < unat (file_ctr m)" "active m ! i = files m ! i" using n(2) by (simp_all add: active_def)
  with update_distinct [OF d n(2), of "tally_extent c e" "tally_extent c e (files m ! i)"] n(1) c2
  show ?thesis by (simp add: active_update)
qed

section \<open>The counters along the walk\<close>

text \<open>The state of the walk after the extents \<open>es\<close>, relative to the state at its start.\<close>

definition counts :: "control \<Rightarrow> extent list \<Rightarrow> control \<Rightarrow> bool" where
  "counts c es c1 \<longleftrightarrow> (\<exists>m. file_counter_map c1 = Some m \<and>
     active m = map (\<lambda>f. fold (tally_extent c) (filter (\<lambda>e. e_file e = fc_file f) es) f) (active (counters c)))"

lemma counts_start: "file_counter_map c1 = file_counter_map c \<Longrightarrow> ext_view c \<noteq> None \<Longrightarrow> counts c [] c1"
  by (auto simp: counts_def counters_def ext_view_def)

lemma counts_kept: "file_counter_map c2 = file_counter_map c1 \<Longrightarrow> counts c es c2 = counts c es c1"
  by (simp add: counts_def)

lemma counts_increase:
  assumes "counts c es c1" "printable k c e" "same_report c c1"
    "increase_file_segment_counter (e_file e) (seg_span c e) (seg_of c e) (fs_info e) (zone_cap e) c1 = Inr c2"
  shows "counts c (es @ [e]) c2"
proof -
  from assms(1) obtain m where m: "file_counter_map c1 = Some m"
    "active m = map (\<lambda>f. fold (tally_extent c) (filter (\<lambda>e. e_file e = fc_file f) es) f) (active (counters c))"
    by (auto simp: counts_def)
  from increase_counts [OF assms(2,3) m(1) assms(4)] show ?thesis
    by (auto simp: counts_def m(2))
qed

lemma if_cases: "(if P then x else y) = z \<Longrightarrow> (x = z \<Longrightarrow> R) \<Longrightarrow> (y = z \<Longrightarrow> R) \<Longrightarrow> R"
  by (cases P) simp_all

lemma counts_extent:
  assumes "counts c es c1" "printable k c e" "same_report c c1"
    "report_extent k e (z, sm, c1) = Inr (z', sm', c2)"
  shows "counts c (es @ [e]) c2" "sm_isdir sm' = sm_isdir sm"
proof -
  note a = assms(4) [unfolded report_extent_def prod.case bind_res_Inr_iff Let_def]
  obtain c3 c4 where en: "enter_zone k e z c1 = Inr c3"
    and x: "increase_file_segment_counter (e_file e) (ucast (segment_id_of c3 (phy_blk e + e_len e)
        - drop_bit (ssh c3) (phy_blk e AND f2fs_segment_mask c3) + 1))
      (ucast (segment_id_of c3 (phy_blk e))) (fs_info e) (zone_cap e) c3 = Inr c4"
    and r: "(if phy_blk e AND f2fs_segment_mask c3 = phy_blk e + e_len e AND f2fs_segment_mask c4
        \<or> phy_blk e + e_len e = (phy_blk e AND f2fs_segment_mask c3) + drop_bit (unat (sector_shift c4)) F2FS_SEGMENT_BYTES
      then show_single e (segment_id_of c3 (phy_blk e)) (sm, c4)
      else show_multiple e (segment_id_of c3 (phy_blk e)) (sm, c4)) = Inr (sm', c2)"
    using a by (elim exE conjE) (rule that, assumption, assumption, simp_all only: sum.inject prod.inject)
  note i = x [folded seg_span_def seg_of_def]
  have s3: "same_report c c3" using yields_enter [OF assms(2,3), of z] en by simp
  have "counts c es c3" using counts_kept [OF kept_enter [OF en]] assms(1) by simp
  from counts_increase [OF this assms(2) s3] i have "counts c (es @ [e]) c4"
    by (simp add: seg_frame_seg [OF s3])
  moreover have f: "file_counter_map c2 = file_counter_map c4 \<and> sm_isdir sm' = sm_isdir sm"
  proof (rule if_cases [OF r])
    assume "show_single e (segment_id_of c3 (phy_blk e)) (sm, c4) = Inr (sm', c2)"
    then show ?thesis by (rule kept_single)
  next
    assume "show_multiple e (segment_id_of c3 (phy_blk e)) (sm, c4) = Inr (sm', c2)"
    then show ?thesis by (rule kept_multiple)
  qed
  ultimately show "counts c (es @ [e]) c2" using counts_kept [OF conjunct1 [OF f]] by blast
  show "sm_isdir sm' = sm_isdir sm" using f by simp
qed

text \<open>The extents of a zone the report comes to, and those of all zones.\<close>

definition zone_reported :: "control \<Rightarrow> zone \<Rightarrow> extent list" where
  "zone_reported c z = takeWhile (\<lambda>e. start_blk c e < report_end_lba c) (extents z)"

definition reported :: "control \<Rightarrow> zone_map \<Rightarrow> extent list" where
  "reported c m = concat (map (zone_reported c) (zones m))"

lemma counts_zone:
  "report_zone_extents fuel k xs (z, s) = Inr (z', s') \<Longrightarrow> ready c s \<Longrightarrow> counts c es (snd s) \<Longrightarrow>
   \<forall>e\<in>set xs. printable k c e \<and> report_start_lba c \<le> start_blk c e \<Longrightarrow>
   ready c s' \<and> sm_isdir (fst s') = sm_isdir (fst s) \<and>
     counts c (es @ takeWhile (\<lambda>e. start_blk c e < report_end_lba c) xs) (snd s')"
proof (induction xs arbitrary: fuel z s es)
  case Nil
  then show ?case by (cases s) simp
next
  case (Cons e xs)
  obtain sm c1 where s: "s = (sm, c1)" by (cases s)
  have r: "same_report c c1" and p: "printable k c e" using Cons.prems(2,4) by (simp_all add: s)
  have b: "push_bit (ssh c1) (segment_id_of c1 (phy_blk e)) = start_blk c e"
    "report_end_lba c1 = report_end_lba c" "report_start_lba c1 = report_start_lba c"
    using same_report_range [OF r, of e] by (simp_all add: start_blk_def)
  have nb: "\<not> start_blk c e < report_start_lba c" using Cons.prems(4) by (simp add: not_less)
  from Cons.prems(1) obtain n where fuel: "fuel = Suc n" by (cases fuel) (simp_all add: s)
  show ?case
  proof (cases "report_end_lba c \<le> start_blk c e")
    case True
    then have "s' = s" "\<not> start_blk c e < report_end_lba c"
      using Cons.prems(1) by (simp_all add: fuel s b Let_def)
    with Cons.prems(2,3) show ?thesis by simp
  next
    case False
    with Cons.prems(1) obtain z1 sm1 c2 where x: "report_extent k e (z, sm, c1) = Inr (z1, sm1, c2)"
      "report_zone_extents n k xs (z1, sm1, c2) = Inr (z', s')"
      by (auto simp: fuel s b Let_def nb bind_res_Inr_iff)
    have "ready c (sm1, c2)" using yields_extent [OF p Cons.prems(2) [unfolded s], of z] x(1) by simp
    moreover have "counts c (es @ [e]) (snd (sm1, c2))"
      using counts_extent(1) [OF _ p r x(1)] Cons.prems(3) by (simp add: s)
    moreover have "sm_isdir sm1 = sm_isdir (fst s)"
      using counts_extent(2) [OF _ p r x(1), of es] Cons.prems(3) by (simp add: s)
    ultimately show ?thesis
      using Cons.IH [OF x(2), of "es @ [e]"] Cons.prems(4) False by (simp add: not_le)
  qed
qed

lemma counts_all:
  "report_all_zones fuel k m is (z, s) = Inr (z', s') \<Longrightarrow> ready c s \<Longrightarrow> counts c es (snd s) \<Longrightarrow>
   \<forall>i\<in>set is. zone_wf (zones m ! i) \<and>
     (\<forall>e\<in>set (extents (zones m ! i)). printable k c e \<and> report_start_lba c \<le> start_blk c e) \<Longrightarrow>
   ready c s' \<and> sm_isdir (fst s') = sm_isdir (fst s) \<and>
     counts c (es @ concat (map (\<lambda>i. zone_reported c (zones m ! i)) is)) (snd s')"
proof (induction "is" arbitrary: z s es)
  case Nil
  then show ?case by simp
next
  case (Cons i "is")
  show ?case
  proof (cases "z_extent_ctr (zones m ! i) = 0")
    case True
    with Cons.prems(4) have "extents (zones m ! i) = []" by (simp add: zone_wf_def)
    with Cons True show ?thesis by (simp add: zone_reported_def split: if_splits)
  next
    case False
    with Cons.prems(1) obtain z1 s1 where x:
      "report_zone_extents fuel k (extents (zones m ! i)) (z, s) = Inr (z1, s1)"
      "report_all_zones fuel k m is (z1, s1) = Inr (z', s')"
      by (auto simp: bind_res_Inr_iff split: if_splits)
    have r: "ready c s1" "sm_isdir (fst s1) = sm_isdir (fst s)"
      "counts c (es @ zone_reported c (zones m ! i)) (snd s1)"
      using counts_zone [OF x(1) Cons.prems(2,3)] Cons.prems(4) by (simp_all add: zone_reported_def)
    from Cons.IH [OF x(2) r(1,3)] Cons.prems(4) r(2) show ?thesis by simp
  qed
qed

section \<open>Closed forms\<close>

text \<open>
  The elements of a list whose key differs from that of the element before, with \<open>p\<close> as the
  key in front of the first one.
\<close>

fun runs :: "('a \<Rightarrow> 'k) \<Rightarrow> 'k \<Rightarrow> 'a list \<Rightarrow> 'a list" where
  "runs key p [] = []"
| "runs key p (x # xs) = (if key x = p then runs key p xs else x # runs key (key x) xs)"

abbreviation seg_runs :: "control \<Rightarrow> file_counter \<Rightarrow> extent list \<Rightarrow> extent list" where
  "seg_runs c f \<equiv> runs (\<lambda>e. ucast (seg_of c e)) (last_segment_id f)"

abbreviation zone_runs :: "control \<Rightarrow> file_counter \<Rightarrow> extent list \<Rightarrow> extent list" where
  "zone_runs c f \<equiv> runs (seg_zone c) (fc_last_zone f)"

abbreviation total :: "('a \<Rightarrow> u32) \<Rightarrow> 'a list \<Rightarrow> u32" where
  "total g xs \<equiv> sum_list (map g xs)"

lemma tally_extent_ext [simp]: "fc_ext_ctr (tally_extent c e f) = fc_ext_ctr f"
  by (simp add: tally_extent_def Let_def)

lemma fold_tally_ext [simp]: "fc_ext_ctr (fold (tally_extent c) es f) = fc_ext_ctr f"
  by (induction es arbitrary: f) simp_all

lemma fold_tally_segments:
  "fc_segment_ctr (fold (tally_extent c) es f) = fc_segment_ctr f + total (seg_span c) (seg_runs c f es)"
  by (induction es arbitrary: f) (simp_all add: tally_extent_def Let_def)

lemma fold_tally_zones:
  "fc_zone_ctr (fold (tally_extent c) es f) = fc_zone_ctr f + total (zone_span c) (zone_runs c f es)"
  by (induction es arbitrary: f) (simp_all add: tally_extent_def Let_def)

lemma fold_tally_heat:
  "cold_ctr (fold (tally_extent c) es f) = cold_ctr f + total (span_if c CURSEG_COLD_DATA) (seg_runs c f es)"
  "warm_ctr (fold (tally_extent c) es f) = warm_ctr f + total (span_if c CURSEG_WARM_DATA) (seg_runs c f es)"
  "hot_ctr (fold (tally_extent c) es f) = hot_ctr f + total (span_if c CURSEG_HOT_DATA) (seg_runs c f es)"
  by (induction es arbitrary: f) (simp_all add: tally_extent_def Let_def)

text \<open>The line of a file, from the extents of the report.\<close>

definition stats_of :: "control \<Rightarrow> extent list \<Rightarrow> file_counter \<Rightarrow> out" where
  "stats_of c es f =
     (let es = filter (\<lambda>e. e_file e = fc_file f) es; hs = seg_runs c f es in
      FileStats (fc_file f) (fc_ext_ctr f) (fc_segment_ctr f + total (seg_span c) hs)
        (fc_zone_ctr f + total (zone_span c) (zone_runs c f es))
        (cold_ctr f + total (span_if c CURSEG_COLD_DATA) hs)
        (warm_ctr f + total (span_if c CURSEG_WARM_DATA) hs)
        (hot_ctr f + total (span_if c CURSEG_HOT_DATA) hs))"

lemma stats_of_fold:
  "file_stats_line (fold (tally_extent c) (filter (\<lambda>e. e_file e = fc_file f) es) f) = stats_of c es f"
  by (simp add: file_stats_line_def stats_of_def fold_tally_segments fold_tally_zones fold_tally_heat Let_def)

section \<open>The statistics of the report\<close>

lemma show_segment_stats_ends:
  assumes "show_segment_stats sm c1 = Inr c'" "sm_isdir sm" "1 < nr_files c1" "file_counter_map c1 = Some m"
  shows "\<exists>ls. stdout c' = stdout c1 @ ls @ map file_stats_line (active m)"
proof -
  let ?c1 = "msg (Text ''SEGMENT STATS'') c1"
  let ?incl = "exclude_flags ?c1 AND FIEMAP_EXTENT_DATA_INLINE = 0"
  let ?c2 = "if ?incl then msg (Warn ''Segment Heat Classification statistics exclude inode inlined file data'' []) ?c1 else ?c1"
  let ?c3 = "if 0 < inlined_extent_ctr ?c2 \<and> ?incl
      then msg (Field ''FIEMAP_EXTENT_DATA_INLINE'' [N (unat (inlined_extent_ctr ?c2))]) ?c2 else ?c2"
  have k: "nr_files ?c3 = nr_files c1" "file_counter_map ?c3 = Some m" using assms(4) by (simp_all add: msg_def)
  have "\<exists>ls. stdout ?c3 = stdout c1 @ ls" by (auto simp: msg_def)
  then obtain ls where ls: "stdout ?c3 = stdout c1 @ ls" ..
  have "c' = fold msg (map file_stats_line (active m)) ?c3"
    using assms(1-3) k unfolding show_segment_stats_def Let_def
    by (simp only: option.case if_True simp_thms) (simp split: if_splits)
  then show ?thesis using ls by (simp add: fold_msg_stdout)
qed

lemma show_segment_report_ends:
  assumes "ctrl_inv c" "showing c" "zonemap c = Some m" "sm_ctr sm = 0" "recorded m \<noteq> {#}"
    "\<forall>e\<in>#recorded m. reportable k c e \<and> report_start_lba c \<le> start_blk c e"
    "\<forall>z\<in>set (zones m). length (extents z) \<le> fuel" "sm_isdir sm" "1 < nr_files c"
  shows "\<exists>sm' c' ls. show_segment_report fuel k (sm, c) = Inr (sm', c') \<and>
    stdout c' = stdout c @ ls @ map (stats_of c (reported c m)) (active (counters c)) \<and> zonemap c' = Some m"
proof -
  let ?c = "rep (show_only_stats c) (Text ''SEGMENT MAPPINGS'') c"
  let ?sm = "if show_class_stats c then sm\<lparr>sm_fs := replicate (unat (nr_files c)) zero_file_stats\<rparr> else sm"
  let ?is = "[0..<unat (zm_nr_zones m)]"
  have inv: "zm_inv m" using assms(1,3) by (auto simp: ctrl_inv_def)
  then have nz: "unat (zm_nr_zones m) = length (zones m)" by (simp add: zm_inv_def)
  from show_segment_report_total [OF assms(1-7)] obtain sm' c' where
    r: "show_segment_report fuel k (sm, c) = Inr (sm', c')" by blast
  obtain e0 where "e0 \<in># recorded_in c" using assms(3,5) by (auto simp: recorded_in_def)
  with assms(1) have v: "ext_view c \<noteq> None" by (rule ext_view_recorded)
  have p: "printable k c e" if "e \<in># recorded m" for e
    using that assms(1,2,6) v by (simp add: printable_def)
  have zm: "zonemap ?c = Some m" using assms(3) by (simp add: rep_def)
  have sr: "same_report c ?c" using same_report_msg same_report_refl by (simp add: rep_def)
  have st: "ready c (?sm, ?c)" using ready_start [OF assms(1,4)] sr by simp
  from r zm obtain z sm1 c1 where w: "report_all_zones fuel k m ?is (0, ?sm, ?c) = Inr (z, sm1, c1)"
    "show_segment_stats sm1 c1 = Inr c'"
    by (auto simp: show_segment_report_def Let_def bind_res_Inr_iff)
  have "\<forall>i\<in>set ?is. zone_wf (zones m ! i) \<and>
     (\<forall>e\<in>set (extents (zones m ! i)). printable k c e \<and> report_start_lba c \<le> start_blk c e)"
    using assms(6) p recorded_member inv by (auto simp: nz zm_inv_def)
  from counts_all [OF w(1) st _ this, of "[]"] counts_start [OF _ v, of ?c]
  have e: "same_report c c1" "sm_isdir sm1 = sm_isdir sm" "counts c (concat (map (\<lambda>i. zone_reported c (zones m ! i)) ?is)) c1" by simp_all
  have "map (\<lambda>i. zone_reported c (zones m ! i)) ?is = map (zone_reported c) (zones m)"
    by (rule nth_equalityI) (simp_all add: nz)
  with e(3) obtain fm where fm: "file_counter_map c1 = Some fm"
    "map file_stats_line (active fm) = map (stats_of c (reported c m)) (active (counters c))"
    by (auto simp: counts_def reported_def stats_of_fold)
  have n: "nr_files c1 = nr_files c" "\<exists>ls. stdout c1 = stdout c @ ls"
    using e(1) seg_frame_fields by (auto simp: same_report_def)
  have "sm_isdir sm1" using e(2) assms(8) by simp
  from show_segment_stats_ends [OF w(2) this _ fm(1)] n fm(2) assms(9) have
    "\<exists>ls. stdout c' = stdout c @ ls @ map (stats_of c (reported c m)) (active (counters c))" by fastforce
  moreover have "zonemap c' = Some m"
    using show_segment_stats_zonemap [OF w(2)] same_report_fields [OF e(1)] assms(3) by simp
  ultimately show ?thesis using r by blast
qed


section \<open>The first segment of the device\<close>

text \<open>
  The numbers of the current segment and of the last segment of a file start at 0, which is
  also the number of the first segment of the zoned device.
\<close>

lemma enter_zone_lines:
  assumes "enter_zone k e z c = Inr c'"
  shows "cur_segment c' = cur_segment c \<and>
    (\<exists>ls. stdout c' = stdout c @ ls \<and> (\<forall>a b d n. SegmentLine a b d n \<notin> set ls))"
  using assms by (auto simp: enter_zone_def print_zone_info_def msg_def bind_res_Inr_iff
      split: if_splits option.splits)

lemma increase_lines:
  assumes "increase_file_segment_counter f n g i q c = Inr c'"
  shows "cur_segment c' = cur_segment c \<and> stdout c' = stdout c"
  using assms by (auto simp: increase_file_segment_counter_def Let_def bind_res_Inr_iff split: option.splits if_splits)

lemma tally_extent_first:
  "seg_of c e = 0 \<Longrightarrow> last_segment_id f = 0 \<Longrightarrow> fc_segment_ctr (tally_extent c e f) = fc_segment_ctr f"
  by (simp add: tally_extent_def Let_def)

lemma rep_piece_lines:
  assumes "rep_piece a b n e c = Inr c'"
  shows "cur_segment c' = cur_segment c \<and>
    (\<exists>ls. stdout c' = stdout c @ ls \<and> (\<forall>a b d n. SegmentLine a b d n \<notin> set ls))"
  using assms by (auto simp: rep_piece_def msg_def bind_res_Inr_iff split: if_splits)

text \<open>C31. The first segment of the zoned device is missed when an extent inside it is the first of
  its file and of the report: the report of this extent prints no line for its segment, leaves
  the counters of segments and their heat as they are, and does not count the segment for the
  file.\<close>

theorem first_segment_missed:
  assumes "printable k c e" "is_single c e" "segment_id_of c (phy_blk e) = 0" "cur_segment c = 0"
    "\<forall>f\<in>set (active (counters c)). fc_file f = e_file e \<longrightarrow> last_segment_id f = 0"
  shows "\<exists>c' ls. report_extent k e (z, sm, c) = Inr (e_zone e, sm, c') \<and>
    stdout c' = stdout c @ ls \<and> (\<forall>a b d n. SegmentLine a b d n \<notin> set ls) \<and> cur_segment c' = 0 \<and>
    map fc_segment_ctr (active (counters c')) = map fc_segment_ctr (active (counters c))"
proof -
  note p = printableD [OF assms(1)]
  obtain c3 where c3: "enter_zone k e z c = Inr c3" "same_report c c3"
    using yields_enter [OF assms(1) same_report_refl, of z] by (auto simp: yields_def)
  obtain c4 where c4: "increase_file_segment_counter (e_file e) (seg_span c e) (seg_of c e) (fs_info e) (zone_cap e) c3 = Inr c4"
    "same_report c c4"
    using yields_increase [OF assms(1) c3(2)] by (auto simp: yields_def)
  obtain c' where c': "rep_piece (phy_blk e) (phy_blk e + e_len e) (e_len e) e c4 = Inr c'"
    using yields_piece [OF c4(2) p(3), unfolded yields_def] by blast
  obtain m where m: "file_counter_map c = Some m" "file_counter_map c3 = Some m"
    using p(3) kept_enter [OF c3(1)] by (auto simp: ext_view_def)
  obtain m2 where m2: "file_counter_map c4 = Some m2"
    "active m2 = map (\<lambda>f. if fc_file f = e_file e then tally_extent c e f else f) (active m)"
    using increase_counts [OF assms(1) c3(2) m(2) c4(1)] by blast
  have so: "seg_of c e = 0" by (simp add: seg_of_def assms(3))
  have "map fc_segment_ctr (active m2) = map fc_segment_ctr (active m)"
    using assms(5) tally_extent_first [OF so] by (simp add: m2(2) counters_def m(1))
  then have ctr: "map fc_segment_ctr (active (counters c')) = map fc_segment_ctr (active (counters c))"
    using kept_piece [OF c'] by (simp add: counters_def m(1) m2(1))
  have cur: "cur_segment c4 = 0" using enter_zone_lines [OF c3(1)] increase_lines [OF c4(1)] assms(4) by simp
  have f: "segment_shift c3 = segment_shift c" "f2fs_segment_mask c3 = f2fs_segment_mask c"
    "f2fs_segment_mask c4 = f2fs_segment_mask c" "sector_shift c4 = sector_shift c"
    using c3(2) c4(2) seg_frame_fields by (auto simp: same_report_def)
  have "show_single e 0 (sm, c4) = Inr (sm, c')" by (simp add: show_single_def cur c')
  then have "report_extent k e (z, sm, c) = Inr (e_zone e, sm, c')"
    using c4(1) assms(2,3)
    by (simp add: report_extent_def c3(1) seg_span_def seg_of_def is_single_def segment_id_of_def f Let_def)
  moreover obtain l1 l2 where "stdout c3 = stdout c @ l1" "stdout c' = stdout c4 @ l2"
    "\<forall>a b d n. SegmentLine a b d n \<notin> set l1" "\<forall>a b d n. SegmentLine a b d n \<notin> set l2"
    using enter_zone_lines [OF c3(1)] rep_piece_lines [OF c'] by blast
  moreover have "stdout c4 = stdout c3" using increase_lines [OF c4(1)] by simp
  moreover have "cur_segment c' = 0" using rep_piece_lines [OF c'] cur by simp
  ultimately show ?thesis using ctr by (intro exI [of _ c'] exI [of _ "l1 @ l2"]) simp
qed

end
