(* ===== verification/Sample_Stats.thy ===== *)
theory Sample_Stats
  imports Sample_Reports Segmap_Stats
begin

text \<open>
  The statistics at the end of the segment report, for a directory of two files on the sample
  device, and the report of an extent in the first segment of that device.
\<close>

section \<open>A directory of two files\<close>

text \<open>The report for a directory of two files, one of which has the extent over four segments.\<close>

definition dir_ctrl :: control where
  "dir_ctrl = (long_ctrl 1)\<lparr>nr_files := 2,
     file_counter_map := Some \<lparr>file_ctr = 1, files = [long_counter, zero_file_counter]\<rparr>\<rparr>"

lemma dir_fields:
  "zonemap dir_ctrl = Some long_map" "nr_files dir_ctrl = 2" "segment_shift dir_ctrl = 12"
  "f2fs_segment_mask dir_ctrl = - 4096" "znsdev dir_ctrl = znsdev (long_ctrl 1)" "zns_sector_shift dir_ctrl = 0"
  "sector_shift dir_ctrl = 9" "report_start_lba dir_ctrl = 0" "report_end_lba dir_ctrl = 32768"
  "start_blk dir_ctrl long_extent = 8192"
  using long_report_values
  by (simp_all add: dir_ctrl_def long_setting report_start_lba_def report_end_lba_def start_blk_def
      segment_id_of_def) (simp add: long_ctrl_def sample_segments)

lemma dir_counters: "counters dir_ctrl = \<lparr>file_ctr = 1, files = [long_counter, zero_file_counter]\<rparr>"
  "active (counters dir_ctrl) = [long_counter]"
  by (simp_all add: counters_def dir_ctrl_def active_def)

lemma dir_inv: "ctrl_inv dir_ctrl"
proof -
  have "files_inv \<lparr>file_ctr = 1, files = [long_counter, zero_file_counter]\<rparr> long_map"
    by (simp add: files_inv_def long_recorded fcm_inv_def fcm_keys_def active_def ext_count_def extents_of_file_def
      long_counter_def zero_file_counter_def long_extent_fields MAX_FILE_LENGTH_def)
  moreover have "placed dir_ctrl long_map"
    using long_placed [of 1] by (simp add: placed_def get_zone_number_def dir_fields long_setting)
  ultimately show ?thesis
    using long_inv [of 1] by (simp add: ctrl_inv_def dir_counters long_setting dir_fields)
qed

lemma dir_reportable: "reportable sample_os dir_ctrl long_extent"
  using long_reportable [of 1]
  by (simp add: reportable_def recorded_in_def dir_fields long_setting report_zone_def)

lemma dir_seg: "seg_span dir_ctrl long_extent = 4" "seg_of dir_ctrl long_extent = 2"
  "seg_zone dir_ctrl long_extent = 1"
  by (simp_all add: seg_span_def seg_zone_def seg_of_def segment_id_of_def get_zone_number_def dir_fields
      long_setting long_extent_fields)

lemma dir_spans: "zone_span dir_ctrl long_extent = 3" "span_if dir_ctrl CURSEG_WARM_DATA long_extent = 4"
  "span_if dir_ctrl CURSEG_COLD_DATA long_extent = 0" "span_if dir_ctrl CURSEG_HOT_DATA long_extent = 0"
  by (simp_all add: zone_span_def span_if_def heat_of_def dir_seg dir_fields long_extent_fields F2FS_SEGMENT_BYTES_def)


section \<open>An extent in the first segment\<close>

definition first_extent :: extent where
  "first_extent = long_extent\<lparr>e_zone := 0, phy_blk := 100, e_len := 50\<rparr>"

definition first_map :: zone_map where
  "first_map = \<lparr>zm_nr_zones = 4, zm_extent_ctr = 1, cum_extent_size = 50, zone_ctr = 1,
     zones = [(empty_zone 0)\<lparr>z_extent_ctr := 1, extents := [first_extent]\<rparr>, empty_zone 1,
              empty_zone 2, empty_zone 3]\<rparr>"

definition first_ctrl :: control where
  "first_ctrl = (long_ctrl 1)\<lparr>zonemap := Some first_map\<rparr>"

lemma first_fields:
  "phy_blk first_extent = 100" "e_len first_extent = 50" "e_zone first_extent = 0" "e_file first_extent = ''a''"
  "zone_cap first_extent = 8192" "fs_info first_extent = fs_info long_extent"
  "zonemap first_ctrl = Some first_map" "recorded first_map = {#first_extent#}"
  "counters first_ctrl = \<lparr>file_ctr = 1, files = [long_counter]\<rparr>" "znsdev first_ctrl = znsdev (long_ctrl 1)"
  "zns_sector_shift first_ctrl = 0" "segment_shift first_ctrl = 12" "f2fs_segment_mask first_ctrl = - 4096"
  "sector_shift first_ctrl = 9" "nr_files first_ctrl = 1"
  by (simp_all add: first_extent_def long_extent_fields first_ctrl_def first_map_def recorded_def empty_zone_def
      counters_def long_setting) (simp_all add: long_ctrl_def sample_segments)

lemma first_inv: "ctrl_inv first_ctrl"
proof -
  have "zm_inv first_map"
    by (simp add: zm_inv_def first_fields) (simp add: first_map_def empty_zone_def zone_wf_def less_Suc_eq first_fields)
  moreover have "files_inv \<lparr>file_ctr = 1, files = [long_counter]\<rparr> first_map"
    by (simp add: files_inv_def first_fields fcm_inv_def fcm_keys_def active_def ext_count_def extents_of_file_def
      long_counter_def zero_file_counter_def MAX_FILE_LENGTH_def)
  moreover have "placed first_ctrl first_map"
    by (simp add: placed_def first_fields get_zone_number_def long_setting)
  ultimately show ?thesis
    using long_inv [of 1] by (simp add: ctrl_inv_def first_fields)
qed

theorem first_segment_missed_witness:
  "\<exists>c' ls. report_extent sample_os first_extent (1, two_stats, first_ctrl) = Inr (0, two_stats, c') \<and>
     stdout c' = stdout first_ctrl @ ls \<and> (\<forall>a b d n. SegmentLine a b d n \<notin> set ls) \<and> cur_segment c' = 0 \<and>
     map fc_segment_ctr (active (counters c')) = [0]"
proof -
  have "showing first_ctrl" "cur_segment first_ctrl = 0" "ext_view first_ctrl \<noteq> None"
    by (simp_all add: showing_def ext_view_def first_ctrl_def long_ctrl_def sample_ctrl_def sample_start_def
        zero_control_def)
  moreover have "reportable sample_os first_ctrl first_extent"
    by (simp add: reportable_def recorded_in_def first_fields long_setting long_extent_fields report_zone_def
      sample_os_def Let_def)
  ultimately have p: "printable sample_os first_ctrl first_extent" and c: "cur_segment first_ctrl = 0"
    using first_inv by (simp_all add: printable_def)
  have s: "is_single first_ctrl first_extent" "segment_id_of first_ctrl (phy_blk first_extent) = 0"
    by (simp_all add: is_single_def segment_id_of_def first_fields)
  have a: "active (counters first_ctrl) = [long_counter]" by (simp add: first_fields active_def)
  have l: "\<forall>f\<in>set (active (counters first_ctrl)). fc_file f = e_file first_extent \<longrightarrow> last_segment_id f = 0"
    by (simp add: a long_counter_def zero_file_counter_def)
  have "map fc_segment_ctr (active (counters first_ctrl)) = [0]"
    by (simp add: a long_counter_def zero_file_counter_def)
  with first_segment_missed [OF p s c l, of 1 two_stats] show ?thesis by (simp add: first_fields)
qed

end
