(* ===== verification/Json_Total.thy ===== *)
theory Json_Total
  imports Json_Dump Segmap_Total
begin

text \<open>
  When the JSON dump of \<open>zns.segmap -j\<close> returns, and what the members of the document are; and that
  it runs forever with an extent in front of the start zone.
\<close>

section \<open>The steps\<close>

text \<open>An extent the dump can describe: it lies in the range of zones and has segment information.\<close>

definition in_span :: "nat \<Rightarrow> control \<Rightarrow> extent \<Rightarrow> bool" where
  "in_span bound c e \<longleftrightarrow> report_start_lba c \<le> start_blk c e \<and> start_blk c e < report_end_lba c \<and>
     ext_end e < 2 ^ 64 \<and> end_seg c e \<le> bound"

definition dumpable :: "nat \<Rightarrow> control \<Rightarrow> extent \<Rightarrow> bool" where
  "dumpable bound c e \<longleftrightarrow> fs_info e \<noteq> None \<and> in_span bound c e"

lemma yields_segment_info: "fs_info e \<noteq> None \<Longrightarrow> yields (json_get_segment_info J c e s) (\<lambda>_. True)"
  by (auto simp: json_get_segment_info_def Let_def)

lemma yields_json_extent: "file_counter_map c \<noteq> None \<Longrightarrow> yields (json_extent J c e a b s) (\<lambda>_. True)"
  by (auto simp: json_extent_def get_file_extent_count_def)

lemma yields_extent_info: "file_counter_map c \<noteq> None \<Longrightarrow> yields (json_get_extent_info J c e) (\<lambda>_. True)"
  by (simp add: json_get_extent_info_def yields_json_extent)

lemma yields_json_beginning: "file_counter_map c \<noteq> None \<Longrightarrow> yields (json_get_beginning_segment_extent_info J c e) (\<lambda>_. True)"
  by (simp add: json_get_beginning_segment_extent_info_def yields_json_extent Let_def)

lemma yields_json_single:
  assumes "file_counter_map c \<noteq> None" "fs_info e \<noteq> None"
  shows "yields (json_add_single_segment_extent_info J c e s root) (\<lambda>_. True)"
  unfolding json_add_single_segment_extent_info_def
  by (rule yields_bind [OF yields_segment_info [OF assms(2)]], rule yields_bind [OF yields_extent_info [OF assms(1)]])
    (simp add: Let_def)

text \<open>The loop over the segments in the middle ends when segment numbers stay far below \<open>2 ^ 32\<close>.\<close>

lemma yields_json_consecutive_loop:
  "file_counter_map c \<noteq> None \<Longrightarrow> fs_info e \<noteq> None \<Longrightarrow> unat hi < 2 ^ 31 \<Longrightarrow> hi \<noteq> 0 \<Longrightarrow>
   0 < unat (f2fs_segment_sectors c) \<Longrightarrow> unat (f2fs_segment_sectors c) < 2 ^ 31 \<Longrightarrow>
   unat hi \<le> fuel + unat cur \<Longrightarrow> yields (json_consecutive_loop fuel J c e lo hi cur root) (\<lambda>_. True)"
proof (induction fuel arbitrary: cur root)
  case 0
  have "\<not> ucast cur < hi - 1"
    using 0 by (simp add: word_less_nat_alt unat_ucast_up unat_minus_one)
  then show ?case by (simp add: json_consecutive_loop.simps)
next
  case (Suc fuel)
  show ?case
  proof (cases "ucast cur < hi - 1")
    case False
    then show ?thesis by (simp add: json_consecutive_loop.simps)
  next
    case True
    let ?s = "f2fs_segment_sectors c" and ?next = "ucast (ucast cur + f2fs_segment_sectors c) :: u32"
    have "unat cur < unat hi"
      using True by (simp add: word_less_nat_alt unat_ucast_up unat_minus_one [OF Suc.prems(4)])
    then have u: "unat (ucast cur + ?s :: u64) = unat cur + unat ?s" "unat cur + unat ?s < 2 ^ 32"
      using Suc.prems(3,6) by (simp_all add: unat_add_mod unat_ucast_up)
    then have "unat ?next = unat cur + unat ?s" by (simp add: unat_ucast_mod)
    then have "unat hi \<le> fuel + unat ?next" using Suc.prems(5,7) by simp
    then have "yields (json_consecutive_loop fuel J c e lo hi ?next root') (\<lambda>_. True)" for root'
      by (intro Suc.IH Suc.prems(1-6))
    with True show ?thesis
      by (subst json_consecutive_loop.simps) (simp add: yields_bind [OF yields_json_single [OF Suc.prems(1,2)]])
  qed
qed

lemma yields_json_consecutive:
  assumes "file_counter_map c \<noteq> None" "fs_info e \<noteq> None" "has_geometry c" "ext_end e < 2 ^ 64"
    "0 < end_seg c e" "end_seg c e \<le> fuel" "end_seg c e < 2 ^ 31"
  shows "yields (json_add_consecutive_segments_extent_info fuel J c e s root) (\<lambda>_. True)"
proof -
  note g = geometry_facts [OF assms(3)]
  let ?hi = "segment_id_of c (phy_blk e + e_len e)"
  have hi: "unat ?hi = end_seg c e"
    by (simp add: g(2) cut_tests(1) [OF assms(3,4)] end_seg_def)
  then have "?hi \<noteq> 0" using assms(5) by auto
  moreover have "unat (f2fs_segment_sectors c) < 2 ^ 31"
    unfolding g(4) seg_blocks_def using assms(3) by (simp add: has_geometry_def set_geometry_def Let_def)
  ultimately show ?thesis
    using yields_json_consecutive_loop [OF assms(1,2), of ?hi fuel "ucast s" J] yields_json_single [OF assms(1,2), of J] assms(6,7) g(4,6)
    unfolding json_add_consecutive_segments_extent_info_def Let_def hi by simp
qed

lemma yields_json_remainder:
  "file_counter_map c \<noteq> None \<Longrightarrow> yields (json_add_remainder_segment_extent_info J c e root) (\<lambda>_. True)"
  unfolding json_add_remainder_segment_extent_info_def Let_def
  by (rule yields_bind [OF yields_json_extent]) simp_all

lemma yields_change_segment:
  assumes "fs_info e \<noteq> None"
  shows "yields (json_change_segment J c e s d) (\<lambda>d'. d_current_zone d' = d_current_zone d)"
proof -
  obtain si where "json_get_segment_info J c e s = Inr si"
    using yields_segment_info [OF assms, of J c s] by (auto simp: yields_def)
  then show ?thesis by (simp add: json_change_segment_def Let_def)
qed

lemma yields_dump_extent:
  fixes J :: "'j json_api"
  assumes "file_counter_map c \<noteq> None" "has_geometry c" "dumpable bound c e" "bound \<le> fuel" "bound < 2 ^ 31"
  shows "yields (json_dump_extent fuel J c e d) (\<lambda>d'. d_current_zone d' = e_zone e)"
proof -
  have e: "fs_info e \<noteq> None" "ext_end e < 2 ^ 64" "end_seg c e \<le> fuel" "end_seg c e < 2 ^ 31"
    using assms(3-5) by (auto simp: dumpable_def in_span_def)
  obtain x where first: "json_get_beginning_segment_extent_info J c e = Inr x"
    using yields_json_beginning [OF assms(1), of J e] by (auto simp: yields_def)
  have "\<exists>zs. has_middle c e \<longrightarrow> json_add_consecutive_segments_extent_info fuel J c e s r = Inr zs" for s r
    using yields_json_consecutive [OF assms(1) e(1) assms(2) e(2) _ e(3,4), of J s r] cut_tests(4) [OF assms(2) e(2)]
    by (auto simp: yields_def)
  then obtain M where middle: "\<And>s r. has_middle c e \<Longrightarrow>
      json_add_consecutive_segments_extent_info fuel J c e s r = Inr (M s r)" by metis
  have "\<exists>xs. json_add_remainder_segment_extent_info J c e r = Inr xs" for r
    using yields_json_remainder [OF assms(1), of J e r] by (auto simp: yields_def)
  then obtain R where final: "\<And>r. json_add_remainder_segment_extent_info J c e r = Inr (R r)" by metis
  have parts: "yields (json_add_extent_parts fuel J c e s d) (\<lambda>d'. d_current_zone d' = d_current_zone d)"
    for s and d :: "'j dump_state"
    by (simp add: json_add_extent_parts_def first middle final)
  let ?s = "segment_id_of c (phy_blk e)"
  obtain y where info: "json_get_extent_info J c e = Inr y"
    using yields_extent_info [OF assms(1), of J e] by (auto simp: yields_def)
  obtain d1 where d1: "json_change_segment J c e ?s (d\<lparr>d_current_zone := e_zone e\<rparr>) = Inr d1" "d_current_zone d1 = e_zone e"
    using yields_change_segment [OF e(1), of J c ?s "d\<lparr>d_current_zone := e_zone e\<rparr>"] by (auto simp: yields_def)
  show ?thesis
    using parts [of ?s d1] by (simp add: json_dump_extent_def Let_def d1 info)
qed

section \<open>Zones\<close>

lemma yields_dump_extents:
  assumes "file_counter_map c \<noteq> None" "has_geometry c" "bound < 2 ^ 31"
  shows "length es + bound \<le> fuel \<Longrightarrow> \<forall>e\<in>set es. dumpable bound c e \<and> e_zone e = z \<Longrightarrow>
    yields (json_dump_extents fuel J c es d) (\<lambda>d'. d_current_zone d' = (if es = [] then d_current_zone d else z))"
proof (induction es arbitrary: fuel d)
  case (Cons e es)
  then obtain n where n: "fuel = Suc n" "length es + bound \<le> n" by (cases fuel) auto
  have e: "dumpable bound c e" "e_zone e = z" using Cons.prems by simp_all
  have r: "\<not> report_end_lba c \<le> start_blk c e" "\<not> start_blk c e < report_start_lba c"
    using e(1) by (auto simp: dumpable_def in_span_def)
  have b: "bound \<le> n" using n(2) by simp
  have "yields (json_dump_extents n J c es d') (\<lambda>d''. d_current_zone d'' = z)" if "d_current_zone d' = z" for d'
    using Cons.IH [OF n(2), of d'] Cons.prems(2) that by (cases "es = []") simp_all
  then have "yields (bind_res (json_dump_extent n J c e d) (json_dump_extents n J c es)) (\<lambda>d''. d_current_zone d'' = z)"
    by (rule yields_bind [OF yields_dump_extent [OF assms(1,2) e(1) b assms(3)]]) (simp add: e(2))
  with r show ?case by (simp add: n(1))
qed simp

lemma yields_json_zone_info: "report_zone k z c = Inr r \<Longrightarrow> yields (json_get_zone_info J k c z) (\<lambda>_. True)"
  by (simp add: json_get_zone_info_def split: option.split)

text \<open>The keys of the document: the numbers of the zones with extents.\<close>

definition zone_keys :: "zone_map \<Rightarrow> nat list \<Rightarrow> string list" where
  "zone_keys m is = map (\<lambda>i. uint32_to_string_cast (of_nat i)) (filter (\<lambda>i. extents (zones m ! i) \<noteq> []) is)"

text \<open>
  The members of the document: for every zone with extents its number, the information on that
  zone, and what the walk over its extents adds to its segments, from the state in which the zone
  before it was left.
\<close>

fun zone_entries :: "nat \<Rightarrow> 'j json_api \<Rightarrow> os \<Rightarrow> control \<Rightarrow> zone_map \<Rightarrow> nat list \<Rightarrow> 'j dump_state
    \<Rightarrow> (string \<times> 'j) list res" where
  "zone_entries fuel J k c m [] d = Inr []"
| "zone_entries fuel J k c m (i # is) d =
     (if extents (zones m ! i) = [] then zone_entries fuel J k c m is d
      else bind_res (json_dump_extents fuel J c (extents (zones m ! i)) (d\<lparr>d_zone_segments := js_object J\<rparr>)) (\<lambda>d.
           bind_res (json_get_zone_info J k c (of_nat i)) (\<lambda>zi.
           bind_res (zone_entries fuel J k c m is d) (\<lambda>rest.
             Inr ((uint32_to_string_cast (of_nat i),
                   js_fields J [(''zone_info'', zi), (''segments'', d_zone_segments d)] (js_object J)) # rest)))))"

definition dump_start :: "'j json_api \<Rightarrow> control \<Rightarrow> 'j dump_state" where
  "dump_start J c = \<lparr>d_current_zone = 0, d_curseg = js_object J, d_curseg_extents = js_array J,
     d_curseg_id = 0, d_zone_segments = js_object J, d_cur_segment = cur_segment c\<rparr>"

lemma zone_entries_keys: "zone_entries fuel J k c m is d = Inr objs \<Longrightarrow> map fst objs = zone_keys m is"
proof (induction "is" arbitrary: d objs)
  case (Cons i "is")
  show ?case
  proof (cases "extents (zones m ! i) = []")
    case True
    with Cons show ?thesis by (simp add: zone_keys_def)
  next
    case False
    with Cons.prems obtain d1 rest v where "zone_entries fuel J k c m is d1 = Inr rest"
      "objs = (uint32_to_string_cast (of_nat i), v) # rest"
      by (auto simp: bind_res_Inr_iff)
    with Cons.IH False show ?thesis by (simp add: zone_keys_def)
  qed
qed (simp add: zone_keys_def)

lemma dump_zones_entries:
  assumes "file_counter_map c \<noteq> None" "has_geometry c" "bound < 2 ^ 31" "zm_inv m"
    "\<forall>z\<in>set (zones m). length (extents z) + bound \<le> fuel" "\<forall>e\<in>#recorded m. dumpable bound c e"
    "\<forall>i<length (zones m). \<exists>r. report_zone k (of_nat i) c = Inr r"
  shows "\<forall>i\<in>set is. i < length (zones m) \<Longrightarrow> \<exists>objs d'. zone_entries fuel J k c m is d = Inr objs \<and>
    json_dump_zones fuel J k c m is (zmap, d) = Inr (js_fields J objs zmap, d')"
proof (induction "is" arbitrary: zmap d)
  case Nil
  then show ?case by (simp add: js_fields_def)
next
  case (Cons i "is")
  then have i: "i < length (zones m)" and rest: "\<forall>i\<in>set is. i < length (zones m)" by simp_all
  let ?z = "zones m ! i"
  have w: "unat (z_extent_ctr ?z) = length (extents ?z)" and "\<forall>e\<in>set (extents ?z). unat (e_zone e) = i"
    using assms(4) i by (auto simp: zm_inv_def zone_wf_def)
  then have z: "\<forall>e\<in>set (extents ?z). e_zone e = of_nat i" by auto
  show ?case
  proof (cases "extents ?z = []")
    case True
    with w have "z_extent_ctr ?z = 0" by (simp add: unsigned_eq_0_iff)
    with Cons.IH [OF rest] i True show ?thesis by simp
  next
    case False
    with w have ctr: "z_extent_ctr ?z \<noteq> 0" by auto
    have f: "length (extents ?z) + bound \<le> fuel" using assms(5) i by simp
    have "\<forall>e\<in>set (extents ?z). dumpable bound c e"
      using assms(6) recorded_member [OF i] by blast
    then obtain d1 where d1: "json_dump_extents fuel J c (extents ?z) (d\<lparr>d_zone_segments := js_object J\<rparr>) = Inr d1"
      "d_current_zone d1 = of_nat i"
      using yields_dump_extents [OF assms(1-3) f, of "of_nat i" J "d\<lparr>d_zone_segments := js_object J\<rparr>"] z False
      by (auto simp: yields_def)
    obtain r where "report_zone k (of_nat i) c = Inr r" using assms(7) i by blast
    then obtain zi where zi: "json_get_zone_info J k c (of_nat i) = Inr zi"
      using yields_json_zone_info [of k "of_nat i" c r J] by (auto simp: yields_def)
    let ?key = "uint32_to_string_cast (of_nat i)"
    let ?v = "js_fields J [(''zone_info'', zi), (''segments'', d_zone_segments d1)] (js_object J)"
    obtain objs d' where o: "zone_entries fuel J k c m is d1 = Inr objs"
      "json_dump_zones fuel J k c m is (js_add J zmap ?key ?v, d1) = Inr (js_fields J objs (js_add J zmap ?key ?v), d')"
      using Cons.IH [OF rest] by blast
    have "js_fields J objs (js_add J zmap ?key ?v) = js_fields J ((?key, ?v) # objs) zmap" by (simp add: js_fields_def)
    with o(2) have o': "json_dump_zones fuel J k c m is (js_add J zmap ?key ?v, d1) =
      Inr (js_fields J ((?key, ?v) # objs) zmap, d')" by simp
    have "zone_entries fuel J k c m (i # is) d = Inr ((?key, ?v) # objs)"
      using False d1(1) zi o(1) by simp
    moreover have "json_dump_zones fuel J k c m (i # is) (zmap, d) = Inr (js_fields J ((?key, ?v) # objs) zmap, d')"
      using i ctr d1 zi o' by (simp add: Let_def)
    ultimately show ?thesis by blast
  qed
qed

lemma dump_extents_spins:
  "start_blk c e < report_start_lba c \<Longrightarrow> start_blk c e < report_end_lba c \<Longrightarrow>
   json_dump_extents fuel J c (e # es) d = Inl OutOfFuel"
  by (induction fuel) simp_all

lemma dump_zones_skip:
  "\<forall>j\<in>set is. j < length (zones m) \<and> z_extent_ctr (zones m ! j) = 0 \<Longrightarrow>
   json_dump_zones fuel J k c m (is @ js) s = json_dump_zones fuel J k c m js s"
proof (induction "is")
  case (Cons i "is")
  then show ?case by (cases s) simp
qed simp

lemma json_dump_yields:
  assumes "ctrl_inv c" "has_geometry c" "fs_magic c = F2FS_MAGIC" "zonemap c = Some m" "recorded m \<noteq> {#}"
    "\<forall>e\<in>#recorded m. dumpable bound c e" "bound < 2 ^ 31"
    "\<forall>z\<in>set (zones m). length (extents z) + bound \<le> fuel"
    "\<forall>i<length (zones m). \<exists>r. report_zone k (of_nat i) c = Inr r" "\<forall>ob. js_to_file J (json_file c) ob \<noteq> 1"
  shows "\<exists>objs c'. json_dump_data fuel J time k c =
      Inr (js_add J (init_json_file J time c) ''zonemap'' (js_fields J objs (js_object J)), c') \<and>
    zone_entries fuel J k c m [0..<length (zones m)] (dump_start J c) = Inr objs \<and>
    map fst objs = zone_keys m [0..<length (zones m)] \<and> zonemap c' = Some m"
proof -
  obtain e where "e \<in># recorded_in c" using assms(4,5) by (auto simp: recorded_in_def)
  then have fc: "file_counter_map c \<noteq> None" using ext_view_recorded [OF assms(1)] by (auto simp: ext_view_def)
  have m: "zm_inv m" using assms(1,4) by (auto simp: ctrl_inv_def)
  then have n: "unat (zm_nr_zones m) = length (zones m)" by (simp add: zm_inv_def)
  have "\<forall>i\<in>set [0..<length (zones m)]. i < length (zones m)" by simp
  from dump_zones_entries [OF fc assms(2,7) m assms(8,6,9) this, of J "dump_start J c" "js_object J"]
  obtain objs d where z: "zone_entries fuel J k c m [0..<length (zones m)] (dump_start J c) = Inr objs"
    "json_dump_zones fuel J k c m [0..<length (zones m)] (js_object J, dump_start J c)
      = Inr (js_fields J objs (js_object J), d)"
    by blast
  then show ?thesis
    using assms(10) zone_entries_keys [OF z(1)]
    by (auto simp: json_dump_data_def json_dump_f2fs_zonemap_def dump_start_def assms(3,4) n EXIT_FAILURE_def)
qed

section \<open>Properties\<close>

text \<open>C18. The JSON dump succeeds when the recorded extents carry segment information and lie in the range
  of zones, and then the document has one member per zone with extents, in the order of the zones
  and under the number of the zone.\<close>

theorem json_dump_returns:
  assumes "ctrl_inv c" "has_geometry c" "fs_magic c = F2FS_MAGIC" "zonemap c = Some m" "recorded m \<noteq> {#}"
    "\<forall>e\<in>#recorded m. dumpable bound c e" "bound < 2 ^ 31"
    "\<forall>z\<in>set (zones m). length (extents z) + bound \<le> fuel"
    "\<forall>i<length (zones m). \<exists>r. report_zone k (of_nat i) c = Inr r" "\<forall>ob. js_to_file J (json_file c) ob \<noteq> 1"
  shows "\<exists>objs c'. json_dump_data fuel J time k c =
      Inr (js_add J (init_json_file J time c) ''zonemap'' (js_fields J objs (js_object J)), c') \<and>
    map fst objs = zone_keys m [0..<length (zones m)] \<and> zonemap c' = Some m"
  using json_dump_yields [OF assms] by blast

text \<open>With an extent in front of the start zone the dump runs forever, like the report.\<close>

lemma json_dump_spins:
  assumes "fs_magic c = F2FS_MAGIC" "zonemap c = Some m" "i < length (zones m)" "i < unat (zm_nr_zones m)"
    "\<forall>j<i. z_extent_ctr (zones m ! j) = 0" "z_extent_ctr (zones m ! i) \<noteq> 0"
    "extents (zones m ! i) = e # es"
    "start_blk c e < report_start_lba c" "start_blk c e < report_end_lba c"
  shows "json_dump_data fuel J time k c = Inl OutOfFuel"
proof -
  have "[0..<unat (zm_nr_zones m)] = [0..<i] @ i # [Suc i..<unat (zm_nr_zones m)]"
    using assms(4) upt_add_eq_append [of 0 i "unat (zm_nr_zones m) - i"] by (simp add: upt_conv_Cons)
  moreover have "\<forall>j\<in>set [0..<i]. j < length (zones m) \<and> z_extent_ctr (zones m ! j) = 0" using assms(3,5) by simp
  ultimately have "json_dump_zones fuel J k c m [0..<unat (zm_nr_zones m)] s = Inl OutOfFuel" for s
    using assms(3,6,7) dump_extents_spins [OF assms(8,9), of fuel J es] by (cases s) (simp add: dump_zones_skip)
  then show ?thesis by (simp add: json_dump_data_def json_dump_f2fs_zonemap_def assms(1,2))
qed

end
