(* ===== verification/Recorded.thy ===== *)
theory Recorded
  imports Extents_Inv
begin

text \<open>
  What else holds of a run of \<open>get_extents\<close>: every recorded extent carries the zone information
  of the device and the segment information of the file system, and of the control structure
  only the collected data, the counters and the output change.
\<close>

section \<open>What a collection may change\<close>

definition settings :: "control \<Rightarrow> control" where
  "settings c = c\<lparr>zonemap := None, file_counter_map := None, nr_files := 0, inlined_extent_ctr := 0,
     stdout := []\<rparr>"

lemma settings_fields:
  "znsdev (settings c) = znsdev c" "bdev (settings c) = bdev c" "zns_sector_shift (settings c) = zns_sector_shift c"
  "sector_shift (settings c) = sector_shift c" "sector_size (settings c) = sector_size c"
  "segment_shift (settings c) = segment_shift c" "f2fs_segment_mask (settings c) = f2fs_segment_mask c"
  "f2fs_segment_sectors (settings c) = f2fs_segment_sectors c" "offset (settings c) = offset c"
  "exclude_flags (settings c) = exclude_flags c" "start_zone (settings c) = start_zone c"
  "end_zone (settings c) = end_zone c" "cur_segment (settings c) = cur_segment c"
  "show_only_stats (settings c) = show_only_stats c" "show_class_stats (settings c) = show_class_stats c"
  "procfs (settings c) = procfs c" "json_dump (settings c) = json_dump c" "fs_magic (settings c) = fs_magic c"
  "fs_info_show (settings c) = fs_info_show c" "fs_info_init (settings c) = fs_info_init c"
  "fs_info_bytes (settings c) = fs_info_bytes c" "fs_manager (settings c) = fs_manager c"
  "show_holes (settings c) = show_holes c" "show_flags (settings c) = show_flags c"
  by (simp_all add: settings_def)

definition collects :: "control \<Rightarrow> control \<Rightarrow> bool" where
  "collects c c' \<longleftrightarrow> settings c' = settings c \<and> (\<exists>ls. stdout c' = stdout c @ ls)"

lemma collects_refl: "collects c c"
  by (simp add: collects_def)

lemma collects_trans: "collects a b \<Longrightarrow> collects b c \<Longrightarrow> collects a c"
  by (auto simp: collects_def)

lemma collects_fields:
  assumes "collects c c'"
  shows "znsdev c' = znsdev c" "zns_sector_shift c' = zns_sector_shift c" "sector_shift c' = sector_shift c"
    "segment_shift c' = segment_shift c" "f2fs_segment_mask c' = f2fs_segment_mask c"
    "start_zone c' = start_zone c" "end_zone c' = end_zone c" "show_only_stats c' = show_only_stats c"
    "show_class_stats c' = show_class_stats c" "json_dump c' = json_dump c" "fs_magic c' = fs_magic c"
    "fs_info_show c' = fs_info_show c" "fs_info_init c' = fs_info_init c" "fs_info_bytes c' = fs_info_bytes c"
    "fs_manager c' = fs_manager c" "f2fs_segment_sectors c' = f2fs_segment_sectors c"
    "sector_size c' = sector_size c"
proof -
  have s: "settings c' = settings c" using assms by (simp add: collects_def)
  note f = arg_cong [OF s]
  show "znsdev c' = znsdev c" "zns_sector_shift c' = zns_sector_shift c" "sector_shift c' = sector_shift c"
    "segment_shift c' = segment_shift c" "f2fs_segment_mask c' = f2fs_segment_mask c"
    "start_zone c' = start_zone c" "end_zone c' = end_zone c" "show_only_stats c' = show_only_stats c"
    "show_class_stats c' = show_class_stats c" "json_dump c' = json_dump c" "fs_magic c' = fs_magic c"
    "fs_info_show c' = fs_info_show c" "fs_info_init c' = fs_info_init c" "fs_info_bytes c' = fs_info_bytes c"
    "fs_manager c' = fs_manager c" "f2fs_segment_sectors c' = f2fs_segment_sectors c"
    "sector_size c' = sector_size c"
    using f [of znsdev] f [of zns_sector_shift] f [of sector_shift] f [of segment_shift]
      f [of f2fs_segment_mask] f [of start_zone] f [of end_zone]
      f [of show_only_stats] f [of show_class_stats] f [of json_dump] f [of fs_magic]
      f [of fs_info_show] f [of fs_info_init] f [of fs_info_bytes] f [of fs_manager]
      f [of f2fs_segment_sectors] f [of sector_size]
    by (simp_all add: settings_fields)
qed

lemma collects_msg: "collects c c' \<Longrightarrow> collects c (msg l c')"
  by (auto simp: collects_def settings_def msg_def)

lemma collects_note: "collects c (extent_note f fe c)"
  by (auto simp: collects_def settings_def extent_note_def info_def msg_def Let_def)

lemma collects_inlined: "collects c c' \<Longrightarrow> collects c (c'\<lparr>inlined_extent_ctr := x\<rparr>)"
  by (simp add: collects_def settings_def)

lemma handle_extent_collects:
  assumes "handle_extent k f fe (n, c) = Inr (n', c')"
  shows "collects c c'"
proof -
  consider (off) "fe_physical fe < offset c"
    | (excl) "\<not> fe_physical fe < offset c" "fe_flags fe AND exclude_flags c \<noteq> 0"
    | (ok) "accepted c fe"
    by (auto simp: accepted_def)
  then show ?thesis
  proof cases
    case off
    with assms show ?thesis
      by (auto simp: handle_extent_def Let_def intro!: collects_note collects_msg collects_inlined split: if_splits)
  next
    case excl
    with assms show ?thesis
      by (auto simp: handle_extent_def Let_def intro!: collects_note collects_msg collects_inlined split: if_splits)
  next
    case ok
    with assms obtain c1 where c1: "record_extent k f fe n c = Inr c1"
      "c' = c1 \<or> c' = c1\<lparr>inlined_extent_ctr := inlined_extent_ctr c1 + 1\<rparr>"
      by (auto simp: handle_extent_def accepted_def bind_res_Inr_iff split: if_splits)
    from c1(1) have "collects c c1" by (rule record_extentE) (simp add: collects_def settings_def)
    with c1(2) show ?thesis using collects_inlined by blast
  qed
qed

lemma handle_all_collects: "handle_all k f es (n, c) = Inr (n', c') \<Longrightarrow> collects c c'"
proof (induction es arbitrary: n c)
  case Nil
  then show ?case by (simp add: collects_refl)
next
  case (Cons e es)
  then obtain n1 c1 where "handle_extent k f e (n, c) = Inr (n1, c1)" "handle_all k f es (n1, c1) = Inr (n', c')"
    by (auto simp: bind_res_Inr_iff)
  with Cons.IH handle_extent_collects collects_trans show ?case by blast
qed

lemma get_extents_collects_only:
  assumes "fiemap_serves k f st 0 es" "st_blocks st \<noteq> 0" "length es \<le> fuel"
    "get_extents fuel k f st c = Inr (r, c')"
  shows "collects c c'"
proof -
  from assms(4) obtain c1 n c2 where h: "grow_file_counters k c = Inr c1"
    "handle_all k f es (0, c1) = Inr (n, c2)" "close_file (n, c2) = Inr (r, c')"
    by (auto simp: get_extents_serves [OF assms(1-3)] bind_res_Inr_iff)
  have "collects c c1"
    using h(1) by (auto simp: grow_file_counters_def collects_def settings_def Let_def split: option.splits if_splits)
  moreover have "collects c1 c2" by (rule handle_all_collects [OF h(2)])
  moreover have "collects c2 c'" using h(3) by (auto simp: close_file_def collects_def settings_def)
  ultimately show ?thesis using collects_trans by blast
qed

section \<open>What recorded extents carry\<close>

definition carries :: "os \<Rightarrow> control \<Rightarrow> bool" where
  "carries k c \<longleftrightarrow> (\<forall>e\<in>#recorded_in c. described k c e)"

lemma collects_described: "collects c c' \<Longrightarrow> described k c' = described k c"
  by (simp add: described_def zone_facts_def segment_facts_def report_zone_def fun_eq_iff collects_fields
      cong: sum.case_cong option.case_cong)

lemma carries_same: "collects c c' \<Longrightarrow> recorded_in c' = recorded_in c \<Longrightarrow> carries k c' = carries k c"
  by (simp add: carries_def collects_described)

lemma handle_extent_carries:
  assumes "handle_extent k f fe (n, c) = Inr (n', c')" "loop_inv g c" "carries k c"
  shows "carries k c'"
  using assms(1)
proof (cases rule: handle_extentE)
  case skip
  then show ?thesis
    using assms(3) carries_same [OF handle_extent_collects [OF assms(1)]] by (simp add: quiet_recorded)
next
  case (rec c1)
  from rec(2) obtain m e fm' where e: "zonemap c = Some m" "unat (e_zone e) < length (zones m)" "described k c e"
    "c1 = c\<lparr>zonemap := Some (zm_add e m), file_counter_map := Some fm'\<rparr>"
    by (rule record_extentE)
  have "zm_inv m" using assms(2) e(1) by (auto simp: loop_inv_def)
  then have "recorded_in c1 = add_mset e (recorded_in c)"
    using e(2) by (simp add: recorded_in_def e(1,4) recorded_zm_add)
  then have "\<forall>x\<in>#recorded_in c'. described k c x"
    using assms(3) e(3) quiet_recorded [OF rec(4)] by (simp add: carries_def)
  then show ?thesis by (simp add: carries_def collects_described [OF handle_extent_collects [OF assms(1)]])
qed

lemma handle_all_carries:
  "handle_all k f es (n, c) = Inr (n', c') \<Longrightarrow> loop_inv (strcpy_n MAX_FILE_LENGTH f) c \<Longrightarrow>
   size (recorded_in c) + length es < 2 ^ 32 \<Longrightarrow> carries k c \<Longrightarrow> carries k c'"
proof (induction es arbitrary: n c)
  case Nil
  then show ?case by simp
next
  case (Cons e es)
  from Cons.prems(1) obtain n1 c1 where h: "handle_extent k f e (n, c) = Inr (n1, c1)"
    "handle_all k f es (n1, c1) = Inr (n', c')"
    by (auto simp: bind_res_Inr_iff)
  have st: "loop_inv (strcpy_n MAX_FILE_LENGTH f) c1 \<and> same_env c c1 \<and> image_mset digest (recorded_in c1) =
      image_mset (fe_digest c f) (mset (filter (accepted c) [e])) + image_mset digest (recorded_in c)"
    using handle_extent_step [OF h(1) Cons.prems(2)] Cons.prems(3) by simp
  have "size (recorded_in c1) \<le> 1 + size (recorded_in c)"
    using arg_cong [OF st [THEN conjunct2, THEN conjunct2], of size] by simp
  with Cons.IH [OF h(2)] st Cons.prems(3) handle_extent_carries [OF h(1) Cons.prems(2,4)]
  show ?case by simp
qed

lemma get_extents_carries:
  assumes "ctrl_inv c" "fiemap_serves k f st 0 es" "st_blocks st \<noteq> 0" "length es \<le> fuel"
    "unat (nr_files c) + 1 < 2 ^ 32" "size (recorded_in c) + length es < 2 ^ 32"
    "get_extents fuel k f st c = Inr (r, c')" "carries k c"
  shows "carries k c'"
proof -
  from assms(7) obtain c1 n c2 where h: "grow_file_counters k c = Inr c1"
    "handle_all k f es (0, c1) = Inr (n, c2)" "close_file (n, c2) = Inr (r, c')"
    by (auto simp: get_extents_serves [OF assms(2-4)] bind_res_Inr_iff)
  note g = grow_file_counters_inv [OF assms(1) h(1) assms(5)]
  have "collects c c1"
    using h(1) by (auto simp: grow_file_counters_def collects_def settings_def Let_def split: option.splits if_splits)
  then have "carries k c1" using assms(8) g(3) by (simp add: carries_same)
  then have "carries k c2"
    using assms(6) by (intro handle_all_carries [OF h(2) g(1)]) (simp_all add: g(3))
  moreover have "c' = c2\<lparr>nr_files := nr_files c2 + 1\<rparr>" using h(3) by (simp add: close_file_def)
  moreover from this have "collects c2 c'" by (simp add: collects_def settings_def)
  ultimately show ?thesis using carries_same [of c2 c'] by (simp add: recorded_in_def)
qed

end
