(* ===== verification/Untallied.thy ===== *)
theory Untallied
  imports Recorded
begin

text \<open>
  The counters of segments, heat and zones stay at zero while extents are collected: the entry a
  new file gets has been cleared by the call of \<open>get_extents\<close> that records its first extent,
  although \<open>realloc\<close> leaves the entries behind it as they come.
\<close>

section \<open>Cleared entries\<close>

definition untouched :: "file_counter \<Rightarrow> bool" where
  "untouched f \<longleftrightarrow> fc_segment_ctr f = 0 \<and> fc_zone_ctr f = 0 \<and> cold_ctr f = 0 \<and> warm_ctr f = 0 \<and> hot_ctr f = 0 \<and>
     last_segment_id f = 0 \<and> fc_last_zone f = 0"

lemma untouched_simps [simp]:
  "untouched zero_file_counter" "untouched (f\<lparr>fc_ext_ctr := n\<rparr>) = untouched f"
  "untouched (f\<lparr>fc_file := g\<rparr>) = untouched f"
  by (simp_all add: untouched_def zero_file_counter_def)

definition untallied :: "control \<Rightarrow> bool" where
  "untallied c \<longleftrightarrow> (\<forall>f\<in>set (active (counters c)). untouched f)"

text \<open>While file \<open>g\<close> is read, the entry it may still get is cleared, too.\<close>

definition entry_ready :: "string \<Rightarrow> control \<Rightarrow> bool" where
  "entry_ready g c \<longleftrightarrow> (\<exists>fm. file_counter_map c = Some fm \<and> (\<forall>f\<in>set (active fm). untouched f) \<and>
     (g \<notin> fcm_keys fm \<longrightarrow> untouched (files fm ! unat (file_ctr fm))))"

lemma entry_ready_untallied: "entry_ready g c \<Longrightarrow> untallied c"
  by (auto simp: entry_ready_def untallied_def counters_def)

lemma entry_ready_cong: "file_counter_map c' = file_counter_map c \<Longrightarrow> entry_ready g c' = entry_ready g c"
  by (simp add: entry_ready_def)

lemma untallied_start: "ctrl_inv c \<Longrightarrow> recorded_in c = {#} \<Longrightarrow> untallied c"
  by (auto simp: ctrl_inv_def files_inv_def recorded_in_def untallied_def fcm_keys_def)

section \<open>Collecting keeps them\<close>

lemma bump_extents_untouched:
  assumes "bump_extents g fm = Inr fm'" "fcm_inv fm" "length g < MAX_FILE_LENGTH"
    "\<forall>f\<in>set (active fm). untouched f" "g \<notin> fcm_keys fm \<longrightarrow> untouched (files fm ! unat (file_ctr fm))"
  shows "\<forall>f\<in>set (active fm'). untouched f" "g \<in> fcm_keys fm'"
proof -
  show "g \<in> fcm_keys fm'" using bump_extents_keys [OF assms(2,3,1)] by simp
  show "\<forall>f\<in>set (active fm'). untouched f"
  proof (cases "index_of (\<lambda>f. fc_file f = g) (active fm)")
    case None
    then have "g \<notin> fcm_keys fm" by (auto simp: index_of_None fcm_keys_def)
    with assms(4,5) bump_extents_new(1) [OF None assms(2,1,3)] show ?thesis by simp
  next
    case (Some i)
    with assms(1,2) obtain f where f: "fm' = fm\<lparr>files := (files fm)[i := f\<lparr>fc_ext_ctr := fc_ext_ctr f + 1\<rparr>]\<rparr>"
      "f = files fm ! i" "i < unat (file_ctr fm)" "i < length (files fm)"
      by (auto elim!: bump_extents_found)
    have "f \<in> set (active fm)" using f by (auto simp: active_def in_set_conv_nth)
    with assms(4) have "untouched (f\<lparr>fc_ext_ctr := fc_ext_ctr f + 1\<rparr>)" by simp
    moreover have "active fm' = (active fm)[i := f\<lparr>fc_ext_ctr := fc_ext_ctr f + 1\<rparr>]"
      using f by (simp add: active_update)
    ultimately show ?thesis using assms(4) set_update_subset_insert by fastforce
  qed
qed

lemma handle_extent_ready:
  assumes "handle_extent k f fe (n, c) = Inr (n', c')" "loop_inv g c" "g = strcpy_n MAX_FILE_LENGTH f"
    "entry_ready g c"
  shows "entry_ready g c'"
  using assms(1)
proof (cases rule: handle_extentE)
  case skip
  then show ?thesis using entry_ready_cong [of c' c] assms(4) by (simp add: quiet_def)
next
  case (rec c1)
  from rec(2) obtain m e fm fm' where e: "file_counter_map c = Some fm" "bump_extents (e_file e) fm = Inr fm'"
    "e_file e = g" "c1 = c\<lparr>zonemap := Some (zm_add e m), file_counter_map := Some fm'\<rparr>"
    unfolding assms(3) by (rule record_extentE)
  have "fcm_inv fm" using assms(2) e(1) by (auto simp: loop_inv_def files_inv_def)
  moreover have "length g < MAX_FILE_LENGTH"
    unfolding assms(3) by (rule length_strcpy_n) (simp add: MAX_FILE_LENGTH_def)
  ultimately have "entry_ready g c1"
    using assms(4) bump_extents_untouched [OF e(2) [unfolded e(3)]] by (auto simp: entry_ready_def e(1,4))
  with rec(4) show ?thesis using entry_ready_cong [of c' c1] by (simp add: quiet_def)
qed

lemma handle_all_ready:
  "handle_all k f es (n, c) = Inr (n', c') \<Longrightarrow> loop_inv (strcpy_n MAX_FILE_LENGTH f) c \<Longrightarrow>
   size (recorded_in c) + length es < 2 ^ 32 \<Longrightarrow> entry_ready (strcpy_n MAX_FILE_LENGTH f) c \<Longrightarrow>
   entry_ready (strcpy_n MAX_FILE_LENGTH f) c'"
proof (induction es arbitrary: n c)
  case Nil
  then show ?case by simp
next
  case (Cons e es)
  from Cons.prems(1) obtain n1 c1 where h: "handle_extent k f e (n, c) = Inr (n1, c1)"
    "handle_all k f es (n1, c1) = Inr (n', c')"
    by (auto simp: bind_res_Inr_iff)
  have st: "loop_inv (strcpy_n MAX_FILE_LENGTH f) c1 \<and> image_mset digest (recorded_in c1) =
      image_mset (fe_digest c f) (mset (filter (accepted c) [e])) + image_mset digest (recorded_in c)"
    using handle_extent_step [OF h(1) Cons.prems(2)] Cons.prems(3) by simp
  have "size (recorded_in c1) \<le> 1 + size (recorded_in c)"
    using arg_cong [OF conjunct2 [OF st], of size] by simp
  with Cons.IH [OF h(2)] st Cons.prems(3) handle_extent_ready [OF h(1) Cons.prems(2) refl Cons.prems(4)]
  show ?case by simp
qed

lemma grow_file_counters_ready:
  assumes "ctrl_inv c" "grow_file_counters k c = Inr c'" "unat (nr_files c) + 1 < 2 ^ 32" "untallied c"
  shows "entry_ready g c'"
proof (cases "file_counter_map c")
  case None
  with assms(2) show ?thesis by (auto simp: grow_file_counters_def entry_ready_def active_def)
next
  case (Some fm)
  let ?n = "unat (nr_files c) + 1"
  let ?fs = "take ?n (files fm @ replicate (?n - length (files fm)) (os_fresh k))"
  let ?fm = "fm\<lparr>files := ?fs[unat (file_ctr fm) := zero_file_counter]\<rparr>"
  have n: "unat (nr_files c + 1) = ?n" using assms(3) by (simp add: unat_add_mod)
  have ctr: "unat (file_ctr fm) < ?n" "unat (file_ctr fm) \<le> length (files fm)"
    using assms(1) by (auto simp: ctrl_inv_def counters_def Some files_inv_def fcm_inv_def)
  have "c' = c\<lparr>file_counter_map := Some ?fm\<rparr>"
    using assms(2) ctr by (simp add: grow_file_counters_def Some Let_def n split: if_splits)
  then have "file_counter_map c' = Some ?fm" by simp
  moreover have "active ?fm = active fm" using ctr(2,1) by (rule active_grow)
  moreover have "files ?fm ! unat (file_ctr ?fm) = zero_file_counter" using ctr by simp
  ultimately show ?thesis using assms(4) by (simp add: entry_ready_def untallied_def counters_def Some)
qed

lemma get_extents_untallied:
  assumes "ctrl_inv c" "fiemap_serves k f st 0 es" "st_blocks st \<noteq> 0" "length es \<le> fuel"
    "unat (nr_files c) + 1 < 2 ^ 32" "size (recorded_in c) + length es < 2 ^ 32"
    "get_extents fuel k f st c = Inr (r, c')" "untallied c"
  shows "untallied c'"
proof -
  from assms(7) obtain c1 n c2 where h: "grow_file_counters k c = Inr c1"
    "handle_all k f es (0, c1) = Inr (n, c2)" "close_file (n, c2) = Inr (r, c')"
    by (auto simp: get_extents_serves [OF assms(2-4)] bind_res_Inr_iff)
  note g = grow_file_counters_inv [OF assms(1) h(1) assms(5)]
  have "entry_ready (strcpy_n MAX_FILE_LENGTH f) c2"
    using assms(6) grow_file_counters_ready [OF assms(1) h(1) assms(5,8)]
    by (intro handle_all_ready [OF h(2) g(1)]) (simp_all add: g(3))
  moreover have "c' = c2\<lparr>nr_files := nr_files c2 + 1\<rparr>" using h(3) by (simp add: close_file_def)
  ultimately show ?thesis using entry_ready_untallied [of _ c2] by (simp add: untallied_def counters_def)
qed

end
