(* ===== verification/Segmap_Tool.thy ===== *)
theory Segmap_Tool
  imports Segmap_Main Json_Total Untallied
begin

text \<open>
  \<open>zns.segmap\<close> from the command line to the report, for a directory on F2FS: the
  initialisation, the walk, the report and the cleanup composed. The pieces that are printed
  are those of the extents the kernel reports for the files of the tree; with \<open>-j\<close> their zones
  are the members of the JSON document.
\<close>

section \<open>The walk, once more\<close>

lemma collect_file_carries:
  assumes "ctrl_inv c" "serves_file k fuel es f" "unat (nr_files c) + 1 < 2 ^ 32"
    "size (recorded_in c) + length (es f) < 2 ^ 32" "collect_file fuel k f c = Inr c'"
  shows "collects c c' \<and> (carries k c \<longrightarrow> carries k c') \<and> (untallied c \<longrightarrow> untallied c')"
proof -
  from assms(2) obtain st where st: "os_open k f" "os_stat k f = Some st" "st_blocks st \<noteq> 0"
    "fiemap_serves k f st 0 (es f)" "length (es f) \<le> fuel"
    by (auto simp: serves_file_def)
  with assms(5) obtain ret where g: "get_extents fuel k f st c = Inr (ret, c')"
    by (auto simp: collect_file_def bind_res_Inr_iff split: if_splits option.splits)
  show ?thesis
    using get_extents_collects_only [OF st(4,3,5) g] get_extents_carries [OF assms(1) st(4,3,5) assms(3,4) g]
      get_extents_untallied [OF assms(1) st(4,3,5) assms(3,4) g]
    by blast
qed

lemma collect_files_carries:
  "ctrl_inv c \<Longrightarrow> \<forall>f\<in>set fs. serves_file k fuel es f \<Longrightarrow> unat (nr_files c) + length fs < 2 ^ 32 \<Longrightarrow>
   size (recorded_in c) + (\<Sum>f\<leftarrow>fs. length (es f)) < 2 ^ 32 \<Longrightarrow> collect_files fuel k fs c = Inr c' \<Longrightarrow>
   collects c c' \<and> (carries k c \<longrightarrow> carries k c') \<and> (untallied c \<longrightarrow> untallied c')"
proof (induction fs arbitrary: c)
  case Nil
  then show ?case by (simp add: collects_refl)
next
  case (Cons f fs)
  from Cons.prems(5) obtain c1 where c1: "collect_file fuel k f c = Inr c1" "collect_files fuel k fs c1 = Inr c'"
    by (auto simp: bind_res_Inr_iff)
  have p: "serves_file k fuel es f" "unat (nr_files c) + 1 < 2 ^ 32" "size (recorded_in c) + length (es f) < 2 ^ 32"
    using Cons.prems(2-4) by simp_all
  note s = collect_file_inv [OF Cons.prems(1) p c1(1)]
  have "unat (nr_files c1) = unat (nr_files c) + 1" using s Cons.prems(3) by (simp add: unat_add_mod)
  moreover have "size (accepted_digests c es f) \<le> length (es f)"
    unfolding accepted_digests_def size_image_mset size_mset by (rule length_filter_le)
  moreover have "size (recorded_in c1) = size (accepted_digests c es f) + size (recorded_in c)"
    using arg_cong [OF s [THEN conjunct2, THEN conjunct2, THEN conjunct2], of size] by simp
  ultimately have "collects c1 c' \<and> (carries k c1 \<longrightarrow> carries k c') \<and> (untallied c1 \<longrightarrow> untallied c')"
    using s Cons.prems(2-4) by (intro Cons.IH [OF _ _ _ _ c1(2)]) simp_all
  with collect_file_carries [OF Cons.prems(1) p c1(1)] show ?case using collects_trans by blast
qed

section \<open>Collected extents can be reported\<close>

text \<open>The zone of a block is one the device describes, with a capacity.\<close>

definition zone_open :: "os \<Rightarrow> control \<Rightarrow> u64 \<Rightarrow> bool" where
  "zone_open k c p \<longleftrightarrow>
     (case get_zone_number c (push_bit (zsh c) p) of
        Inl _ \<Rightarrow> False
      | Inr z \<Rightarrow> (case report_zone k z c of
                    Inr (Some b) \<Rightarrow> drop_bit (zsh c) (bz_capacity b) \<noteq> 0
                  | _ \<Rightarrow> False))"

lemma zone_open_cong:
  "znsdev c' = znsdev c \<Longrightarrow> zns_sector_shift c' = zns_sector_shift c \<Longrightarrow> zone_open k c' p = zone_open k c p"
  by (simp add: zone_open_def get_zone_number_def report_zone_def cong: sum.case_cong option.case_cong)

lemma zone_open_same: "collects c c' \<Longrightarrow> zone_open k c' p = zone_open k c p"
  by (rule zone_open_cong) (simp_all add: collects_fields)

lemma get_zone_number_pos: "get_zone_number c x = Inr z \<Longrightarrow> push_bit (zsh c) (b_zone_size (znsdev c)) \<noteq> 0"
  by (auto simp: get_zone_number_def Let_def split: if_splits)

lemma collected_reportable:
  assumes "ctrl_inv c" "carries k c" "fs_info_bytes c \<noteq> 0" "e \<in># recorded_in c" "zone_open k c (phy_blk e)"
  shows "reportable k c e"
proof -
  have d: "zone_facts k c e" "segment_facts c e"
    using assms(2,4) by (simp_all add: carries_def described_def)
  have z: "get_zone_number c (push_bit (zsh c) (phy_blk e)) = Inr (e_zone e)"
    using assms(1,4) by (auto simp: ctrl_inv_def placed_def recorded_in_def)
  with assms(5) obtain b where b: "report_zone k (e_zone e) c = Inr (Some b)" "drop_bit (zsh c) (bz_capacity b) \<noteq> 0"
    by (auto simp: zone_open_def split: sum.splits option.splits)
  from d(1) b have "zone_cap e \<noteq> 0" by (simp add: zone_facts_def)
  moreover have "fs_info e \<noteq> None" using d(2) assms(3) by (auto simp: segment_facts_def word_neq_0_conv)
  ultimately show ?thesis using assms(4) b(1) get_zone_number_pos [OF z] by (auto simp: reportable_def)
qed

section \<open>What the initialisation leaves alone\<close>

definition run_options :: "control \<Rightarrow> u64 \<times> bool \<times> bool \<times> u32 \<times> u32" where
  "run_options c = (fs_magic c, show_only_stats c, json_dump c, start_zone c, end_zone c)"

lemma run_options_print [simp]:
  "run_options (msg l c) = run_options c" "run_options (info n t a c) = run_options c"
  by (simp_all add: run_options_def msg_def info_def)

lemma run_options_dev [simp]:
  "run_options (c\<lparr>znsdev := b\<rparr>) = run_options c" "run_options (c\<lparr>bdev := b\<rparr>) = run_options c"
  "run_options (c\<lparr>sector_size := z\<rparr>) = run_options c" "run_options (c\<lparr>segment_shift := z\<rparr>) = run_options c"
  "run_options (c\<lparr>zns_sector_shift := z\<rparr>) = run_options c" "run_options (c\<lparr>multi_dev := q\<rparr>) = run_options c"
  "run_options (c\<lparr>offset := x\<rparr>) = run_options c" "run_options (set_geometry c) = run_options c"
  "run_options (set_zone_sizes k c) = run_options c"
  by (simp_all add: run_options_def set_geometry_def set_zone_sizes_def Let_def)

lemma is_zoned_options: "is_zoned k p c = Inr (z, c') \<Longrightarrow> run_options c' = run_options c"
  by (auto simp: is_zoned_def split: if_splits option.splits)

lemma get_sector_size_options: "get_sector_size k p c = Inr (z, c') \<Longrightarrow> run_options c' = run_options c"
  by (auto simp: get_sector_size_def Let_def split: if_splits option.splits)

lemma init_zone_map_options: "init_zone_map k c = Inr c' \<Longrightarrow> run_options c' = run_options c"
  by (auto simp: init_zone_map_def run_options_def Let_def split: if_splits option.splits)

lemma init_znsdev_options: "init_znsdev k c = Inr (r, c') \<Longrightarrow> run_options c' = run_options c"
  by (auto simp: init_znsdev_def Let_def bind_res_Inr_iff split: if_splits
      dest!: is_zoned_options get_sector_size_options init_zone_map_options)

lemma show_sb_devs_options: "run_options (show_sb_devs is sb c) = run_options c"
  by (induction "is" arbitrary: c) simp_all

lemma set_super_block_info_options: "set_super_block_info k sb c = Inr c' \<Longrightarrow> run_options c' = run_options c"
  by (auto simp: set_super_block_info_def Let_def bind_res_Inr_iff show_sb_devs_options split: if_splits
      dest!: is_zoned_options get_sector_size_options init_znsdev_options)

lemma init_dev_options: "init_dev k st c = Inr c' \<Longrightarrow> run_options c' = run_options c"
  by (auto simp: init_dev_def Let_def split: if_splits option.splits)

lemma init_f2fs_ctrl_options: "init_f2fs_ctrl k st l c = Inr (l', c') \<Longrightarrow> run_options c' = run_options c"
  by (auto simp: init_f2fs_ctrl_def Let_def bind_res_Inr_iff dest!: init_dev_options set_super_block_info_options)

lemma run_options_fold_msg: "run_options (fold msg ls c) = run_options c"
  by (induction ls arbitrary: c) simp_all

lemma check_dir_f2fs:
  assumes "check_dir_init_ctrl k l (sm, c) = Inr (l', sm', c')" "os_statfs k (sm_dir sm) = Some F2FS_MAGIC"
  shows "run_options c' = (F2FS_MAGIC, show_only_stats c, json_dump c, start_zone c, end_zone c) \<and>
    fs_info_bytes c' = get_fs_info_bytes \<and> fs_info_show c' = Some f2fs_show_segment \<and>
    sm_dir sm' = sm_dir sm \<and> sm_ctr sm' = sm_ctr sm"
proof -
  from assms(1) obtain st where st: "os_stat k (sm_dir sm) = Some st"
    by (auto simp: check_dir_init_ctrl_def split: option.splits)
  let ?c = "info 1 (if st_isdir st then ''is a directory'' else ''is a file'') [S (sm_dir sm)] c"
  from assms st obtain l2 c2 mgr ls where s:
    "init_f2fs_ctrl k st l (?c\<lparr>fs_magic := F2FS_MAGIC\<rparr>) = Inr (l2, c2)"
    "c' = (fold msg ls c2)\<lparr>fs_manager := mgr, fs_info_init := Some fs_info_initialize,
       fs_info_show := Some f2fs_show_segment, fs_info_bytes := get_fs_info_bytes\<rparr>"
    "sm' = (if st_isdir st then sm\<lparr>sm_isdir := True\<rparr> else sm)"
    by (auto simp: check_dir_init_ctrl_def sm_dir_isdir Let_def bind_res_Inr_iff set_fs_magic_def split: if_splits)
  have "run_options c' = run_options c2"
    using run_options_fold_msg [of ls c2] by (simp add: s(2) run_options_def)
  also have "\<dots> = run_options (?c\<lparr>fs_magic := F2FS_MAGIC\<rparr>)" by (rule init_f2fs_ctrl_options [OF s(1)])
  also have "\<dots> = (F2FS_MAGIC, show_only_stats c, json_dump c, start_zone c, end_zone c)"
    by (simp add: run_options_def info_def msg_def)
  finally show ?thesis by (simp add: s(2,3))
qed

text \<open>The options and the flags start no collection.\<close>

lemma segmap_options_start:
  "segmap_options os (f, sm, c) = Inr (f', sm', c') \<Longrightarrow> unused c \<Longrightarrow> unused c' \<and> sm_ctr sm' = sm_ctr sm"
proof (induction os "(f, sm, c)" arbitrary: f sm c rule: segmap_options.induct)
  case (1 f sm c)
  then show ?case by simp
next
  case (2 o' arg rest f sm c)
  from "2.prems"(1) obtain f1 sm1 c1 where s: "segmap_option o' arg (f, sm, c) = Inr (f1, sm1, c1)"
    "segmap_options rest (f1, sm1, c1) = Inr (f', sm', c')"
    by (auto simp: bind_res_Inr_iff)
  from s(1) "2.prems"(2) have "unused c1 \<and> sm_ctr sm1 = sm_ctr sm"
    by (auto simp: segmap_option_def unused_def split: if_splits)
  with "2.hyps" [OF s(1)] s(2) show ?case by simp
qed

lemma check_flags_start: "check_flags f c = Inr c' \<Longrightarrow> unused c \<Longrightarrow> unused c'"
  by (auto simp: check_flags_def unused_def split: if_splits)

section \<open>The range of zones\<close>

text \<open>The last zone of the report: that of \<open>-e\<close>, by default the last one of the device.\<close>

definition last_zone :: "control \<Rightarrow> control \<Rightarrow> u32" where
  "last_zone c1 c2 = (if end_zone c1 = 0 then b_nr_zones (znsdev c2) else end_zone c1)"

definition range_blocks :: "control \<Rightarrow> control \<Rightarrow> nat" where
  "range_blocks c1 c2 = unat (last_zone c1 c2) * unat (b_zone_size (znsdev c2))"

lemma default_zones_end:
  "end_zone c2 = end_zone c1 \<Longrightarrow> \<not> set_zone f \<Longrightarrow> end_zone (default_zones f c2) = last_zone c1 c2"
  by (simp add: default_zones_def last_zone_def Let_def)

lemma report_end_blocks:
  assumes "unat (end_zone c) + 1 < 2 ^ 32" "unat (end_zone c) * unat (b_zone_size (znsdev c)) < 2 ^ 64"
  shows "unat (report_end_lba c) = unat (end_zone c) * unat (b_zone_size (znsdev c))"
proof -
  let ?z = "b_zone_size (znsdev c)"
  have "unat (end_zone c + 1) = unat (end_zone c) + 1" using assms(1) by (simp add: unat_add_mod)
  then have "(ucast (end_zone c + 1) :: u64) = ucast (end_zone c) + 1"
    using assms(1) by (simp add: word_unat_eq_iff unat_add_mod unat_ucast_up)
  then have "report_end_lba c = ucast (end_zone c) * ?z" by (simp add: report_end_lba_def algebra_simps)
  then show ?thesis using assms(2) by (simp add: unat_word_ariths unat_ucast_up)
qed

text \<open>The list of a zone is in the order of the segments, so the report stops behind the last extent in range.\<close>

lemma takeWhile_sorted:
  "sorted (map h xs) \<Longrightarrow> takeWhile (\<lambda>x. h x < (b :: 'a :: linorder)) xs = filter (\<lambda>x. h x < b) xs"
proof (induction xs)
  case (Cons x xs)
  have "filter (\<lambda>y. h y < b) xs = []" if "\<not> h x < b"
    using Cons.prems that by (auto simp: filter_empty_conv not_less intro: order_trans)
  with Cons show ?case by simp
qed simp

lemma start_blk_unat: "has_geometry c \<Longrightarrow> unat (start_blk c e) = unat (phy_blk e) div seg_blocks c * seg_blocks c"
  by (simp add: start_blk_def geometry_facts)

lemma zone_pieces_in_range:
  assumes "has_geometry c" "zone_wf z"
  shows "zone_pieces c z = concat (map (lines_of c) (filter (\<lambda>e. unat (start_blk c e) < unat (report_end_lba c)) (extents z)))"
proof -
  have "sorted (map (\<lambda>e. unat (phy_blk e)) (extents z))"
    using assms(2) by (simp add: zone_wf_def sorted_map word_le_nat_alt)
  then have "sorted (map (\<lambda>e. unat (start_blk c e)) (extents z))"
    by (simp add: start_blk_unat [OF assms(1)] sorted_map) (auto elim!: sorted_wrt_mono_rel [rotated] intro: div_le_mono)
  from takeWhile_sorted [OF this] show ?thesis by (simp add: zone_pieces_def word_less_nat_alt)
qed

section \<open>The whole tool\<close>

lemma default_zones_facts:
  "zonemap (default_zones f c) = zonemap c" "file_counter_map (default_zones f c) = file_counter_map c"
  "nr_files (default_zones f c) = nr_files c" "znsdev (default_zones f c) = znsdev c"
  "zns_sector_shift (default_zones f c) = zns_sector_shift c" "fs_info_bytes (default_zones f c) = fs_info_bytes c"
  "fs_info_show (default_zones f c) = fs_info_show c" "fs_magic (default_zones f c) = fs_magic c"
  "show_only_stats (default_zones f c) = show_only_stats c" "json_dump (default_zones f c) = json_dump c"
  by (simp_all add: default_zones_def Let_def)

lemma default_zones_start:
  "start_zone c = 0 \<Longrightarrow> \<not> set_zone f \<Longrightarrow> start_zone (default_zones f c) = 1"
  by (simp add: default_zones_def Let_def)

lemma report_start_first: "start_zone c = 1 \<Longrightarrow> report_start_lba c = 0"
  by (simp add: report_start_lba_def)

lemma recorded_zone_length: "z \<in> set (zones m) \<Longrightarrow> length (extents z) \<le> size (recorded m)"
  by (metis in_set_conv_nth zone_wf_size)

lemma segmap_main_steps:
  assumes "segmap_options (getopt segmap_optstring args) (no_flags, zero_segmap_manager, zero_control\<lparr>exclude_flags :=
      FIEMAP_EXTENT_DATA_INLINE, show_holes := True, argv0 := prog\<rparr>) = Inr (f, sm, c0)"
    "check_flags f c0 = Inr c1" "check_dir_init_ctrl k zero_f2fs_lib (sm, c1) = Inr (l, sm', c2)"
    "sm_isdir sm'" "collect_extents fuel k (sm_dir sm') ds (default_zones f c2) = Inr c4"
    "zonemap c4 = Some m" "zm_extent_ctr m \<noteq> 0"
    "segmap_report fuel J time k sm' c4 = Inr (j, sm'', c5)" "zonemap c5 = Some m"
  shows "\<exists>c'. segmap_main fuel J time k ds prog args = Inr (j, sm'', c') \<and> stdout c' = stdout c5"
proof -
  have "\<exists>c'. segmap_cleanup c5 = Inr c' \<and> stdout c' = stdout c5"
    using assms(9) by (simp add: segmap_cleanup_def cleanup_ctrl_def)
  then obtain c' where c': "segmap_cleanup c5 = Inr c'" "stdout c' = stdout c5" by blast
  show ?thesis
    by (simp add: segmap_main_def assms(1-3) collect_all_def assms(4-8) c')
qed

text \<open>The state the walk starts from and what it leaves behind.\<close>

lemma default_zones_fresh:
  assumes "fresh_inv c"
  shows "fresh_inv (default_zones f c)"
  using assms by (rule fresh_inv_cong) (simp_all add: default_zones_def Let_def)

lemma default_zones_same:
  "accepted (default_zones f c) = accepted c" "accepted_digests (default_zones f c) es = accepted_digests c es"
  "recordable k (default_zones f c) n p = recordable k c n p"
  "fe_block (default_zones f c) fe = fe_block c fe"
  "nr_map_zones (default_zones f c) = nr_map_zones c" "zone_open k (default_zones f c) p = zone_open k c p"
proof -
  have "same_setting c (default_zones f c)"
    by (simp add: same_setting_def same_env_def nr_map_zones_def default_zones_def Let_def)
  note s = same_setting_facts [OF this]
  show "accepted (default_zones f c) = accepted c" "nr_map_zones (default_zones f c) = nr_map_zones c"
    by (rule s)+
  show "recordable k (default_zones f c) n p = recordable k c n p"
    by (simp add: recordable_def has_fs_info_def get_zone_number_def report_zone_def default_zones_def Let_def)
  show "accepted_digests (default_zones f c) es = accepted_digests c es"
    by (simp add: accepted_digests_def fun_eq_iff s(1,2))
  show "fe_block (default_zones f c) fe = fe_block c fe" by (simp add: fe_block_def default_zones_def Let_def)
  show "zone_open k (default_zones f c) p = zone_open k c p"
    by (rule zone_open_cong) (simp_all add: default_zones_facts)
qed

text \<open>What the walk leaves behind: extents the report can print.\<close>

lemma carries_none: "recorded_in c = {#} \<Longrightarrow> carries k c"
  by (simp add: carries_def)

lemma size_sum_mset_list: "size (\<Sum>x\<leftarrow>xs. h x) = (\<Sum>x\<leftarrow>xs. size (h x :: 'a multiset))"
  by (induction xs) simp_all

lemma in_sum_list_mset: "x \<in># (\<Sum>y\<leftarrow>ys. h y) \<longleftrightarrow> (\<exists>y\<in>set ys. x \<in># h y)"
  by (induction ys) auto

lemma recorded_from_file:
  assumes "image_mset digest (recorded m) = (\<Sum>g\<leftarrow>fs. accepted_digests c es g)" "e \<in># recorded m"
  obtains g fe where "g \<in> set fs" "fe \<in> set (es g)" "accepted c fe" "digest e = fe_digest c g fe"
proof -
  have "digest e \<in># (\<Sum>g\<leftarrow>fs. accepted_digests c es g)" using assms(2) by (simp flip: assms(1))
  then obtain g where "g \<in> set fs" "digest e \<in># accepted_digests c es g" by (auto simp: in_sum_list_mset)
  then show ?thesis using that by (auto simp: accepted_digests_def)
qed

lemma collect_files_reportable:
  assumes "ctrl_inv c" "recorded_in c = {#}" "nr_files c = 0" "fs_info_bytes c \<noteq> 0"
    "\<forall>g\<in>set fs. serves_file k fuel es g" "length fs < 2 ^ 32" "(\<Sum>g\<leftarrow>fs. length (es g)) < 2 ^ 32"
    "\<forall>g\<in>set fs. \<forall>fe\<in>set (es g). accepted c fe \<longrightarrow>
       recordable k c (nr_map_zones c) (fe_block c fe) \<and> zone_open k c (fe_block c fe)"
    "fs \<noteq> []" "accepted_digests c es (hd fs) \<noteq> {#}"
  shows "\<exists>c4 m. collect_files fuel k fs c = Inr c4 \<and> collects c c4 \<and> same_setting c c4 \<and>
    zonemap c4 = Some m \<and> ctrl_inv c4 \<and> image_mset digest (recorded m) = (\<Sum>g\<leftarrow>fs. accepted_digests c es g) \<and>
    (\<forall>e\<in>#recorded m. reportable k c4 e) \<and> zm_extent_ctr m \<noteq> 0 \<and> recorded m \<noteq> {#} \<and>
    size (recorded m) \<le> (\<Sum>g\<leftarrow>fs. length (es g)) \<and> untallied c4 \<and> nr_files c4 = of_nat (length fs)"
proof -
  have p: "unat (nr_files c) + length fs < 2 ^ 32" "size (recorded_in c) + (\<Sum>g\<leftarrow>fs. length (es g)) < 2 ^ 32"
    using assms(2,3,6,7) by simp_all
  have rec: "\<forall>g\<in>set fs. \<forall>fe\<in>set (es g). accepted c fe \<longrightarrow> recordable k c (nr_map_zones c) (fe_block c fe)"
    using assms(8) by blast
  obtain c4 where c4: "collect_files fuel k fs c = Inr c4"
    using collect_files_returns [OF assms(1,5) p rec] assms(10) by blast
  note i = collect_files_inv [OF assms(1,5) p c4]
  note q = collect_files_carries [OF assms(1,5) p c4]
  from i obtain m where m: "zonemap c4 = Some m" by (auto simp: ctrl_inv_def)
  have r: "recorded_in c4 = recorded m" by (simp add: recorded_in_def m)
  have d: "image_mset digest (recorded m) = (\<Sum>g\<leftarrow>fs. accepted_digests c es g)"
    using i assms(2) by (simp add: r)
  have "(\<Sum>g\<leftarrow>fs. size (accepted_digests c es g)) \<le> (\<Sum>g\<leftarrow>fs. length (es g))"
    unfolding accepted_digests_def size_image_mset size_mset by (rule sum_list_mono) (rule length_filter_le)
  moreover have "size (recorded m) = (\<Sum>g\<leftarrow>fs. size (accepted_digests c es g))"
    using arg_cong [OF d, of size] by (simp add: size_sum_mset_list)
  ultimately have sz: "size (recorded m) \<le> (\<Sum>g\<leftarrow>fs. length (es g))" by simp
  have ne: "recorded m \<noteq> {#}"
    using d assms(9,10) by (cases fs) auto
  have rp: "\<forall>e\<in>#recorded m. reportable k c4 e"
  proof
    fix e assume e: "e \<in># recorded m"
    from recorded_from_file [OF d this] obtain g fe where g: "g \<in> set fs" and
      fe: "fe \<in> set (es g)" "accepted c fe" "digest e = fe_digest c g fe" .
    have "phy_blk e = fe_block c fe"
      using fe(3) by (simp add: digest_def fe_digest_def fill_extent_def fe_block_def)
    with assms(8) g fe(1,2) have "zone_open k c (phy_blk e)" by simp
    then have "zone_open k c4 (phy_blk e)" using q zone_open_same by blast
    moreover have "fs_info_bytes c4 \<noteq> 0" using q collects_fields(14) [of c c4] assms(4) by simp
    ultimately show "reportable k c4 e"
      using i q e carries_none [OF assms(2)] by (intro collected_reportable) (simp_all add: r)
  qed
  have "zm_extent_ctr m \<noteq> 0"
    using ctrl_inv_count [of c4] i sz assms(7) m ne by (auto simp: r)
  moreover have "untallied c4" "nr_files c4 = of_nat (length fs)"
    using q untallied_start [OF assms(1,2)] i assms(3) by simp_all
  ultimately show ?thesis using c4 q m i d rp ne sz by blast
qed

text \<open>The state in which the report begins.\<close>

definition report_state :: "os \<Rightarrow> segmap_flags \<Rightarrow> control \<Rightarrow> control \<Rightarrow> control \<Rightarrow> bool" where
  "report_state k f c1 c2 c4 \<longleftrightarrow> collects (default_zones f c2) c4 \<and> same_setting (default_zones f c2) c4 \<and>
     ctrl_inv c4 \<and> has_geometry c4 \<and> fs_magic c4 = F2FS_MAGIC \<and> fs_info_show c4 = Some f2fs_show_segment \<and>
     json_dump c4 = json_dump c1 \<and> show_only_stats c4 = show_only_stats c1 \<and> start_zone c4 = 1 \<and>
     (\<forall>e\<in>#recorded_in c4. reportable k c4 e) \<and> untallied c4 \<and>
     end_zone c4 = last_zone c1 c2 \<and> znsdev c4 = znsdev c2"

lemma segmap_main_collects:
  fixes fuel :: nat and sm :: segmap_manager and ds :: "dirent list"
  defines "fs \<equiv> tree_files (sm_dir sm) ds"
  assumes "segmap_options (getopt segmap_optstring args) (no_flags, zero_segmap_manager, zero_control\<lparr>exclude_flags :=
      FIEMAP_EXTENT_DATA_INLINE, show_holes := True, argv0 := prog\<rparr>) = Inr (f, sm, c0)"
    "check_flags f c0 = Inr c1" "start_zone c1 = 0" "\<not> set_zone f"
    "check_dir_init_ctrl k zero_f2fs_lib (sm, c1) = Inr (l, sm', c2)"
    "os_statfs k (sm_dir sm) = Some F2FS_MAGIC" "readable ds"
    "\<forall>g\<in>set fs. serves_file k fuel es g" "length fs < 2 ^ 32" "(\<Sum>g\<leftarrow>fs. length (es g)) < 2 ^ 32"
    "\<forall>g\<in>set fs. \<forall>fe\<in>set (es g). accepted c2 fe \<longrightarrow>
       recordable k c2 (nr_map_zones c2) (fe_block c2 fe) \<and> zone_open k c2 (fe_block c2 fe)"
    "fs \<noteq> []" "accepted_digests c2 es (hd fs) \<noteq> {#}"
  shows "\<exists>c4 m. report_state k f c1 c2 c4 \<and> zonemap c4 = Some m \<and> sm_ctr sm' = 0 \<and>
    image_mset digest (recorded m) = (\<Sum>g\<leftarrow>fs. accepted_digests c2 es g) \<and>
    zm_extent_ctr m \<noteq> 0 \<and> recorded m \<noteq> {#} \<and> size (recorded m) \<le> (\<Sum>g\<leftarrow>fs. length (es g)) \<and>
    collect_extents fuel k (sm_dir sm') (Some ds) (default_zones f c2) = Inr c4 \<and> nr_files c4 = of_nat (length fs)"
proof -
  define c3 where "c3 = default_zones f c2"
  note same = default_zones_same [where f = f and c = c2, folded c3_def]
  note o = check_dir_f2fs [OF assms(6,7)]
  have "unused (zero_control\<lparr>exclude_flags := FIEMAP_EXTENT_DATA_INLINE, show_holes := True, argv0 := prog\<rparr>)"
    by (simp add: unused_def zero_control_def)
  from segmap_options_start [OF assms(2) this] check_flags_start [OF assms(3)]
  have u: "unused c1" "sm_ctr sm' = 0" using o by (simp_all add: zero_segmap_manager_def)
  have "fs_magic c2 = F2FS_MAGIC" using o by (simp add: run_options_def)
  then have fresh: "fresh_inv c3" using check_dir_fresh [OF assms(6) u(1)] by (simp add: c3_def default_zones_fresh)
  then have fr: "ctrl_inv c3" "recorded_in c3 = {#}" "nr_files c3 = 0" "has_geometry c3" by (simp_all add: fresh_inv_def)
  have set3: "fs_info_bytes c3 \<noteq> 0" "fs_magic c3 = F2FS_MAGIC" "json_dump c3 = json_dump c1"
    "show_only_stats c3 = show_only_stats c1" "fs_info_show c3 = Some f2fs_show_segment" "start_zone c3 = 1"
    using o assms(4,5) default_zones_start [of c2 f]
    by (simp_all add: c3_def default_zones_facts run_options_def get_fs_info_bytes_def)
  obtain c4 m where c4: "collect_files fuel k fs c3 = Inr c4" "collects c3 c4" "same_setting c3 c4"
    "zonemap c4 = Some m" "ctrl_inv c4"
    "image_mset digest (recorded m) = (\<Sum>g\<leftarrow>fs. accepted_digests c2 es g)"
    "\<forall>e\<in>#recorded m. reportable k c4 e" "zm_extent_ctr m \<noteq> 0" "recorded m \<noteq> {#}"
    "size (recorded m) \<le> (\<Sum>g\<leftarrow>fs. length (es g))" "untallied c4" "nr_files c4 = of_nat (length fs)"
    using collect_files_reportable [OF fr(1-3) set3(1) assms(9-11), unfolded same] assms(12-14) by blast
  note f4 = collects_fields [OF c4(2)]
  have "has_geometry c4" using fr(4) by (simp add: has_geometry_def set_geometry_def Let_def f4)
  moreover have "end_zone c4 = last_zone c1 c2 \<and> znsdev c4 = znsdev c2"
    using o f4 default_zones_end [of c2 c1 f] assms(5) by (simp add: run_options_def c3_def default_zones_facts)
  ultimately have "report_state k f c1 c2 c4"
    using c4 f4 set3 by (simp add: report_state_def recorded_in_def c3_def)
  moreover have "collect_extents fuel k (sm_dir sm') (Some ds) c3 = Inr c4"
    using c4(1) o by (simp add: collect_extents_def collect_entries_files [OF assms(8)] fs_def)
  ultimately show ?thesis using c4 u(2) unfolding c3_def by blast
qed

text \<open>The extents of a zone in the range, and the extents of all files below the end of the range.\<close>

definition zone_lines :: "control \<Rightarrow> nat \<Rightarrow> zone \<Rightarrow> (piece \<times> string \<times> u32 \<times> u32) list" where
  "zone_lines c n z = concat (map (lines_of c) (filter (\<lambda>e. unat (start_blk c e) < n) (extents z)))"

definition all_below :: "control \<Rightarrow> nat \<Rightarrow> (string \<Rightarrow> fiemap_extent list) \<Rightarrow> string list \<Rightarrow> bool" where
  "all_below c n es fs \<longleftrightarrow> (\<forall>g\<in>set fs. \<forall>fe\<in>set (es g). accepted c fe \<longrightarrow> unat (fe_block c fe) < n)"

lemma all_below_lines:
  assumes "all_below c n es fs" "image_mset digest (recorded m) = (\<Sum>g\<leftarrow>fs. accepted_digests c es g)"
    "has_geometry c4" "z \<in> set (zones m)"
  shows "zone_lines c4 n z = concat (map (lines_of c4) (extents z))"
proof -
  have "unat (start_blk c4 e) < n" if e: "e \<in> set (extents z)" for e
  proof -
    from assms(4) e have "e \<in># recorded m" using recorded_member by (metis in_set_conv_nth)
    from recorded_from_file [OF assms(2) this] obtain g fe where g: "g \<in> set fs" and
      fe: "fe \<in> set (es g)" "accepted c fe" "digest e = fe_digest c g fe" .
    have "phy_blk e = fe_block c fe"
      using fe(3) by (simp add: digest_def fe_digest_def fill_extent_def fe_block_def)
    then have "unat (phy_blk e) < n" using assms(1) g fe(1,2) by (auto simp: all_below_def)
    then show ?thesis
      using start_blk_unat [OF assms(3), of e] div_times_less_eq_dividend [of "unat (phy_blk e)" "seg_blocks c4"] by linarith
  qed
  then show ?thesis by (simp add: zone_lines_def)
qed

text \<open>C2. \<open>zns.segmap\<close> from the command line to the report, for a directory on F2FS, without \<open>-s\<close>, \<open>-z\<close>, \<open>-o\<close> and \<open>-j\<close>: when
  the tree can be read, the kernel describes every file, the zones of its extents have a capacity
  and the first file has an extent on the zoned device, the tool succeeds. The extents it reports on are
  exactly those of the files of the tree, as the walk records them; it prints, zone by zone and in the order of
  the addresses, exactly the pieces of those that begin in a segment in front of the end of the
  range: the end zone given with \<open>-e\<close>, by default all zones of the device. When all extents
  are below this end, it prints the pieces of all of them.\<close>

theorem segmap_main_prints:
  fixes fuel :: nat and J :: "'j json_api" and sm :: segmap_manager and ds :: "dirent list"
  defines "fs \<equiv> tree_files (sm_dir sm) ds"
  assumes "segmap_options (getopt segmap_optstring args) (no_flags, zero_segmap_manager, zero_control\<lparr>exclude_flags :=
      FIEMAP_EXTENT_DATA_INLINE, show_holes := True, argv0 := prog\<rparr>) = Inr (f, sm, c0)"
    "check_flags f c0 = Inr c1" "\<not> json_dump c1" "\<not> show_only_stats c1" "start_zone c1 = 0" "\<not> set_zone f"
    "check_dir_init_ctrl k zero_f2fs_lib (sm, c1) = Inr (l, sm', c2)"
    "os_statfs k (sm_dir sm) = Some F2FS_MAGIC" "sm_isdir sm'" "readable ds"
    "\<forall>g\<in>set fs. serves_file k fuel es g" "length fs < 2 ^ 32"
    "(\<Sum>g\<leftarrow>fs. length (es g)) < 2 ^ 32" "(\<Sum>g\<leftarrow>fs. length (es g)) \<le> fuel"
    "\<forall>g\<in>set fs. \<forall>fe\<in>set (es g). accepted c2 fe \<longrightarrow>
       recordable k c2 (nr_map_zones c2) (fe_block c2 fe) \<and> zone_open k c2 (fe_block c2 fe)"
    "fs \<noteq> []" "accepted_digests c2 es (hd fs) \<noteq> {#}"
    "unat (last_zone c1 c2) + 1 < 2 ^ 32" "range_blocks c1 c2 < 2 ^ 64"
  shows "\<exists>c4 m sm'' c' ls. collects (default_zones f c2) c4 \<and> zonemap c4 = Some m \<and>
    collect_extents fuel k (sm_dir sm') (Some ds) (default_zones f c2) = Inr c4 \<and>
    image_mset digest (recorded m) = (\<Sum>g\<leftarrow>fs. accepted_digests c2 es g) \<and>
    segmap_main fuel J time k (Some ds) prog args = Inr (None, sm'', c') \<and>
    stdout c' = stdout c4 @ ls \<and>
    piece_lines ls = concat (map (zone_lines c4 (range_blocks c1 c2)) (zones m)) \<and>
    (all_below c2 (range_blocks c1 c2) es fs \<longrightarrow>
       piece_lines ls = concat (map (\<lambda>z. concat (map (lines_of c4) (extents z))) (zones m)))"
proof -
  obtain c4 m where c4: "report_state k f c1 c2 c4" "zonemap c4 = Some m" "sm_ctr sm' = 0"
    "image_mset digest (recorded m) = (\<Sum>g\<leftarrow>fs. accepted_digests c2 es g)"
    "zm_extent_ctr m \<noteq> 0" "recorded m \<noteq> {#}" "size (recorded m) \<le> (\<Sum>g\<leftarrow>fs. length (es g))"
    "collect_extents fuel k (sm_dir sm') (Some ds) (default_zones f c2) = Inr c4"
    using segmap_main_collects [OF assms(2,3,6,7,8,9,11), folded fs_def, OF assms(12-14,16-18)] by blast
  note st = c4(1) [unfolded report_state_def]
  have rs: "report_start_lba c4 = 0" using report_start_first [of c4] st by simp
  have "reporting c4" using st assms(5) by (simp add: reporting_def)
  moreover have "\<forall>e\<in>#recorded m. reportable k c4 e \<and> report_start_lba c4 \<le> start_blk c4 e"
    using st c4(2) by (simp add: rs recorded_in_def)
  moreover have "\<forall>z\<in>set (zones m). length (extents z) \<le> fuel"
    using recorded_zone_length c4(7) assms(15) by (meson le_trans)
  ultimately obtain sm'' c5 ls where r: "show_segment_report fuel k (sm', c4) = Inr (sm'', c5)"
    "stdout c5 = stdout c4 @ ls" "piece_lines ls = concat (map (zone_pieces c4) (zones m))" "zonemap c5 = Some m"
    using show_segment_report_yields [OF _ _ c4(2,3,6)] st c4(2) by metis
  have g: "has_geometry c4" "end_zone c4 = last_zone c1 c2" "znsdev c4 = znsdev c2" using st by simp_all
  have "zm_inv m" using st c4(2) by (auto simp: ctrl_inv_def)
  then have w: "\<forall>z\<in>set (zones m). zone_wf z" by (auto simp: zm_inv_def in_set_conv_nth)
  have "unat (report_end_lba c4) = range_blocks c1 c2"
    using report_end_blocks [of c4] assms(19,20) by (simp add: g range_blocks_def)
  then have zl: "map (zone_pieces c4) (zones m) = map (zone_lines c4 (range_blocks c1 c2)) (zones m)"
    using w zone_pieces_in_range [OF g(1)] by (simp add: zone_lines_def)
  have al: "map (zone_lines c4 (range_blocks c1 c2)) (zones m) = map (\<lambda>z. concat (map (lines_of c4) (extents z))) (zones m)"
    if "all_below c2 (range_blocks c1 c2) es fs"
    using all_below_lines [OF that c4(4) g(1)] by simp
  have "segmap_report fuel J time k sm' c4 = Inr (None, sm'', c5)"
    using r(1) st assms(4) by (simp add: segmap_report_def)
  from segmap_main_steps [OF assms(2,3,8,10) c4(8,2,5) this r(4)] obtain c' where
    c': "segmap_main fuel J time k (Some ds) prog args = Inr (None, sm'', c')" "stdout c' = stdout c5" by blast
  have p: "piece_lines ls = concat (map (zone_lines c4 (range_blocks c1 c2)) (zones m))"
    using r(3) unfolding zl .
  have "all_below c2 (range_blocks c1 c2) es fs \<longrightarrow>
      piece_lines ls = concat (map (\<lambda>z. concat (map (lines_of c4) (extents z))) (zones m))"
    by (intro impI) (simp only: p al)
  with p c'(1) c'(2) r(2) c4(2,4,8) st show ?thesis by auto
qed

text \<open>The span of an extent depends on its place only.\<close>

lemma in_span_cong:
  assumes "collects c c'" "digest e = fe_digest c0 g fe"
  shows "in_span bound c' e = in_span bound c (fill_extent g fe 0 c0)"
proof -
  have "phy_blk e = phy_blk (fill_extent g fe 0 c0)" "e_len e = e_len (fill_extent g fe 0 c0)"
    using assms(2) by (simp_all add: fe_digest_def digest_def)
  then show ?thesis
    by (simp add: in_span_def ext_end_def end_seg_def seg_blocks_def start_blk_def segment_id_of_def
        report_start_lba_def report_end_lba_def collects_fields [OF assms(1)])
qed


text \<open>C21. An extent in front of the start zone that the report or the JSON dump of \<open>zns.segmap\<close> reaches
  makes it run forever: the loops take their \<open>continue\<close> without going to the next extent, so no fuel
  is enough.\<close>

theorem segmap_report_spins:
  assumes "fs_magic c = F2FS_MAGIC" "zonemap c = Some m" "i < length (zones m)" "i < unat (zm_nr_zones m)"
    "\<forall>j<i. z_extent_ctr (zones m ! j) = 0" "z_extent_ctr (zones m ! i) \<noteq> 0"
    "extents (zones m ! i) = e # es"
    "start_blk c e < report_start_lba c" "start_blk c e < report_end_lba c"
  shows "segmap_report fuel J time k sm c = Inl OutOfFuel"
  by (simp add: segmap_report_def assms(1) show_segment_report_spins [OF assms(2-9)] json_dump_spins [OF assms])

end
