(* ===== verification/Sample_F2fs.thy ===== *)
theory Sample_F2fs
  imports Samples Segmap_Tool
begin

text \<open>
  A machine with F2FS: the superblock names a conventional and a zoned device, eight main
  segments and one NAT block, the zoned device is that of \<open>Samples\<close> behind an address space of
  32 MiB, and \<open>/mnt\<close> is a directory of files with two extents each.
\<close>

section \<open>The superblock\<close>

definition f2fs_super :: "u8 list" where
  "f2fs_super = replicate 60 0 @ [2, 0, 0, 0] @ replicate 4 0 @ [8, 0, 0, 0] @ replicate 12 0 @ [2, 0, 0, 0]
     @ replicate (sb_dev_off 0 - 88) 0
     @ pad 64 ''/dev/sda1'' @ [1, 0, 0, 0] @ pad 64 ''/dev/nvme0n2'' @ [4, 0, 0, 0]
     @ replicate (3072 - sb_dev_off 0 - 136) 0"

definition f2fs_extents :: "fiemap_extent list" where
  "f2fs_extents =
     [\<lparr>fe_logical = 0, fe_physical = 0x2500000, fe_length = 0x3000, fe_flags = 0\<rparr>,
      \<lparr>fe_logical = 0x3000, fe_physical = 0x2200000, fe_length = 0x1000, fe_flags = 1\<rparr>]"

text \<open>
  \<open>rd\<close> is what a device holds beyond the superblock; \<open>ls\<close> is the segment table in procfs, or
  \<open>None\<close> without one.
\<close>

definition f2fs_os :: "(string \<Rightarrow> u64 \<Rightarrow> nat \<Rightarrow> u8 list option) \<Rightarrow> string list option \<Rightarrow> os" where
  "f2fs_os rd ls = sample_os\<lparr>os_statfs := \<lambda>p. Some F2FS_MAGIC,
     os_stat := \<lambda>p. Some (sample_stat\<lparr>st_isdir := (p = ''/mnt'')\<rparr>),
     os_fiemap := \<lambda>f s l n. if s = 0 then Some (2, f2fs_extents ! 0) else Some (1, f2fs_extents ! 1),
     os_read := \<lambda>p off n. if off = F2FS_SUPER_OFFSET then Some (take n f2fs_super) else rd p off n,
     os_lines := \<lambda>p. ls\<rparr>"

definition segment_table :: "string list" where
  "segment_table = [''format: segment_type|valid_blocks'', ''segment_type(0:HD, 1:WD, 2:CD)'',
     ''0         1|300 1|300 1|300 1|300 2|512 2|512 0|0   0|0'']"

lemma devs_offset: "sb_dev_off 0 = 2201" "sb_dev_off 1 = 2269" "sb_dev_off 2 = 2337"
  by (simp_all add: sb_dev_off_def layout_defs field_bytes_def)

lemma f2fs_super_length: "length f2fs_super = 3072"
  by (simp add: f2fs_super_def pad_def string_bytes_def devs_offset)

lemma f2fs_super_devs:
  "drop 2201 f2fs_super = string_bytes ''/dev/sda1'' @ replicate 55 0 @ drop 2265 f2fs_super"
  "drop 2269 f2fs_super = string_bytes ''/dev/nvme0n2'' @ replicate 52 0 @ drop 2333 f2fs_super"
  "drop 2337 f2fs_super = replicate 735 0"
  by (simp_all add: f2fs_super_def pad_def string_bytes_def devs_offset)

lemma f2fs_super_two: "sb_dev_segments 2 f2fs_super = 0"
  by (simp add: sb_dev_segments_def devs_offset f2fs_super_devs)

lemma f2fs_super_main: "fld32 f2fs_super_block_layout ''segment_count_main'' f2fs_super = 8"
  by (simp add: fld_def layout_defs field_bytes_def f2fs_super_def take_Cons')

lemma f2fs_super_bdev:
  "dev_path (copy_bdev_names f2fs_super b) = ''/dev/sda1''" "dev_name (copy_bdev_names f2fs_super b) = ''sda1''"
proof -
  have "sb_dev_path 0 f2fs_super = ''/dev/'' @ ''sda1''"
    by (simp add: sb_dev_path_def f2fs_super_devs(1) devs_offset cstring_def string_bytes_def char_of_def bit_0)
  from copy_bdev_names_name [OF _ this, of b]
  show "dev_path (copy_bdev_names f2fs_super b) = ''/dev/sda1''" "dev_name (copy_bdev_names f2fs_super b) = ''sda1''"
    by (simp_all add: devs_offset f2fs_super_length MAX_PATH_LEN_def MAX_DEV_NAME_def)
qed

lemma f2fs_super_znsdev: "dev_name (copy_znsdev_name f2fs_super b) = ''nvme0n2''"
proof -
  have d: "drop 2274 f2fs_super = string_bytes ''nvme0n2'' @ replicate 52 0 @ drop 2333 f2fs_super"
    using arg_cong [OF f2fs_super_devs(2), of "drop 5"] by (simp add: string_bytes_def)
  show ?thesis
    by (simp add: copy_znsdev_name_def bdev_of_mem_def memcpy_at_def sb_path_bytes_def
        devs_offset(2) [unfolded One_nat_def] MAX_PATH_LEN_def d) (simp add: cstring_def string_bytes_def char_of_def bit_0)
qed

definition f2fs_manager :: segment_manager where
  "f2fs_manager = \<lparr>nr_segments = 8, segments =
     map (\<lambda>i. \<lparr>si_id = of_nat i, si_type = (if i < 4 then CURSEG_WARM_DATA else if i < 6 then CURSEG_COLD_DATA else CURSEG_HOT_DATA),
       si_valid_blocks = (if i < 4 then 300 else if i < 6 then 512 else 0)\<rparr>) [0..<8]\<rparr>"

lemma segment_table_read:
  "procfs_lines 0 8 segment_table \<lparr>nr_segments = 0, segments = replicate 8 zero_segment_info\<rparr> = Inr f2fs_manager"
  by code_simp

section \<open>The initialisation\<close>

lemma f2fs_os_calls:
  "os_open (f2fs_os rd ls) p" "os_stat (f2fs_os rd ls) p = Some (sample_stat\<lparr>st_isdir := (p = ''/mnt'')\<rparr>)"
  "os_statfs (f2fs_os rd ls) p = Some F2FS_MAGIC" "os_sector_size (f2fs_os rd ls) p = Some 512"
  "os_report_zones (f2fs_os rd ls) p s n = Some (map sample_zone [unat s div 8192..<min 4 (unat s div 8192 + unat n)])"
  "os_readlink (f2fs_os rd ls) p = Some ''../nvme0n2''"
  "os_read (f2fs_os rd ls) p i m = (if i = F2FS_SUPER_OFFSET then Some (take m f2fs_super) else rd p i m)"
  "os_lines (f2fs_os rd ls) p = ls" "os_zone_size (f2fs_os rd ls) p = Some 8192" "os_nr_zones (f2fs_os rd ls) p = Some 4"
  "os_dev_size (f2fs_os rd ls) p = Some 0x2000000"
  by (simp_all add: f2fs_os_def sample_os_def)

lemma f2fs_os_zoned: "is_zoned (f2fs_os rd ls) p c = Inr (True, info 1 ''Device is ZNS'' [S p] c)"
  by (simp add: is_zoned_def f2fs_os_calls)

lemma f2fs_os_sector:
  "get_sector_size (f2fs_os rd ls) p c = Inr (512, info 1 ''Device has sector size'' [S p, N 512] c)"
  by (simp add: get_sector_size_def f2fs_os_calls Let_def)

text \<open>What is known of the control structure before and after the zoned device is initialised.\<close>

definition starting :: "u32 \<Rightarrow> control \<Rightarrow> bool" where
  "starting x c \<longleftrightarrow> zns_sector_shift c = 0 \<and> exclude_flags c = x \<and> \<not> show_checkpoint c"

definition device_ready :: "u32 \<Rightarrow> control \<Rightarrow> bool" where
  "device_ready x c \<longleftrightarrow> starting x c \<and> dev_path (znsdev c) = ''/dev/nvme0n2'' \<and> sector_shift c = 9 \<and>
     segment_shift c = 12 \<and> f2fs_segment_mask c = - 4096 \<and> nr_map_zones c = 4 \<and> b_nr_zones (znsdev c) = 4"

lemma print_checkpoint [simp]:
  "show_checkpoint (info n t a c) = show_checkpoint c" "show_checkpoint (msg l c) = show_checkpoint c"
  by (simp_all add: info_def msg_def)

lemma starting_frame [simp]:
  "starting x (info n t a c) = starting x c" "starting x (msg l c) = starting x c"
  "starting x (c\<lparr>bdev := b\<rparr>) = starting x c" "starting x (c\<lparr>znsdev := b\<rparr>) = starting x c"
  "starting x (c\<lparr>sector_size := y\<rparr>) = starting x c" "starting x (c\<lparr>segment_shift := y\<rparr>) = starting x c"
  by (simp_all add: starting_def)

lemma f2fs_os_znsdev:
  assumes "dev_name (znsdev c) = ''nvme0n2''" "starting x c"
  shows "yields (init_znsdev (f2fs_os rd ls) c)
    (\<lambda>(r, c'). r = EXIT_SUCCESS \<and> b_is_zoned (znsdev c') \<and> bdev c' = bdev c \<and> device_ready x c')"
  using assms(2) unfolding init_znsdev_def Let_def
  by (simp add: assms(1) MAX_DEV_NAME_def f2fs_os_calls f2fs_os_zoned f2fs_os_sector init_zone_map_def Let_def
      get_nr_zones_def set_geometry_def device_ready_def starting_def nr_map_zones_def F2FS_SEGMENT_BYTES_def)

lemma show_sb_devs_frame':
  "bdev (show_sb_devs is sb c) = bdev c \<and> znsdev (show_sb_devs is sb c) = znsdev c \<and>
   starting x (show_sb_devs is sb c) = starting x c"
  by (induction "is" arbitrary: c) simp_all

lemma f2fs_os_super_info:
  assumes "starting x c"
  shows "yields (set_super_block_info (f2fs_os rd ls) f2fs_super c)
    (\<lambda>c'. dev_name (bdev c') = ''sda1'' \<and> device_ready x c')"
  unfolding set_super_block_info_def Let_def
  using assms show_sb_devs_frame' [where x = x]
  by (simp add: f2fs_os_zoned f2fs_os_sector)
    (rule yields_bind [OF f2fs_os_znsdev [where x = x]],
      auto simp: f2fs_super_znsdev f2fs_super_bdev EXIT_SUCCESS_def EXIT_FAILURE_def)

lemma f2fs_os_read_super: "f2fs_read_super_block (f2fs_os rd ls) p zero_f2fs_lib = Inr (zero_f2fs_lib\<lparr>f2fs_sb := f2fs_super\<rparr>)"
  by (simp add: f2fs_read_super_block_def f2fs_read_block_def f2fs_os_calls super_block_size f2fs_super_length
      zero_f2fs_lib_def)

lemma f2fs_os_dev: "\<exists>b. init_dev (f2fs_os rd ls) (sample_stat\<lparr>st_isdir := d\<rparr>) c = Inr (c\<lparr>bdev := b\<rparr>)"
  by (simp add: init_dev_def f2fs_os_calls base_name_def MAX_PATH_LEN_def MAX_DEV_NAME_def sample_stat_def)
    (rule exI, rule refl)

lemma device_ready_zone_sizes:
  "device_ready x c \<Longrightarrow> device_ready x (set_zone_sizes (f2fs_os rd ls) c) \<and>
     b_zone_size (znsdev (set_zone_sizes (f2fs_os rd ls) c)) = 8192"
  by (simp add: device_ready_def starting_def set_zone_sizes_def get_zone_size_def get_nr_zones_def f2fs_os_calls nr_map_zones_def Let_def)

lemma f2fs_os_f2fs_ctrl:
  assumes "starting x c"
  shows "yields (init_f2fs_ctrl (f2fs_os rd ls) (sample_stat\<lparr>st_isdir := d\<rparr>) zero_f2fs_lib c)
    (\<lambda>(l, c'). l = zero_f2fs_lib\<lparr>f2fs_sb := f2fs_super\<rparr> \<and> dev_name (bdev c') = ''sda1'' \<and> device_ready x c' \<and>
       offset c' = 0x2000000 \<and> b_zone_size (znsdev c') = 8192)"
proof -
  obtain b where "init_dev (f2fs_os rd ls) (sample_stat\<lparr>st_isdir := d\<rparr>) c = Inr (c\<lparr>bdev := b\<rparr>)"
    using f2fs_os_dev by blast
  moreover have "yields (set_super_block_info (f2fs_os rd ls) f2fs_super (c\<lparr>bdev := b\<rparr>))
    (\<lambda>c'. dev_name (bdev c') = ''sda1'' \<and> device_ready x c')"
    using assms by (intro f2fs_os_super_info) simp
  moreover have "device_ready x c1 \<Longrightarrow> device_ready x (set_zone_sizes (f2fs_os rd ls) (c1\<lparr>multi_dev := q, offset := y\<rparr>)) \<and>
      b_zone_size (znsdev (set_zone_sizes (f2fs_os rd ls) (c1\<lparr>multi_dev := q, offset := y\<rparr>))) = 8192" for c1 q y
    by (rule device_ready_zone_sizes) (simp add: device_ready_def starting_def nr_map_zones_def)
  moreover have "bdev (set_zone_sizes k c1) = bdev c1" "offset (set_zone_sizes k c1) = offset c1" for k c1
    by (simp_all add: set_zone_sizes_def Let_def)
  ultimately show ?thesis
    by (auto simp: init_f2fs_ctrl_def f2fs_os_read_super yields_def get_dev_size_def f2fs_os_calls Let_def)
qed

text \<open>The control structure that \<open>check_dir_init_ctrl\<close> leaves, with the segment table and without.\<close>

definition read_manager :: "string list option \<Rightarrow> segment_manager option" where
  "read_manager ls = (if ls = None then None else Some f2fs_manager)"

lemma f2fs_os_manager:
  assumes "ls = None \<or> ls = Some segment_table"
  shows "\<exists>out. f2fs_fs_manager_init (f2fs_os rd ls) ''sda1'' (zero_f2fs_lib\<lparr>f2fs_sb := f2fs_super\<rparr>) = Inr (read_manager ls, out)"
  using assms segment_table_read
  by (auto simp: f2fs_fs_manager_init_def init_procfs_segment_bits_def f2fs_os_calls f2fs_super_main read_manager_def Let_def)

lemma device_ready_msg: "device_ready x (msg l c) = device_ready x c"
  by (simp add: device_ready_def nr_map_zones_def)

lemma device_ready_frame [simp]:
  "device_ready x (fold msg ls c) = device_ready x c" "offset (fold msg ls c) = offset c"
  "znsdev (fold msg ls c) = znsdev c"
  by (induction ls arbitrary: c) (simp_all add: device_ready_msg)

lemma f2fs_os_check_dir:
  assumes "ls = None \<or> ls = Some segment_table" "starting x c"
  shows "\<exists>l c'. check_dir_init_ctrl (f2fs_os rd ls) zero_f2fs_lib (sm, c) =
      Inr (l, (if sm_dir sm = ''/mnt'' then sm\<lparr>sm_isdir := True\<rparr> else sm), c') \<and>
    device_ready x c' \<and> offset c' = 0x2000000 \<and> b_zone_size (znsdev c') = 8192 \<and>
    fs_manager c' = read_manager ls \<and> fs_info_init c' = Some fs_info_initialize \<and> fs_info_bytes c' = get_fs_info_bytes"
proof -
  let ?st = "sample_stat\<lparr>st_isdir := (sm_dir sm = ''/mnt'')\<rparr>"
  let ?c = "info 1 (if sm_dir sm = ''/mnt'' then ''is a directory'' else ''is a file'') [S (sm_dir sm)] c"
  have "starting x (?c\<lparr>fs_magic := F2FS_MAGIC\<rparr>)" using assms(2) by (simp add: starting_def)
  from f2fs_os_f2fs_ctrl [OF this, where rd = rd and ls = ls and d = "sm_dir sm = ''/mnt''"] obtain c2 where c2:
    "init_f2fs_ctrl (f2fs_os rd ls) ?st zero_f2fs_lib (?c\<lparr>fs_magic := F2FS_MAGIC\<rparr>) = Inr (zero_f2fs_lib\<lparr>f2fs_sb := f2fs_super\<rparr>, c2)"
    "dev_name (bdev c2) = ''sda1''" "device_ready x c2" "offset c2 = 0x2000000" "b_zone_size (znsdev c2) = 8192"
    by (auto simp: yields_def)
  obtain out where out: "f2fs_fs_manager_init (f2fs_os rd ls) ''sda1'' (zero_f2fs_lib\<lparr>f2fs_sb := f2fs_super\<rparr>) = Inr (read_manager ls, out)"
    using f2fs_os_manager [OF assms(1)] by blast
  let ?c' = "(fold msg out c2)\<lparr>fs_manager := read_manager ls, fs_info_init := Some fs_info_initialize,
       fs_info_show := Some f2fs_show_segment, fs_info_bytes := get_fs_info_bytes\<rparr>"
  have "device_ready x ?c'" using c2(3) device_ready_frame(1) [of x out c2]
    by (simp add: device_ready_def starting_def nr_map_zones_def)
  with c2 out show ?thesis
    by (simp add: check_dir_init_ctrl_def f2fs_os_calls set_fs_magic_def Let_def) 
qed

section \<open>The extents on the machine\<close>

definition f2fs_ready :: "control \<Rightarrow> bool" where
  "f2fs_ready c \<longleftrightarrow> device_ready FIEMAP_EXTENT_DATA_INLINE c \<and> offset c = 0x2000000 \<and>
     b_zone_size (znsdev c) = 8192 \<and> fs_manager c = Some f2fs_manager \<and> fs_info_init c = Some fs_info_initialize"

lemma f2fs_ready_fields:
  assumes "f2fs_ready c"
  shows "offset c = 0x2000000" "exclude_flags c = 0x200" "sector_shift c = 9" "zns_sector_shift c = 0"
    "b_zone_size (znsdev c) = 8192" "dev_path (znsdev c) = ''/dev/nvme0n2''" "segment_shift c = 12"
    "f2fs_segment_mask c = - 4096" "nr_map_zones c = 4" "b_nr_zones (znsdev c) = 4" "fs_manager c = Some f2fs_manager"
    "fs_info_init c = Some fs_info_initialize"
  using assms by (simp_all add: f2fs_ready_def device_ready_def starting_def FIEMAP_EXTENT_DATA_INLINE_def)

lemma f2fs_accepted:
  assumes "f2fs_ready c"
  shows "list_all (accepted c) f2fs_extents" "map (fe_block c) f2fs_extents = [0x2800, 0x1000]"
  by (simp_all add: accepted_def [abs_def] fe_block_def f2fs_extents_def f2fs_ready_fields [OF assms])

lemma f2fs_recordable:
  assumes "f2fs_ready c" "fe \<in> set f2fs_extents"
  shows "recordable (f2fs_os rd ls) c (nr_map_zones c) (fe_block c fe) \<and> zone_open (f2fs_os rd ls) c (fe_block c fe)"
proof -
  have "fe_block c fe = 0x2800 \<or> fe_block c fe = 0x1000"
    using assms(2) arg_cong [OF f2fs_accepted(2) [OF assms(1)], of set] by auto
  then show ?thesis
    by (auto simp: recordable_def has_fs_info_def zone_open_def get_zone_number_def report_zone_def f2fs_os_calls
        f2fs_ready_fields [OF assms(1)] fs_info_initialize_def f2fs_manager_def Let_def sample_zone_def report_zone_at_def)
qed

lemma f2fs_serves:
  assumes "f \<noteq> ''/mnt''" "2 \<le> fuel"
  shows "serves_file (f2fs_os rd ls) fuel (\<lambda>_. f2fs_extents) f"
  using assms
  by (simp add: serves_file_def f2fs_os_calls sample_stat_def f2fs_extents_def f2fs_os_def sample_calls FIEMAP_EXTENT_LAST_def)

lemma f2fs_spans:
  assumes "f2fs_ready c2" "start_zone c2 = 0" "end_zone c2 = 0" "\<not> set_zone f" "fe \<in> set f2fs_extents"
  shows "in_span 2 (default_zones f c2) (fill_extent g fe 0 c2)"
proof -
  note r = f2fs_ready_fields [OF assms(1)]
  have d: "segment_shift (default_zones f c2) = 12" "f2fs_segment_mask (default_zones f c2) = - 4096"
    "b_zone_size (znsdev (default_zones f c2)) = 8192" "start_zone (default_zones f c2) = 1" "end_zone (default_zones f c2) = 4"
    using assms(2-4) by (simp_all add: default_zones_def r Let_def)
  show ?thesis
    using assms(5)
    by (auto simp: in_span_def ext_end_def end_seg_def seg_blocks_def start_blk_def segment_id_of_def report_start_lba_def
        report_end_lba_def d fill_extent_def r f2fs_extents_def)
qed

section \<open>The tool on the machine\<close>

text \<open>Without and with \<open>-j\<close>.\<close>

definition tool_args :: "bool \<Rightarrow> string list" where
  "tool_args j = [''-d'', ''/mnt''] @ (if j then [''-j'', ''out.json''] else [])"

definition tool_start :: "bool \<Rightarrow> control" where
  "tool_start j = zero_control\<lparr>exclude_flags := FIEMAP_EXTENT_DATA_INLINE, show_holes := True, argv0 := ''zns.segmap'',
     json_file := (if j then ''out.json'' else []), json_dump := j\<rparr>"

definition tool_flags :: segmap_flags where
  "tool_flags = no_flags\<lparr>set_dir := True\<rparr>"

definition tool_dir :: segmap_manager where
  "tool_dir = zero_segmap_manager\<lparr>sm_dir := ''/mnt''\<rparr>"

abbreviation tool_os :: os where
  "tool_os \<equiv> f2fs_os (\<lambda>_ _ _. None) (Some segment_table)"

lemma tool_start_fields:
  "starting FIEMAP_EXTENT_DATA_INLINE (tool_start j)" "json_dump (tool_start j) = j" "\<not> show_only_stats (tool_start j)"
  "start_zone (tool_start j) = 0" "end_zone (tool_start j) = 0" "show_class_stats (tool_start j) = False"
  "sm_dir tool_dir = ''/mnt''" "\<not> set_zone tool_flags"
  by (simp_all add: tool_start_def tool_dir_def tool_flags_def no_flags_def starting_def zero_control_def)

lemma tool_options:
  "segmap_options (getopt segmap_optstring (tool_args j)) (no_flags, zero_segmap_manager, zero_control\<lparr>exclude_flags :=
      FIEMAP_EXTENT_DATA_INLINE, show_holes := True, argv0 := ''zns.segmap''\<rparr>) = Inr (tool_flags, tool_dir, tool_start j)"
  "check_flags tool_flags (tool_start j) = Inr (tool_start j)"
  by (simp_all add: segmap_option_def tool_args_def segmap_optstring_def is_option_def tool_flags_def tool_dir_def tool_start_def zero_control_def
      check_flags_def no_flags_def)

lemma tool_init:
  obtains l c2 where "check_dir_init_ctrl tool_os zero_f2fs_lib (tool_dir, tool_start j) = Inr (l, tool_dir\<lparr>sm_isdir := True\<rparr>, c2)"
    "f2fs_ready c2" "start_zone c2 = 0" "end_zone c2 = 0"
proof -
  obtain l c2 where i: "check_dir_init_ctrl tool_os zero_f2fs_lib (tool_dir, tool_start j) = Inr (l, tool_dir\<lparr>sm_isdir := True\<rparr>, c2)"
    "f2fs_ready c2"
    using f2fs_os_check_dir [where ls = "Some segment_table" and x = FIEMAP_EXTENT_DATA_INLINE and c = "tool_start j" and
        sm = tool_dir and rd = "\<lambda>_ _ _. None"]
    by (auto simp: tool_start_fields f2fs_ready_def read_manager_def)
  moreover have "run_options c2 = (F2FS_MAGIC, show_only_stats (tool_start j), json_dump (tool_start j),
      start_zone (tool_start j), end_zone (tool_start j))"
    using check_dir_f2fs [OF i(1)] by (simp add: f2fs_os_calls)
  ultimately show ?thesis using that by (simp add: run_options_def tool_start_fields)
qed

lemma size_accepted_digests: "size (accepted_digests c es f) = length (filter (accepted c) (es f))"
  unfolding accepted_digests_def size_image_mset size_mset ..

lemma tool_tree:
  "tree_files (sm_dir tool_dir) sample_tree = [''/mnt/sub/b'', ''/mnt/a'']" "readable sample_tree"
  by (simp_all add: tool_start_fields sample_tree_files)

lemma tool_files:
  assumes "2 \<le> fuel"
  shows "\<forall>g\<in>set (tree_files (sm_dir tool_dir) sample_tree). serves_file tool_os fuel (\<lambda>_. f2fs_extents) g"
    "length (tree_files (sm_dir tool_dir) sample_tree) < 2 ^ 32"
    "(\<Sum>g\<leftarrow>tree_files (sm_dir tool_dir) sample_tree. length f2fs_extents) < 2 ^ 32"
    "(\<Sum>g\<leftarrow>tree_files (sm_dir tool_dir) sample_tree. length f2fs_extents) = 4"
    "tree_files (sm_dir tool_dir) sample_tree \<noteq> []"
  using f2fs_serves [OF _ assms] unfolding tool_tree(1) by (simp_all add: f2fs_extents_def)

lemma tool_digests:
  assumes "f2fs_ready c"
  shows "accepted_digests c (\<lambda>_. f2fs_extents) g \<noteq> {#}"
    "size (\<Sum>g\<leftarrow>tree_files (sm_dir tool_dir) sample_tree. accepted_digests c (\<lambda>_. f2fs_extents) g) = 4"
proof -
  have "filter (accepted c) f2fs_extents = f2fs_extents"
    using f2fs_accepted(1) [OF assms] by (simp add: list_all_iff)
  then have sz: "size (accepted_digests c (\<lambda>_. f2fs_extents) g) = 2" for g
    by (simp add: size_accepted_digests) (simp add: f2fs_extents_def)
  then show "accepted_digests c (\<lambda>_. f2fs_extents) g \<noteq> {#}" by (metis size_empty zero_neq_numeral)
  show "size (\<Sum>g\<leftarrow>tree_files (sm_dir tool_dir) sample_tree. accepted_digests c (\<lambda>_. f2fs_extents) g) = 4"
    unfolding tool_tree(1) by (simp add: sz)
qed

lemma tool_reads:
  assumes "f2fs_ready c"
  shows "\<forall>g\<in>set fs. \<forall>fe\<in>set f2fs_extents. accepted c fe \<longrightarrow>
    recordable tool_os c (nr_map_zones c) (fe_block c fe) \<and> zone_open tool_os c (fe_block c fe)"
  using f2fs_recordable [OF assms] by blast

text \<open>The device has 4 zones of 8192 blocks, and all extents are below their end.\<close>

lemma tool_range:
  assumes "f2fs_ready c"
  shows "last_zone (tool_start j) c = 4" "range_blocks (tool_start j) c = 32768"
    "all_below c 32768 (\<lambda>_. f2fs_extents) fs"
proof -
  show l: "last_zone (tool_start j) c = 4"
    by (simp add: last_zone_def tool_start_fields f2fs_ready_fields [OF assms])
  show "range_blocks (tool_start j) c = 32768" by (simp add: range_blocks_def l f2fs_ready_fields [OF assms])
  have "unat (fe_block c fe) < 32768" if "fe \<in> set f2fs_extents" for fe
  proof -
    have "fe_block c fe = 0x2800 \<or> fe_block c fe = 0x1000"
      using that arg_cong [OF f2fs_accepted(2) [OF assms], of set] by auto
    then show ?thesis by auto
  qed
  then show "all_below c 32768 (\<lambda>_. f2fs_extents) fs" by (simp add: all_below_def)
qed

theorem segmap_main_prints_witness:
  "\<forall>(J :: unit json_api) time. \<exists>c4 m sm' c' ls. zonemap c4 = Some m \<and> size (recorded m) = 4 \<and>
     segmap_main 4 J time tool_os (Some sample_tree) ''zns.segmap'' (tool_args False) = Inr (None, sm', c') \<and>
     stdout c' = stdout c4 @ ls \<and> piece_lines ls = concat (map (\<lambda>z. concat (map (lines_of c4) (extents z))) (zones m))"
proof (intro allI)
  fix J :: "unit json_api" and time
  obtain l c2 where i: "check_dir_init_ctrl tool_os zero_f2fs_lib (tool_dir, tool_start False) = Inr (l, tool_dir\<lparr>sm_isdir := True\<rparr>, c2)"
    "f2fs_ready c2" by (rule tool_init)
  have s: "os_statfs tool_os (sm_dir tool_dir) = Some F2FS_MAGIC" "sm_isdir (tool_dir\<lparr>sm_isdir := True\<rparr>)"
    "\<not> json_dump (tool_start False)" "(\<Sum>g\<leftarrow>tree_files (sm_dir tool_dir) sample_tree. length f2fs_extents) \<le> 4"
    using tool_files(4) [of 4] by (simp_all add: f2fs_os_calls tool_start_fields)
  note t = tool_range [OF i(2)]
  have r: "unat (last_zone (tool_start False) c2) + 1 < 2 ^ 32" "range_blocks (tool_start False) c2 < 2 ^ 64"
    by (simp_all add: t)
  from segmap_main_prints [where J = J and time = time, OF tool_options s(3) tool_start_fields(3,4,8) i(1) s(1,2) tool_tree(2) tool_files(1-3) [of 4]
      s(4) tool_reads [OF i(2)] tool_files(5) [of 4] tool_digests(1) [OF i(2)] r]
  obtain c4 m sm' c' ls where p: "zonemap c4 = Some m" "image_mset digest (recorded m) =
      (\<Sum>g\<leftarrow>tree_files (sm_dir tool_dir) sample_tree. accepted_digests c2 (\<lambda>_. f2fs_extents) g)"
    "segmap_main 4 J time tool_os (Some sample_tree) ''zns.segmap'' (tool_args False) = Inr (None, sm', c')"
    "stdout c' = stdout c4 @ ls" "piece_lines ls = concat (map (\<lambda>z. concat (map (lines_of c4) (extents z))) (zones m))"
    unfolding t(2) using t(3) by auto
  have "size (recorded m) = 4" using arg_cong [OF p(2), of size] tool_digests(2) [OF i(2)] by simp
  with p(1,3-5) show "\<exists>c4 m sm' c' ls. zonemap c4 = Some m \<and> size (recorded m) = 4 \<and>
     segmap_main 4 J time tool_os (Some sample_tree) ''zns.segmap'' (tool_args False) = Inr (None, sm', c') \<and>
     stdout c' = stdout c4 @ ls \<and> piece_lines ls = concat (map (\<lambda>z. concat (map (lines_of c4) (extents z))) (zones m))"
    by blast
qed

text \<open>A library for JSON documents: adding a member replaces one of the same name.\<close>

datatype json = JObj "(string \<times> json) list" | JArr "json list" | JStr string | JNum int | JBool bool | JNull

fun json_add :: "json \<Rightarrow> string \<Rightarrow> json \<Rightarrow> json" where
  "json_add (JObj ms) n v = JObj (filter (\<lambda>(n', _). n' \<noteq> n) ms @ [(n, v)])"
| "json_add j n v = j"

fun json_append :: "json \<Rightarrow> json \<Rightarrow> json" where
  "json_append (JArr vs) v = JArr (vs @ [v])"
| "json_append j v = j"

fun json_length :: "json \<Rightarrow> nat" where
  "json_length (JArr vs) = length vs"
| "json_length j = 0"

definition tree_json :: "json json_api" where
  "tree_json = \<lparr>js_object = JObj [], js_array = JArr [], js_null = JNull, js_string = JStr, js_int = JNum,
     js_uint64 = \<lambda>v. JNum (int (unat v)), js_double = \<lambda>v. JNum (int (unat v)), js_bool = JBool, js_add = json_add,
     js_append = json_append, js_length = json_length, js_to_file = \<lambda>_ _. 0\<rparr>"


end
