(* ===== verification/Segmap_Directory.thy ===== *)
theory Segmap_Directory
  imports Segmap_Tool Segmap_Stats
begin

text \<open>
  \<open>zns.segmap\<close> from the command line to the statistics of a directory: the counters start at zero
  (\<open>Untallied\<close>), the report adds up the segments of its extents (\<open>Segmap_Stats\<close>), and there is
  one line per file that has an extent on the zoned device.
\<close>

section \<open>The line of a file\<close>

definition file_line :: "control \<Rightarrow> zone_map \<Rightarrow> string \<Rightarrow> out" where
  "file_line c m g =
     (let es = filter (\<lambda>e. e_file e = g) (reported c m); hs = runs (\<lambda>e. ucast (seg_of c e) :: u64) 0 es in
      FileStats g (of_nat (size (extents_of_file m g))) (total (seg_span c) hs)
        (total (zone_span c) (runs (seg_zone c) 0 es))
        (total (span_if c CURSEG_COLD_DATA) hs) (total (span_if c CURSEG_WARM_DATA) hs)
        (total (span_if c CURSEG_HOT_DATA) hs))"

lemma stats_of_untouched:
  assumes "untouched f" "fc_ext_ctr f = of_nat (size (extents_of_file m (fc_file f)))"
  shows "stats_of c (reported c m) f = file_line c m (fc_file f)"
  using assms by (simp add: stats_of_def file_line_def untouched_def Let_def)

lemma ext_count_member:
  assumes "distinct (map fc_file (active fm))" "f \<in> set (active fm)"
  shows "ext_count fm (fc_file f) = fc_ext_ctr f"
proof -
  from assms(2) obtain i where i: "i < length (active fm)" "active fm ! i = f" by (auto simp: in_set_conv_nth)
  from distinct_index_of [OF assms(1) i(1)] i(2) show ?thesis by (simp add: ext_count_active)
qed

text \<open>The names of the files that have counters.\<close>

definition counted_names :: "control \<Rightarrow> string list" where
  "counted_names c = map fc_file (active (counters c))"

lemma counters_lines:
  assumes "ctrl_inv c" "zonemap c = Some m" "untallied c"
  shows "map (stats_of c (reported c m)) (active (counters c)) = map (file_line c m) (counted_names c)"
    "distinct (counted_names c)" "set (counted_names c) = e_file ` set_mset (recorded m)"
proof -
  from assms(1,2) have f: "files_inv (counters c) m" by (auto simp: ctrl_inv_def)
  then have d: "distinct (map fc_file (active (counters c)))" by (simp add: files_inv_def fcm_inv_def)
  then show "distinct (counted_names c)" by (simp add: counted_names_def)
  show "set (counted_names c) = e_file ` set_mset (recorded m)"
    using f by (simp add: files_inv_def fcm_keys_def counted_names_def)
  have "stats_of c (reported c m) x = file_line c m (fc_file x)" if "x \<in> set (active (counters c))" for x
    using that assms(3) f ext_count_member [OF d that]
    by (intro stats_of_untouched) (simp_all add: untallied_def files_inv_def)
  then show "map (stats_of c (reported c m)) (active (counters c)) = map (file_line c m) (counted_names c)"
    by (simp add: counted_names_def)
qed

section \<open>From the command line\<close>


end
