(* ===== verification/Collecting.thy ===== *)
theory Collecting
  imports Segmap_Tool
begin

text \<open>
  The states of the control structure that the tools go through while they collect extents, as
  a transition system: a tool initialises the structure for a file or for a directory, may set
  the default range of zones, and then calls \<open>get_extents\<close> once per file. What holds in every
  reachable state is shown by rule induction.
\<close>

section \<open>The transitions\<close>

text \<open>The log is the list of the files read, each with the extents the kernel reported for it.\<close>

type_synonym collection_log = "(string \<times> fiemap_extent list) list"

inductive collecting :: "os \<Rightarrow> collection_log \<Rightarrow> control \<Rightarrow> bool" for k where
  for_file: "init_ctrl k f st l c = Inr (l', c') \<Longrightarrow> unused c \<Longrightarrow>
    fs_magic c' = F2FS_MAGIC \<or> fs_magic c' = BTRFS_MAGIC \<Longrightarrow> collecting k [] c'"
| for_dir: "check_dir_init_ctrl k l (sm, c) = Inr (l', sm', c') \<Longrightarrow> unused c \<Longrightarrow>
    fs_magic c' = F2FS_MAGIC \<or> fs_magic c' = BTRFS_MAGIC \<Longrightarrow> collecting k [] c'"
| range: "collecting k [] c \<Longrightarrow> collecting k [] (default_zones flags c)"
| read_file: "collecting k log c \<Longrightarrow> fiemap_serves k f st 0 es \<Longrightarrow> st_blocks st \<noteq> 0 \<Longrightarrow> length es \<le> fuel \<Longrightarrow>
    length log + 1 < 2 ^ 32 \<Longrightarrow> (\<Sum>(f, es)\<leftarrow>log. length es) + length es < 2 ^ 32 \<Longrightarrow>
    get_extents fuel k f st c = Inr (ret, c') \<Longrightarrow> collecting k (log @ [(f, es)]) c'"

inductive_cases collecting_snocE: "collecting k (log @ [fes]) c"

section \<open>What holds in every state\<close>

definition logged :: "control \<Rightarrow> collection_log \<Rightarrow> digest multiset" where
  "logged c log = (\<Sum>(f, es)\<leftarrow>log. image_mset (fe_digest c f) (mset (filter (accepted c) es)))"

lemma logged_simps [simp]:
  "logged c [] = {#}"
  "logged c (log @ [(f, es)]) = logged c log + image_mset (fe_digest c f) (mset (filter (accepted c) es))"
  by (simp_all add: logged_def)

lemma logged_same: "accepted c' = accepted c \<Longrightarrow> fe_digest c' = fe_digest c \<Longrightarrow> logged c' log = logged c log"
  by (simp add: logged_def)

lemma size_logged: "size (logged c log) \<le> (\<Sum>(f, es)\<leftarrow>log. length es)"
proof (induction log rule: rev_induct)
  case (snoc fes log)
  obtain f es where "fes = (f, es)" by fastforce
  with snoc show ?case by (simp add: add_mono flip: mset_filter)
qed simp

definition collected :: "os \<Rightarrow> collection_log \<Rightarrow> control \<Rightarrow> bool" where
  "collected k log c \<longleftrightarrow> ctrl_inv c \<and> has_geometry c \<and> carries k c \<and>
     unat (nr_files c) = length log \<and> length log < 2 ^ 32 \<and> (log \<noteq> [] \<longrightarrow> file_counter_map c \<noteq> None) \<and>
     image_mset digest (recorded_in c) = logged c log \<and> untallied c"

lemma fresh_collected: "fresh_inv c \<Longrightarrow> collected k [] c"
  by (simp add: fresh_inv_def collected_def carries_none untallied_start)

lemma get_extents_counters:
  assumes "get_extents fuel k f st c = Inr (r, c')" "fiemap_serves k f st 0 es" "st_blocks st \<noteq> 0"
    "length es \<le> fuel" "ctrl_inv c" "unat (nr_files c) + 1 < 2 ^ 32" "size (recorded_in c) + length es < 2 ^ 32"
  shows "file_counter_map c' \<noteq> None"
proof -
  from assms(1) obtain c1 n c2 where h: "grow_file_counters k c = Inr c1"
    "handle_all k f es (0, c1) = Inr (n, c2)" "close_file (n, c2) = Inr (r, c')"
    by (auto simp: get_extents_serves [OF assms(2-4)] bind_res_Inr_iff)
  note g = grow_file_counters_inv [OF assms(5) h(1) assms(6)]
  have "loop_inv (strcpy_n MAX_FILE_LENGTH f) c2"
    using handle_all_step [OF h(2) g(1)] assms(7) g(3) by simp
  with h(3) show ?thesis by (auto simp: close_file_def loop_inv_def)
qed

lemma get_extents_collected:
  assumes "collected k log c" "fiemap_serves k f st 0 es" "st_blocks st \<noteq> 0" "length es \<le> fuel"
    "length log + 1 < 2 ^ 32" "(\<Sum>(f, es)\<leftarrow>log. length es) + length es < 2 ^ 32"
    "get_extents fuel k f st c = Inr (r, c')"
  shows "collected k (log @ [(f, es)]) c'"
proof -
  have i: "ctrl_inv c" "carries k c" "unat (nr_files c) = length log" "image_mset digest (recorded_in c) = logged c log"
    "has_geometry c" "untallied c"
    using assms(1) by (simp_all add: collected_def)
  have n: "unat (nr_files c) + 1 < 2 ^ 32" using assms(5) i(3) by simp
  have "size (recorded_in c) = size (logged c log)" using arg_cong [OF i(4), of size] by simp
  with size_logged [of c log] assms(6) have s: "size (recorded_in c) + length es < 2 ^ 32" by linarith
  note run = assms(2-4) n s assms(7)
  note inv = get_extents_collects [OF i(1) run]
  note same = same_setting_facts [OF get_extents_setting [OF i(1) run]]
  have geo: "collects c c'" by (rule get_extents_collects_only [OF assms(2-4,7)])
  have "carries k c'" by (rule get_extents_carries [OF i(1) run i(2)])
  moreover have "has_geometry c'"
    using i(5) by (simp add: has_geometry_def set_geometry_def Let_def collects_fields [OF geo])
  moreover have "untallied c'" by (rule get_extents_untallied [OF i(1) run i(6)])
  moreover have "unat (nr_files c') = length (log @ [(f, es)])" using inv n i(3) by (simp add: unat_add_nowrap)
  moreover have "file_counter_map c' \<noteq> None" by (rule get_extents_counters [OF assms(7,2-4) i(1) n s])
  ultimately show ?thesis
    using inv i(4) assms(5) logged_same [OF same(1,2)] by (simp add: collected_def same(1,2) add.commute)
qed

lemma collecting_collected: "collecting k log c \<Longrightarrow> collected k log c"
proof (induction rule: collecting.induct)
  case (for_file f st l c l' c')
  then show ?case by (intro fresh_collected init_ctrl_fresh)
next
  case (for_dir l sm c l' sm' c')
  then show ?case by (intro fresh_collected check_dir_fresh)
next
  case (range c flags)
  then have "fresh_inv c" by (simp add: collected_def fresh_inv_def unsigned_eq_0_iff)
  then show ?case by (intro fresh_collected default_zones_fresh)
next
  case (read_file log c f st es fuel ret c')
  then show ?case by (intro get_extents_collected)
qed

text \<open>The extents that were logged for a file.\<close>

definition logged_count :: "control \<Rightarrow> collection_log \<Rightarrow> string \<Rightarrow> nat" where
  "logged_count c log g =
     (\<Sum>(f, es)\<leftarrow>filter (\<lambda>(f, es). strcpy_n MAX_FILE_LENGTH f = g) log. length (filter (accepted c) es))"

definition digest_file :: "digest \<Rightarrow> string" where
  "digest_file = (\<lambda>(_, _, _, _, f). f)"

lemma digest_file_digest: "digest_file (digest e) = e_file e"
  by (simp add: digest_file_def digest_def)

lemma digest_file_fe: "digest_file (fe_digest c f fe) = strcpy_n MAX_FILE_LENGTH f"
  by (simp add: fe_digest_def digest_file_digest fill_extent_def)

lemma size_filter_const: "size (filter_mset (\<lambda>x. P) M) = (if P then size M else 0)"
  by simp

lemma size_logged_file: "size (filter_mset (\<lambda>d. digest_file d = g) (logged c log)) = logged_count c log g"
proof (induction log rule: rev_induct)
  case Nil
  then show ?case by (simp add: logged_count_def)
next
  case (snoc fes log)
  obtain f es where [simp]: "fes = (f, es)" by fastforce
  have "size (filter_mset (\<lambda>d. digest_file d = g) (image_mset (fe_digest c f) (mset (filter (accepted c) es))))
      = (if strcpy_n MAX_FILE_LENGTH f = g then length (filter (accepted c) es) else 0)"
    by (simp add: filter_mset_image_mset digest_file_fe size_filter_const del: mset_filter)
  with snoc show ?case by (simp add: logged_count_def del: mset_filter)
qed

lemma extents_of_file_digest:
  "size (extents_of_file m g) = size (filter_mset (\<lambda>d. digest_file d = g) (image_mset digest (recorded m)))"
  by (simp add: extents_of_file_def filter_mset_image_mset digest_file_digest)

section \<open>Properties\<close>

text \<open>C8. Whatever files a tool reads, in every state it can reach the list of every zone is sorted by
  address and as long as its counter says, an extent is in the list of the zone its address
  computes to and carries what the device says of that zone and the file system of its segment;
  and the recorded extents are exactly those the kernel reported on the zoned device. The counters
  of segments, heat and zones of every file in use are zero until a report starts, although the
  array is grown by \<open>realloc\<close>.\<close>

theorem collecting_invariant:
  assumes "collecting k log c"
  shows "\<exists>m. zonemap c = Some m \<and> unat (zm_nr_zones m) = length (zones m) \<and>
    (\<forall>i<length (zones m). sorted (map phy_blk (extents (zones m ! i))) \<and>
       unat (z_extent_ctr (zones m ! i)) = length (extents (zones m ! i)) \<and>
       (\<forall>e\<in>set (extents (zones m ! i)). unat (e_zone e) = i \<and>
          get_zone_number c (push_bit (zsh c) (phy_blk e)) = Inr (e_zone e) \<and>
          zone_facts k c e \<and> segment_facts c e)) \<and>
    image_mset digest (recorded m) = logged c log \<and> unat (nr_files c) = length log \<and>
    (\<forall>f\<in>set (active (counters c)). untouched f)"
proof -
  have d: "collected k log c" by (rule collecting_collected [OF assms])
  then obtain m where m: "zonemap c = Some m" "zm_inv m" "placed c m" by (auto simp: collected_def ctrl_inv_def)
  have r: "recorded_in c = recorded m" by (simp add: recorded_in_def m(1))
  have "e \<in># recorded m" if "i < length (zones m)" "e \<in> set (extents (zones m ! i))" for i e
    using that by (auto simp: recorded_def in_sum_list_mset)
  with d m(2,3) show ?thesis
    by (auto simp: m(1) collected_def zm_inv_def zone_wf_def placed_def carries_def described_def r untallied_def)
qed

text \<open>C19. The number of extents a report shows for a file is the number of extents on the zoned device that
  the kernel reported for the files of that name, up to the length the tools keep of a name.\<close>

theorem file_counts_exact:
  assumes "collecting k log c" "log \<noteq> []"
  shows "get_file_extent_count g c = Inr (of_nat (logged_count c log g))"
proof -
  have d: "collected k log c" by (rule collecting_collected [OF assms(1)])
  with assms(2) obtain fm m where m: "file_counter_map c = Some fm" "zonemap c = Some m" "files_inv fm m"
    by (auto simp: collected_def ctrl_inv_def counters_def)
  have "image_mset digest (recorded m) = logged c log" using d by (simp add: collected_def recorded_in_def m(2))
  then have "size (extents_of_file m g) = logged_count c log g"
    by (simp add: extents_of_file_digest size_logged_file)
  with m(3) show ?thesis by (simp add: get_file_extent_count_table [OF m(1)] files_inv_def)
qed

text \<open>C9. The collection never gets stuck: in every state a tool can reach, a next file that the kernel
  describes and whose extents on the zoned device are in zones and segments that can be looked
  up is read with success, and the tool is in a state of the collection again, with the file in
  its log.\<close>

theorem collecting_progress:
  assumes "collecting k log c" "fiemap_serves k f st 0 es" "st_blocks st \<noteq> 0" "length es \<le> fuel"
    "length log + 1 < 2 ^ 32" "(\<Sum>(f, es)\<leftarrow>log. length es) + length es < 2 ^ 32"
    "\<forall>fe\<in>set es. accepted c fe \<longrightarrow> recordable k c (nr_map_zones c) (fe_block c fe)"
  shows "\<exists>c'. get_extents fuel k f st c = Inr (EXIT_SUCCESS, c') \<and> collecting k (log @ [(f, es)]) c'"
proof -
  have d: "collected k log c" by (rule collecting_collected [OF assms(1)])
  then have i: "ctrl_inv c" "unat (nr_files c) + 1 < 2 ^ 32" using assms(5) by (simp_all add: collected_def)
  have "image_mset digest (recorded_in c) = logged c log" using d by (simp add: collected_def)
  from arg_cong [OF this, of size] have "size (recorded_in c) = size (logged c log)" by simp
  with size_logged [of c log] assms(6) have "size (recorded_in c) + length es < 2 ^ 32" by linarith
  from get_extents_returns [OF i(1) assms(2-4) i(2) this assms(7)] obtain c' where
    c': "get_extents fuel k f st c = Inr (EXIT_SUCCESS, c')" ..
  from read_file [OF assms(1-6) c'] c' show ?thesis by blast
qed

end
