(* ===== verification/Sample_Directory.thy ===== *)
theory Sample_Directory
  imports Sample_F2fs Segmap_Directory Collecting
begin

text \<open>The statistics of the two files of \<open>/mnt\<close> on the machine with F2FS.\<close>

lemma recorded_names: "e_file ` set_mset (recorded m) = digest_file ` set_mset (image_mset digest (recorded m))"
  by (simp add: image_image digest_file_digest)

lemma tool_names:
  assumes "f2fs_ready c"
  shows "digest_file ` set_mset (\<Sum>g\<leftarrow>tree_files (sm_dir tool_dir) sample_tree. accepted_digests c (\<lambda>_. f2fs_extents) g) =
    {''/mnt/sub/b'', ''/mnt/a''}"
proof -
  have a: "filter (accepted c) f2fs_extents = f2fs_extents"
    using f2fs_accepted(1) [OF assms] by (simp add: list_all_iff)
  have "digest_file ` set_mset (accepted_digests c (\<lambda>_. f2fs_extents) g) = {strcpy_n MAX_FILE_LENGTH g}" for g
    unfolding accepted_digests_def a by (auto simp: image_image digest_file_fe f2fs_extents_def)
  moreover have "strcpy_n MAX_FILE_LENGTH ''/mnt/sub/b'' = ''/mnt/sub/b''" "strcpy_n MAX_FILE_LENGTH ''/mnt/a'' = ''/mnt/a''"
    by (simp_all add: strcpy_n_def MAX_FILE_LENGTH_def)
  ultimately show ?thesis unfolding tool_tree(1) by (simp add: image_Un) blast
qed


end
