(* ===== verification/Sample_Segmap.thy ===== *)
theory Sample_Segmap
  imports Sample_F2fs Collecting
begin

text \<open>
  \<open>zns.segmap\<close> on the sample machine: its options, its initialisation on Btrfs and on F2FS
  without a segment table, and the walk over a directory whose only file is gone; and a state in which a
  file has been read.
\<close>

section \<open>The command line and the directory\<close>

definition both_ranges :: "string list" where
  "both_ranges = [''-d'', ''/mnt'', ''-pz2'', ''-s'', ''1'']"

lemma both_ranges_options: "getopt segmap_optstring both_ranges =
    [(CHR ''d'', ''/mnt''), (CHR ''p'', []), (CHR ''z'', ''2''), (CHR ''s'', ''1'')]"
  by (simp add: both_ranges_def segmap_optstring_def is_option_def)

theorem segmap_main_rejects_witness:
  "(\<exists>e. \<forall>(J :: unit json_api) time k ds. segmap_main 1 J time k ds ''zns.segmap'' both_ranges = Inl (ErrExit e)) \<and>
   (\<forall>(J :: unit json_api) time k ds. segmap_main 1 J time k ds ''zns.segmap'' [''-x''] = Inl (HelpExit segmap_show_help))"
proof
  have "flags_rejected (getopt segmap_optstring both_ranges)" "all_known (getopt segmap_optstring both_ranges)"
    by (simp_all add: flags_rejected_def both_ranges_options known_option_def)
  with segmap_main_rejects [where 'j = unit and fuel = 1 and args = both_ranges and prog = "''zns.segmap''"]
  show "\<exists>e. \<forall>(J :: unit json_api) time k ds. segmap_main 1 J time k ds ''zns.segmap'' both_ranges = Inl (ErrExit e)"
    by auto
  have "getopt segmap_optstring [''-x''] = [(CHR ''?'', [])]" by (simp add: segmap_optstring_def is_option_def)
  then have "flags_rejected (getopt segmap_optstring [''-x''])" "\<not> all_known (getopt segmap_optstring [''-x''])"
    by (simp_all add: flags_rejected_def known_option_def)
  with segmap_main_rejects [where 'j = unit and fuel = 1 and args = "[''-x'']" and prog = "''zns.segmap''"]
  show "\<forall>(J :: unit json_api) time k ds. segmap_main 1 J time k ds ''zns.segmap'' [''-x''] = Inl (HelpExit segmap_show_help)"
    by auto
qed

definition mnt :: segmap_manager where
  "mnt = zero_segmap_manager\<lparr>sm_dir := ''/mnt'', sm_isdir := True\<rparr>"

definition gone_os :: os where
  "gone_os = sample_os\<lparr>os_open := \<lambda>p. False, os_access := \<lambda>p. False\<rparr>"

theorem collect_all_no_extents_witness:
  "\<exists>c. collect_all 1 gone_os (Some [Sub_dir ''.'' None, Sub_dir ''sub'' (Some [Plain ''a''])]) mnt sample_ctrl = Inr (False, c) \<and>
     \<not> os_open gone_os ''/mnt/sub/a'' \<and> \<not> os_access gone_os ''/mnt/sub/a''"
proof -
  let ?ds = "[Sub_dir ''.'' None, Sub_dir ''sub'' (Some [Plain ''a''])]"
  have d: "sm_dir mnt = ''/mnt''" "sm_isdir mnt" by (simp_all add: mnt_def)
  have "collect_file 1 gone_os f c = Inr (info 1 ''File no longer exists'' [S f] c)" for f c
    by (simp add: collect_file_def gone_os_def)
  then obtain c where c: "collect_all 1 gone_os (Some ?ds) mnt sample_ctrl = Inr (False, c)"
    by (simp add: collect_all_def collect_extents_def d) (simp add: sample_ctrl_def info_def msg_def)
  from collect_all_no_extents [OF c d(2)] c show ?thesis by (simp add: d)
qed

section \<open>Initialisation\<close>

definition one_file :: segmap_manager where
  "one_file = zero_segmap_manager\<lparr>sm_dir := ''f''\<rparr>"

theorem check_dir_establishes_witness:
  "\<exists>l sm c. check_dir_init_ctrl sample_os zero_f2fs_lib (one_file, sample_start) = Inr (l, sm, c) \<and>
     ctrl_inv c \<and> has_geometry c"
proof -
  have u: "unused sample_start" by (simp add: unused_def sample_start_def zero_control_def)
  have d: "sm_dir one_file = ''f''" by (simp add: one_file_def)
  have "info 1 ''is a file'' [S ''f''] sample_start = sample_start"
    by (simp add: info_def sample_start_def zero_control_def)
  moreover have "init_btrfs_ctrl sample_os ''f'' (sample_start\<lparr>fs_magic := BTRFS_MAGIC\<rparr>) = Inr sample_ctrl"
    using sample_init
    by (auto simp: init_ctrl_def set_fs_magic_def sample_calls F2FS_MAGIC_def BTRFS_MAGIC_def bind_res_Inr_iff)
  moreover have "\<not> st_isdir sample_stat" by (simp add: sample_stat_def)
  ultimately have "check_dir_init_ctrl sample_os zero_f2fs_lib (one_file, sample_start)
      = Inr (zero_f2fs_lib, one_file, sample_ctrl)"
    by (simp add: check_dir_init_ctrl_def d sample_calls set_fs_magic_def Let_def F2FS_MAGIC_def BTRFS_MAGIC_def)
  from this check_dir_establishes [OF this u] show ?thesis by (auto simp: sample_fields)
qed

text \<open>F2FS on a machine without a segment table.\<close>

theorem no_procfs_crash_witness:
  "\<exists>l sm c. check_dir_init_ctrl (f2fs_os (\<lambda>_ _ _. None) None) zero_f2fs_lib (one_file, sample_start) = Inr (l, sm, c) \<and>
     last (stdout c) = no_procfs_warning (dev_name (bdev c)) \<and> fs_manager c = None \<and> add_fs_info c zero_extent = Inl NullDeref"
proof -
  have "starting 0 sample_start" by (simp add: starting_def sample_start_def zero_control_def)
  from f2fs_os_check_dir [OF _ this] obtain l sm c where
    "check_dir_init_ctrl (f2fs_os (\<lambda>_ _ _. None) None) zero_f2fs_lib (one_file, sample_start) = Inr (l, sm, c)" by blast
  with no_procfs_crash [OF this] show ?thesis by (fastforce simp: f2fs_os_calls)
qed

section \<open>A file that has been read\<close>

lemma sample_collecting:
  "\<exists>c. collecting sample_os [(''f'', sample_extents)] c \<and> accepted c = accepted sample_ctrl"
proof -
  have n: "unat (nr_files sample_ctrl) + 1 < 2 ^ 32" "size (recorded_in sample_ctrl) + length sample_extents < 2 ^ 32"
    "length sample_extents \<le> 2"
    by (simp_all add: sample_fields sample_inv sample_length)
  obtain c where c: "get_extents 2 sample_os ''f'' sample_stat sample_ctrl = Inr (EXIT_SUCCESS, c)"
    using get_extents_returns [OF sample_inv(1) sample_serves sample_blocks n(3,1,2) sample_recordable] by blast
  have "collecting sample_os [] sample_ctrl"
    by (rule for_file [OF sample_init]) (simp_all add: sample_fields unused_def sample_start_def zero_control_def)
  from read_file [OF this sample_serves sample_blocks n(3) _ _ c]
  have "collecting sample_os [(''f'', sample_extents)] c" by (simp add: sample_length)
  moreover have "accepted c = accepted sample_ctrl"
    using same_setting_facts(1) [OF get_extents_setting [OF sample_inv(1) sample_serves sample_blocks n(3,1,2) c]] .
  ultimately show ?thesis by blast
qed

theorem collecting_invariant_witness:
  "\<exists>c m. collecting sample_os [(''f'', sample_extents)] c \<and> zonemap c = Some m \<and> size (recorded m) = 2"
proof -
  obtain c where c: "collecting sample_os [(''f'', sample_extents)] c" "accepted c = accepted sample_ctrl"
    using sample_collecting by blast
  from collecting_invariant [OF c(1)] obtain m where m: "zonemap c = Some m"
    "image_mset digest (recorded m) = logged c [(''f'', sample_extents)]" by blast
  have "size (recorded m) = 2"
    using arg_cong [OF m(2), of size] by (simp add: logged_def c(2) sample_filter sample_length del: mset_filter)
  with c(1) m(1) show ?thesis by blast
qed

theorem file_counts_exact_witness:
  "\<exists>c. collecting sample_os [(''f'', sample_extents)] c \<and> get_file_extent_count ''f'' c = Inr 2 \<and>
     get_file_extent_count ''g'' c = Inr 0"
proof -
  obtain c where c: "collecting sample_os [(''f'', sample_extents)] c" "accepted c = accepted sample_ctrl"
    using sample_collecting by blast
  have "logged_count c [(''f'', sample_extents)] ''f'' = 2" "logged_count c [(''f'', sample_extents)] ''g'' = 0"
    by (simp_all add: logged_count_def c(2) sample_filter sample_length strcpy_n_def MAX_FILE_LENGTH_def)
  with file_counts_exact [OF c(1), of "''f''"] file_counts_exact [OF c(1), of "''g''"] c(1)
  show ?thesis by auto
qed

theorem collecting_progress_witness:
  "\<exists>c'. get_extents 2 sample_os ''f'' sample_stat sample_ctrl = Inr (EXIT_SUCCESS, c') \<and>
     collecting sample_os ([] @ [(''f'', sample_extents)]) c'"
proof -
  have s: "collecting sample_os [] sample_ctrl"
    by (rule for_file [OF sample_init]) (simp_all add: sample_fields unused_def sample_start_def zero_control_def)
  have n: "length sample_extents \<le> 2" "length ([] :: collection_log) + 1 < 2 ^ 32"
    "(\<Sum>(f, es)\<leftarrow>([] :: collection_log). length es) + length sample_extents < 2 ^ 32"
    by (simp_all add: sample_length)
  show ?thesis by (rule collecting_progress [OF s sample_serves sample_blocks n sample_recordable])
qed

end
