(* ===== verification/Imap_Tool.thy ===== *)
theory Imap_Tool
  imports Imap
begin

text \<open>
  \<open>zns.imap\<close> from the command line to the report, for a file on F2FS; and the address at which the
  tool places an inode.
\<close>

section \<open>The steps\<close>

lemma imap_options_unused:
  "imap_option_list opts fc = Inr fc' \<Longrightarrow> unused (snd fc) \<Longrightarrow> unused (snd fc')"
proof (induction opts fc rule: imap_option_list.induct)
  case (2 o' arg rest name c)
  have u: "unused (c\<lparr>log_level := x\<rparr>)" "unused (c\<lparr>show_superblock := b\<rparr>)" "unused (c\<lparr>show_checkpoint := b\<rparr>)" for x b
    using "2.prems"(2) by (simp_all add: unused_def)
  show ?case using "2.prems" "2.IH" u by (auto split: if_splits)
qed simp

text \<open>Printing extends the output and leaves everything else alone.\<close>

definition outputs :: "out list \<Rightarrow> control \<Rightarrow> control \<Rightarrow> bool" where
  "outputs ls c c' \<longleftrightarrow> c' = c\<lparr>stdout := stdout c @ ls\<rparr>"

lemma outputs_id: "outputs [] c c"
  by (simp add: outputs_def)

lemma outputs_trans: "outputs ls c c' \<Longrightarrow> outputs ls' c' c'' \<Longrightarrow> outputs (ls @ ls') c c''"
  by (simp add: outputs_def)

lemma outputs_msg: "outputs [l] c (msg l c)"
  by (simp add: outputs_def msg_def)

lemma outputs_info: "\<exists>ls. outputs ls c (info n t a c)"
  by (auto simp: info_def intro: outputs_id outputs_msg)

lemma outputs_fold: "outputs ls c (fold msg ls c)"
proof (induction ls arbitrary: c)
  case (Cons l ls)
  from outputs_trans [OF outputs_msg Cons] show ?case by simp
qed (simp add: outputs_id)

lemma outputs_fields:
  assumes "outputs ls c c'"
  shows "zonemap c' = zonemap c" "znsdev c' = znsdev c" "bdev c' = bdev c" "sector_shift c' = sector_shift c"
    "zns_sector_shift c' = zns_sector_shift c" "show_checkpoint c' = show_checkpoint c" "stdout c' = stdout c @ ls"
  using assms by (simp_all add: outputs_def)

lemma fold_msg_fields:
  "show_checkpoint (fold msg ls c) = show_checkpoint c" "bdev (fold msg ls c) = bdev c" "znsdev (fold msg ls c) = znsdev c"
  by (rule outputs_fields [OF outputs_fold])+

lemma info_checkpoint: "show_checkpoint (info n t a c) = show_checkpoint c"
  by (simp add: info_def msg_def)

lemma outputs_zone:
  assumes "outputs ls c c'"
  shows "get_zone_number c' x = get_zone_number c x" "report_zone k z c' = report_zone k z c"
    "inode_lba c' b = inode_lba c b"
  using outputs_fields [OF assms] by (simp_all add: get_zone_number_def report_zone_def inode_lba_def)

lemma zone_info_outputs:
  assumes "report_zone k z c = Inr r"
  shows "\<exists>ls c'. print_zone_info k z c = Inr c' \<and> outputs ls c c'"
proof (cases r)
  case None
  with assms outputs_id show ?thesis by (auto simp: print_zone_info_def)
next
  case (Some zone)
  with assms outputs_msg show ?thesis by (simp add: print_zone_info_def) blast
qed

lemma imap_report_outputs:
  assumes "get_zone_number c (inode_lba c (ne_block_addr ne)) = Inr z" "report_zone k z c = Inr r"
  defines "lba \<equiv> inode_lba c (ne_block_addr ne)"
  shows "\<exists>mid post. \<exists>c'. imap_report k f ne node c = Inr c' \<and>
    outputs (Text ''INODE'' # Field ''located in zone'' [S f, N (unat (ne_ino ne)), N (unat z)] # mid @
      Field ''INODE'' [N (unat lba), N (unat (lba + F2FS_SECS_PER_BLOCK)), N (unat F2FS_SECS_PER_BLOCK), S f] #
      post @ f2fs_show_inode_info (inode_of node)) c c'"
proof -
  let ?loc = "Field ''located in zone'' [S f, N (unat (ne_ino ne)), N (unat z)]"
  let ?ino = "Field ''INODE'' [N (unat lba), N (unat (lba + F2FS_SECS_PER_BLOCK)), N (unat F2FS_SECS_PER_BLOCK), S f]"
  let ?foot = "map (\<lambda>f. Field f [N (unat (node_footer node f))]) [''nid'', ''ino'', ''flag'', ''next_blkaddr'']"
  let ?c1 = "msg ?loc (msg (Text ''INODE'') c)"
  have "report_zone k z ?c1 = Inr r" using assms(2) by (simp add: report_zone_def)
  then obtain mid c2 where z: "print_zone_info k z ?c1 = Inr c2" "outputs mid ?c1 c2"
    using zone_info_outputs by blast
  let ?c3 = "msg (Text ''INODE'') (fold (\<lambda>f. msg (Field f [N (unat (node_footer node f))]))
      [''nid'', ''ino'', ''flag'', ''next_blkaddr''] (msg (Text ''NODE FOOTER'') (msg ?ino c2)))"
  have "imap_report k f ne node c = Inr (fold msg (f2fs_show_inode_info (inode_of node)) ?c3)"
    using assms(1) z(1) by (simp add: imap_report_def lba_def Let_def)
  moreover have "outputs (?ino # (Text ''NODE FOOTER'' # ?foot @ [Text ''INODE'']) @ f2fs_show_inode_info (inode_of node))
      c2 (fold msg (f2fs_show_inode_info (inode_of node)) ?c3)"
    using outputs_fold [of "f2fs_show_inode_info (inode_of node)" ?c3] by (simp add: outputs_def msg_def)
  ultimately show ?thesis
    using outputs_trans [OF outputs_trans [OF outputs_trans [OF outputs_msg outputs_msg] z(2)]]
    by (intro exI [of _ mid] exI [of _ "Text ''NODE FOOTER'' # ?foot @ [Text ''INODE'']"]) fastforce
qed

text \<open>The lines about superblock and checkpoint, in front of the search.\<close>

definition checked :: "os \<Rightarrow> control \<Rightarrow> f2fs_lib \<Rightarrow> f2fs_lib \<Rightarrow> bool" where
  "checked k c l l' \<longleftrightarrow>
     (if show_checkpoint c then f2fs_read_checkpoint k (dev_path (bdev c)) l = Inr l' else l' = l)"

lemma imap_search_after:
  assumes "imap_option_list (getopt imap_optstring args) (None, zero_control) = Inr (Some f, c0)" "os_open k f" "os_stat k f = Some st"
    "init_ctrl k f st zero_f2fs_lib c0 = Inr (l, c1)" "checked k c1 l l1"
  shows "\<exists>ls c2. outputs ls c1 c2 \<and> imap_main fuel k args =
    bind_res (imap_search fuel k (dev_path (bdev c1)) (dev_path (znsdev c1)) (ucast (st_ino st)) l1)
      (\<lambda>(ne, node, l). bind_res (imap_report k f ne node c2) cleanup_ctrl)"
proof -
  let ?sb = "if show_superblock c1 then fold msg (f2fs_show_super_block (f2fs_sb l)) c1 else c1"
  let ?at = "info 1 ''ZNS address space in F2FS starting at'' [N (unat (offset ?sb))] ?sb"
  let ?main = "info 1 ''F2FS main area starting at''
    [N (unat (push_bit F2FS_BLKSIZE_BITS (ucast (sb32 l ''main_blkaddr'') :: u64)))] ?at"
  let ?cp = "if show_checkpoint c1 then fold msg (f2fs_show_checkpoint (f2fs_cp l1)) ?main else ?main"
  let ?c2 = "info 1 ''has inode number'' [S f, N (unat (st_ino st))] ?cp"
  have "\<exists>ls. outputs ls c1 ?sb" using outputs_id outputs_fold by auto
  then obtain a b where m: "outputs a c1 ?sb" "outputs b c1 ?main"
    using outputs_info outputs_trans by meson
  have "\<exists>ls. outputs ls c1 ?cp"
  proof (cases "show_checkpoint c1")
    case True
    with outputs_trans [OF m(2) outputs_fold] show ?thesis unfolding if_P [OF True] by blast
  next
    case False
    with m(2) show ?thesis unfolding if_not_P [OF False] by blast
  qed
  then obtain d where d: "outputs d c1 ?c2" using outputs_info outputs_trans by meson
  have "imap_main fuel k args =
    bind_res (imap_search fuel k (dev_path (bdev c1)) (dev_path (znsdev c1)) (ucast (st_ino st)) l1)
      (\<lambda>(ne, node, l). bind_res (imap_report k f ne node ?c2) cleanup_ctrl)"
    using assms(5) by (simp add: imap_main_def assms(1-4) checked_def Let_def fold_msg_fields info_checkpoint split: if_splits)
  with d show ?thesis by blast
qed

section \<open>Properties\<close>

text \<open>C7. \<open>zns.imap\<close> from the command line to the report: when a block of the inode is found behind NAT
  entries that name other nodes and its zone can be reported, the tool succeeds and prints the
  zone and the address of the first such block and, last, the fields of the inode in it.\<close>

theorem imap_main_locates:
  assumes "imap_option_list (getopt imap_optstring args) (None, zero_control) = Inr (Some f, c0)" "os_open k f" "os_stat k f = Some st"
    "init_ctrl k f st zero_f2fs_lib c0 = Inr (l, c1)" "fs_magic c1 = F2FS_MAGIC" "checked k c1 l l1"
    "nat_table k (dev_path (bdev c1)) l1 tbl blocks" "nat_pos l1 \<le> q" "q < blocks * NAT_ENTRY_PER_BLOCK"
    "names_inode k (dev_path (znsdev c1)) (ucast (st_ino st)) (tbl q) node"
    "\<forall>p\<in>{nat_pos l1..<q}. names_other_node k (dev_path (znsdev c1)) (ucast (st_ino st)) (tbl p)"
    "q < nat_pos l1 + fuel"
    "get_zone_number c1 (inode_lba c1 (ne_block_addr (tbl q))) = Inr z" "report_zone k z c1 = Inr r"
  defines "lba \<equiv> inode_lba c1 (ne_block_addr (tbl q))"
  shows "\<exists>c' pre mid post. imap_main fuel k args = Inr c' \<and>
    stdout c' = pre @ Field ''located in zone'' [S f, N (unat (ne_ino (tbl q))), N (unat z)] # mid @
      Field ''INODE'' [N (unat lba), N (unat (lba + F2FS_SECS_PER_BLOCK)), N (unat F2FS_SECS_PER_BLOCK), S f] #
      post @ f2fs_show_inode_info (inode_of node)"
proof -
  have "unused c0"
    using imap_options_unused [OF assms(1)] by (simp add: unused_def zero_control_def)
  then have "fresh_inv c1" using init_ctrl_fresh [OF assms(4)] assms(5) by blast
  then obtain m where m: "zonemap c1 = Some m" by (auto simp: fresh_inv_def ctrl_inv_def)
  obtain ls c2 where c2: "outputs ls c1 c2" "imap_main fuel k args =
    bind_res (imap_search fuel k (dev_path (bdev c1)) (dev_path (znsdev c1)) (ucast (st_ino st)) l1)
      (\<lambda>(ne, node, l). bind_res (imap_report k f ne node c2) cleanup_ctrl)"
    using imap_search_after [OF assms(1-4,6)] by blast
  note pz = outputs_zone [OF c2(1)]
  have "get_zone_number c2 (inode_lba c2 (ne_block_addr (tbl q))) = Inr z" "report_zone k z c2 = Inr r"
    using assms(13,14) by (simp_all add: pz)
  from imap_report_outputs [OF this, of f node] obtain mid post c3 where c3: "imap_report k f (tbl q) node c2 = Inr c3"
    "outputs (Text ''INODE'' # Field ''located in zone'' [S f, N (unat (ne_ino (tbl q))), N (unat z)] # mid @
      Field ''INODE'' [N (unat lba), N (unat (lba + F2FS_SECS_PER_BLOCK)), N (unat F2FS_SECS_PER_BLOCK), S f] #
      post @ f2fs_show_inode_info (inode_of node)) c2 c3"
    unfolding pz lba_def by blast
  have s: "imap_search fuel k (dev_path (bdev c1)) (dev_path (znsdev c1)) (ucast (st_ino st)) l1
      = Inr (tbl q, node, seek (q + 1) l1)"
    by (rule imap_search_finds_first [OF assms(7-12)])
  have "zonemap c3 = Some m" using outputs_fields(1) [OF c3(2)] outputs_fields(1) [OF c2(1)] m by simp
  then obtain c' where c': "cleanup_ctrl c3 = Inr c'" "stdout c' = stdout c3" by (simp add: cleanup_ctrl_def)
  have "imap_main fuel k args = Inr c'" by (simp add: c2(2) s c3(1) c'(1))
  moreover have "stdout c' = (stdout c1 @ ls @ [Text ''INODE'']) @
      Field ''located in zone'' [S f, N (unat (ne_ino (tbl q))), N (unat z)] # mid @
      Field ''INODE'' [N (unat lba), N (unat (lba + F2FS_SECS_PER_BLOCK)), N (unat F2FS_SECS_PER_BLOCK), S f] #
      post @ f2fs_show_inode_info (inode_of node)"
    using outputs_fields(7) [OF c3(2)] outputs_fields(7) [OF c2(1)] c'(2) by simp
  ultimately show ?thesis by blast
qed

text \<open>C35. The address the tool prints for an inode is the block address in sectors exactly for blocks in the
  first 4 GiB: the shift to bytes is done in 32 bits.\<close>

theorem inode_lba_exact:
  assumes "unat (sector_shift c) \<le> 12"
  shows "unat (inode_lba c b) = unat b * 2 ^ (12 - unat (sector_shift c)) \<longleftrightarrow> unat b < 2 ^ 20"
proof -
  let ?s = "unat (sector_shift c)"
  have v: "unat (inode_lba c b) = unat b * 2 ^ 12 mod 2 ^ 32 div 2 ^ ?s"
    by (simp add: inode_lba_def unat_ucast_up unat_drop_bit_div unat_push_bit_mod F2FS_BLKSIZE_BITS_def)
  have p: "(2::nat) ^ 12 = 2 ^ (12 - ?s) * 2 ^ ?s" using assms by (simp flip: power_add)
  show ?thesis
  proof
    assume "unat b < 2 ^ 20"
    then have "unat b * 2 ^ 12 mod 2 ^ 32 = unat b * 2 ^ (12 - ?s) * 2 ^ ?s" using p by simp
    then show "unat (inode_lba c b) = unat b * 2 ^ (12 - ?s)" by (simp add: v)
  next
    assume a: "unat (inode_lba c b) = unat b * 2 ^ (12 - ?s)"
    have "unat b * 2 ^ 12 mod 2 ^ 32 div 2 ^ ?s * 2 ^ ?s \<le> unat b * 2 ^ 12 mod 2 ^ 32"
      by (rule div_times_less_eq_dividend)
    also have "\<dots> < 2 ^ 32" by simp
    finally have "unat b * 2 ^ 12 < 2 ^ 32" using a p by (simp add: v mult.assoc)
    then show "unat b < 2 ^ 20" by simp
  qed
qed

end
