(* ===== verification/Sample_Imap.thy ===== *)
theory Sample_Imap
  imports Sample_F2fs Imap_Tool
begin

text \<open>
  \<open>zns.imap\<close> on the machine with F2FS: its NAT has an entry for the inode in the fourth place, and
  the block that the entry names holds a node whose footer says that it is the inode.
\<close>

definition nat_bytes :: "u8 list" where
  "nat_bytes = replicate 28 0 @ [7, 0, 0, 0, 5, 0, 0, 0] @ replicate 4060 0"

definition node_bytes :: "u8 list" where
  "node_bytes = replicate 4072 0 @ [7, 0, 0, 0, 7, 0, 0, 0] @ replicate 16 0"

definition node_os :: os where
  "node_os = f2fs_os (\<lambda>p off n. if off = 0x2000 then Some (take n nat_bytes)
     else if off = 0x5000 then Some (take n node_bytes) else None) None"

definition loaded :: f2fs_lib where
  "loaded = zero_f2fs_lib\<lparr>f2fs_sb := f2fs_super\<rparr>"

lemma loaded_fields:
  "sb32 loaded ''nat_blkaddr'' = 2" "nat_blocks loaded = 1" "nat_block_offset loaded = 0" "nat_entry_offset loaded = 0"
  by (simp_all add: loaded_def nat_blocks_def fld_def layout_defs field_bytes_def f2fs_super_def take_Cons' zero_f2fs_lib_def)

definition nat_entries :: "nat \<Rightarrow> f2fs_nat_entry" where
  "nat_entries i = nat_entry_at nat_bytes i"

lemma nat_entries:
  "ne_ino (nat_entries 0) = 0" "ne_ino (nat_entries 1) = 0" "ne_ino (nat_entries 2) = 0"
  "nat_entries 3 = \<lparr>ne_version = 0, ne_ino = 7, ne_block_addr = 5\<rparr>"
  by (simp_all add: nat_entries_def nat_entry_at_def nat_bytes_def layout_defs layout_size_def fld_def field_bytes_def take_Cons')

lemma nat_bytes_length: "length nat_bytes = 4096" "length node_bytes = 4096" "BLOCK_SZ = 4096"
  by (simp_all add: nat_bytes_def node_bytes_def BLOCK_SZ_def)

lemma node_os_calls:
  "os_open node_os p" "os_stat node_os p = Some (sample_stat\<lparr>st_isdir := (p = ''/mnt'')\<rparr>)"
  "os_statfs node_os p = Some F2FS_MAGIC" "os_read node_os p 0x2000 n = Some (take n nat_bytes)"
  "os_read node_os p 0x5000 n = Some (take n node_bytes)"
  by (simp_all add: node_os_def f2fs_os_calls F2FS_SUPER_OFFSET_def)

lemma loaded_table: "nat_table node_os p loaded nat_entries 1"
proof -
  have "nat_block_addr loaded 0 = 0x2000"
    by (simp add: nat_block_addr_def cur_nat_blkaddress_def loaded_fields F2FS_BLKSIZE_BITS_def)
  then show ?thesis
    by (simp add: nat_table_def nat_holds_def node_os_calls nat_bytes_length loaded_fields nat_entries_def NAT_ENTRY_PER_BLOCK_def)
qed

lemma loaded_node: "names_inode node_os p 7 (nat_entries 3) node_bytes"
proof -
  have s: "layout_size f2fs_node_layout = 4096" by (simp add: layout_defs layout_size_def field_bytes_def)
  have "f2fs_get_node_block node_os p 5 = Inr node_bytes"
    by (simp add: f2fs_get_node_block_def f2fs_read_block_def node_os_calls s F2FS_BLKSIZE_BITS_def nat_bytes_length)
  moreover have "IS_INODE node_bytes"
    by (simp add: IS_INODE_def node_footer_def node_bytes_def layout_defs layout_size_def fld_def field_bytes_def take_Cons')
  ultimately show ?thesis by (simp add: names_inode_def nat_entries)
qed

section \<open>The tool\<close>

lemma node_os_init:
  obtains c1 where "init_ctrl node_os ''f'' (sample_stat\<lparr>st_isdir := False\<rparr>) zero_f2fs_lib zero_control = Inr (loaded, c1)"
    "fs_magic c1 = F2FS_MAGIC" "show_checkpoint c1 = False" "device_ready 0 c1" "b_zone_size (znsdev c1) = 8192"
proof -
  have "starting 0 (zero_control\<lparr>fs_magic := F2FS_MAGIC\<rparr>)" by (simp add: starting_def zero_control_def)
  from f2fs_os_f2fs_ctrl [OF this, where ls = None and d = False, folded loaded_def]
  obtain c1 where c1: "init_f2fs_ctrl node_os (sample_stat\<lparr>st_isdir := False\<rparr>) zero_f2fs_lib
      (zero_control\<lparr>fs_magic := F2FS_MAGIC\<rparr>) = Inr (loaded, c1)" "device_ready 0 c1" "b_zone_size (znsdev c1) = 8192"
    unfolding node_os_def by (auto simp: yields_def)
  have "fs_magic c1 = F2FS_MAGIC"
    using init_f2fs_ctrl_options [OF c1(1)] by (simp add: run_options_def)
  moreover have "show_checkpoint c1 = False" using c1(2) by (simp add: device_ready_def starting_def)
  ultimately show ?thesis using that c1 by (simp add: init_ctrl_def set_fs_magic_def node_os_calls)
qed

theorem imap_main_locates_witness:
  "\<exists>c' pre mid post. imap_main 4 node_os [''-f'', ''f''] = Inr c' \<and>
     stdout c' = pre @ Field ''located in zone'' [S ''f'', N 7, N 0] # mid @
       Field ''INODE'' [N 40, N 49, N 9, S ''f''] # post @ f2fs_show_inode_info (inode_of node_bytes)"
proof -
  obtain c1 where c1: "init_ctrl node_os ''f'' (sample_stat\<lparr>st_isdir := False\<rparr>) zero_f2fs_lib zero_control = Inr (loaded, c1)"
    "fs_magic c1 = F2FS_MAGIC" "show_checkpoint c1 = False" "device_ready 0 c1" "b_zone_size (znsdev c1) = 8192"
    by (rule node_os_init)
  have o: "imap_option_list (getopt imap_optstring [''-f'', ''f'']) (None, zero_control) = Inr (Some ''f'', zero_control)"
    by (simp add: imap_optstring_def is_option_def)
  have st: "os_stat node_os ''f'' = Some (sample_stat\<lparr>st_isdir := False\<rparr>)" by (simp add: node_os_calls)
  have ino: "ucast (st_ino (sample_stat\<lparr>st_isdir := False\<rparr>)) = (7 :: u32)" by (simp add: sample_stat_def)
  have ck: "checked node_os c1 loaded loaded" using c1(3) by (simp add: checked_def)
  have pos: "nat_pos loaded = 0" by (simp add: nat_pos_def loaded_fields)
  have other: "\<forall>p\<in>{nat_pos loaded..<3}. names_other_node node_os q 7 (nat_entries p)" for q
  proof
    fix p assume "p \<in> {nat_pos loaded..<3}"
    then consider "p = 0" | "p = 1" | "p = 2" by (fastforce simp: pos)
    then show "names_other_node node_os q 7 (nat_entries p)"
      by cases (simp_all add: names_other_node_def nat_entries(1) nat_entries(2) nat_entries(3) del: One_nat_def)
  qed
  note d = c1(4) [unfolded device_ready_def starting_def]
  have lba: "inode_lba c1 (ne_block_addr (nat_entries 3)) = 40"
    using d by (simp add: inode_lba_def nat_entries F2FS_BLKSIZE_BITS_def)
  have z: "get_zone_number c1 (inode_lba c1 (ne_block_addr (nat_entries 3))) = Inr 0" unfolding lba
    using d c1(5) by (simp add: get_zone_number_def)
  obtain r where r: "report_zone node_os 0 c1 = Inr r"
    by (simp add: report_zone_def node_os_def f2fs_os_calls Let_def)
  from imap_main_locates [OF o node_os_calls(1) st c1(1,2) ck loaded_table _ _ loaded_node [folded ino] other [folded ino] _ z r,
      of 4, unfolded lba]
  show ?thesis by (simp add: pos nat_entries NAT_ENTRY_PER_BLOCK_def F2FS_SECS_PER_BLOCK_def)
qed

theorem inode_lba_exact_witness:
  "\<exists>c. sector_shift c = 9 \<and> unat (inode_lba c 0xFFFFF) = 0xFFFFF * 8 \<and> unat (inode_lba c 0x100000) \<noteq> 0x100000 * 8"
proof -
  let ?c = "zero_control\<lparr>sector_shift := 9\<rparr>"
  have "unat (sector_shift ?c) \<le> 12" by simp
  from inode_lba_exact [OF this, of "0xFFFFF"] inode_lba_exact [OF this, of "0x100000"] show ?thesis
    by (intro exI [of _ ?c]) simp
qed

end
