(* ===== verification/Sample_Json.thy ===== *)
theory Sample_Json
  imports Sample_Reports Sample_F2fs
begin

text \<open>
  The JSON dump of a control structure with one extent over four segments recorded in zone 1.
\<close>

definition json_ctrl :: "u32 \<Rightarrow> control" where
  "json_ctrl start = (long_ctrl start)\<lparr>fs_magic := F2FS_MAGIC\<rparr>"

lemma json_ctrl_fields:
  "fs_magic (json_ctrl start) = F2FS_MAGIC" "zonemap (json_ctrl start) = Some long_map"
  "start_blk (json_ctrl start) e = start_blk (long_ctrl start) e"
  "report_start_lba (json_ctrl start) = report_start_lba (long_ctrl start)"
  "report_end_lba (json_ctrl start) = report_end_lba (long_ctrl start)"
  "segment_shift (json_ctrl start) = 12"
  by (simp_all add: json_ctrl_def long_setting start_blk_def segment_id_of_def report_start_lba_def report_end_lba_def)

lemma json_ctrl_inv: "ctrl_inv (json_ctrl start)" "has_geometry (json_ctrl start)"
proof -
  have "placed (json_ctrl start) long_map"
    using long_placed [of start] by (simp add: placed_def get_zone_number_def json_ctrl_def)
  moreover have "counters (json_ctrl start) = counters (long_ctrl start)" "nr_files (json_ctrl start) = nr_files (long_ctrl start)"
    by (simp_all add: counters_def json_ctrl_def)
  ultimately show "ctrl_inv (json_ctrl start)"
    using long_inv [of start] by (simp add: ctrl_inv_def json_ctrl_fields long_setting)
  show "has_geometry (json_ctrl start)"
    using sample_geometry by (simp add: has_geometry_def set_geometry_def Let_def json_ctrl_def long_ctrl_def)
qed

theorem json_dump_returns_witness:
  "\<exists>objs c. json_dump_data 6 tree_json 0 sample_os (json_ctrl 1) =
      Inr (json_add (init_json_file tree_json 0 (json_ctrl 1)) ''zonemap'' (js_fields tree_json objs (JObj [])), c) \<and>
    map fst objs = [''1'']"
proof -
  have d: "\<forall>e\<in>#recorded long_map. dumpable 5 (json_ctrl 1) e"
    by (simp add: long_recorded dumpable_def in_span_def json_ctrl_fields long_report_values long_extent_fields long_extent_cut
        end_seg_def seg_blocks_def)
  have z: "\<forall>z\<in>set (zones long_map). length (extents z) + 5 \<le> 6" by (simp add: long_map_def empty_zone_def)
  have r: "\<forall>i<length (zones long_map). \<exists>r. report_zone sample_os (of_nat i) (json_ctrl 1) = Inr r"
    by (simp add: report_zone_def sample_os_def Let_def)
  have n: "recorded long_map \<noteq> {#}" "(5 :: nat) < 2 ^ 31" "\<forall>ob. js_to_file tree_json (json_file (json_ctrl 1)) ob \<noteq> 1"
    by (simp_all add: long_recorded tree_json_def)
  have "uint32_to_string_cast 1 = ''1''" by code_simp
  then have k: "zone_keys long_map [0..<length (zones long_map)] = [''1'']"
    by (simp add: zone_keys_def long_zones upt_rec) (simp add: long_map_def empty_zone_def)
  have j: "js_add tree_json = json_add" "js_object tree_json = JObj []" by (simp_all add: tree_json_def)
  from json_dump_returns [OF json_ctrl_inv [of 1] json_ctrl_fields(1,2) n(1) d n(2) z r n(3), of 0]
  show ?thesis unfolding k j by auto
qed

text \<open>Zone 3 is the start zone, with and without \<open>-j\<close>.\<close>

theorem segmap_report_spins_witness:
  "\<forall>fuel dump. segmap_report fuel tree_json 0 sample_os zero_segmap_manager ((json_ctrl 3)\<lparr>json_dump := dump\<rparr>) = Inl OutOfFuel"
proof (intro allI)
  fix fuel dump
  let ?c = "(json_ctrl 3)\<lparr>json_dump := dump\<rparr>"
  have f: "fs_magic ?c = F2FS_MAGIC" "zonemap ?c = Some long_map" "start_blk ?c e = start_blk (json_ctrl 3) e"
    "report_start_lba ?c = report_start_lba (json_ctrl 3)" "report_end_lba ?c = report_end_lba (json_ctrl 3)" for e
    by (simp_all add: json_ctrl_fields start_blk_def segment_id_of_def report_start_lba_def report_end_lba_def)
  have "start_blk ?c long_extent < report_start_lba ?c" "start_blk ?c long_extent < report_end_lba ?c"
    by (simp_all add: f json_ctrl_fields long_report_values)
  with segmap_report_spins [OF f(1,2), of 1 long_extent "[]"] long_zones
  show "segmap_report fuel tree_json 0 sample_os zero_segmap_manager ?c = Inl OutOfFuel" by simp
qed

text \<open>
  An extent inside segment 2, dumped when one extent was left over from segment 1.
\<close>

definition short_extent :: extent where
  "short_extent = long_extent\<lparr>e_len := 100\<rparr>"

definition left_dump :: "json dump_state" where
  "left_dump = \<lparr>d_current_zone = 0, d_curseg = JObj [], d_curseg_extents = JArr [JNull], d_curseg_id = 1,
     d_zone_segments = JObj [], d_cur_segment = 1\<rparr>"

lemma short_extent_single: "is_single (long_ctrl 1) short_extent" "segment_id_of (long_ctrl 1) (phy_blk short_extent) = 2"
  "start_blk (long_ctrl 1) short_extent = 8192"
  by (simp_all add: is_single_def segment_id_of_def start_blk_def long_setting short_extent_def long_extent_fields)

lemma short_extent_dumped: "\<exists>d. json_dump_extents 1 J (long_ctrl 1) [short_extent] d0 = Inr d"
proof -
  have n: "\<exists>n. get_file_extent_count (e_file short_extent) (long_ctrl 1) = Inr n"
    by (simp add: get_file_extent_count_view ext_view_def long_ctrl_def)
  then have x: "\<exists>x. json_get_extent_info J (long_ctrl 1) short_extent = Inr x"
    by (auto simp: json_get_extent_info_def json_extent_def)
  have "fs_info short_extent \<noteq> None" by (simp add: short_extent_def long_extent_fields)
  then have g: "\<exists>d. json_change_segment J (long_ctrl 1) short_extent 2 s = Inr d" for s
    by (auto simp: json_change_segment_def json_get_segment_info_def Let_def)
  have "\<exists>d. json_dump_extent 0 J (long_ctrl 1) short_extent d0 = Inr d"
    using g x by (fastforce simp: json_dump_extent_def short_extent_single Let_def bind_res_Inr_iff)
  then show ?thesis by (auto simp: short_extent_single long_report_values)
qed

theorem json_last_segment_missing_witness:
  "\<exists>d. json_dump_extents 1 tree_json (long_ctrl 1) [short_extent] left_dump = Inr d \<and>
     d_zone_segments d = JObj [(''2'', JObj [(''extents'', JArr [JNull])])]"
proof -
  from short_extent_dumped obtain d where d: "json_dump_extents 1 tree_json (long_ctrl 1) [short_extent] left_dump = Inr d"
    by blast
  have s: "\<forall>e\<in>set [short_extent]. is_single (long_ctrl 1) e \<and> segment_id_of (long_ctrl 1) (phy_blk e) = 2"
    by (simp add: short_extent_single)
  have "uint32_to_string_cast 2 = ''2''" by code_simp
  moreover have "unat (2 :: u64) < 2 ^ 32" by simp
  ultimately show ?thesis
    using json_last_segment_missing [OF d s] d
    by (simp add: short_extent_single long_report_values left_dump_def tree_json_def)
qed

end
