(* ===== verification/Node_Image.thy ===== *)
theory Node_Image
  imports Imap
begin

text \<open>
  A node block byte by byte, in the order \<open>include/f2fs.h\<close> declares \<open>struct f2fs_inode\<close> and
  \<open>struct node_footer\<close>, and what \<open>zns.imap\<close> reads and prints of it.
\<close>

section \<open>The bytes of a node block\<close>

record node_image =
  im_mode :: u16
  im_advise :: u8
  im_inline :: u8
  im_uid :: u32
  im_gid :: u32
  im_links :: u32
  im_size :: u64
  im_blocks :: u64
  im_atime :: u64
  im_ctime :: u64
  im_mtime :: u64
  im_atime_nsec :: u32
  im_ctime_nsec :: u32
  im_mtime_nsec :: u32
  im_generation :: u32
  im_current_depth :: u32
  im_xattr_nid :: u32
  im_flags :: u32
  im_pino :: u32
  im_namelen :: u32
  im_name :: "u8 list"
  im_dir_level :: u8
  im_ext :: "u32 list"
  im_addr :: "u32 list"
  im_nid :: "u32 list"
  nf_nid :: u32
  nf_ino :: u32
  nf_flag :: u32
  nf_cp_ver :: u64
  nf_next :: u32

definition le16 :: "u16 \<Rightarrow> u8 list" where "le16 v = le_bytes 2 (unat v)"
definition le32 :: "u32 \<Rightarrow> u8 list" where "le32 v = le_bytes 4 (unat v)"
definition le64 :: "u64 \<Rightarrow> u8 list" where "le64 v = le_bytes 8 (unat v)"

definition inode_bytes :: "node_image \<Rightarrow> u8 list" where
  "inode_bytes n = le16 (im_mode n) @ [im_advise n, im_inline n]
     @ le32 (im_uid n) @ le32 (im_gid n) @ le32 (im_links n) @ le64 (im_size n) @ le64 (im_blocks n)
     @ le64 (im_atime n) @ le64 (im_ctime n) @ le64 (im_mtime n)
     @ le32 (im_atime_nsec n) @ le32 (im_ctime_nsec n) @ le32 (im_mtime_nsec n) @ le32 (im_generation n)
     @ le32 (im_current_depth n) @ le32 (im_xattr_nid n) @ le32 (im_flags n) @ le32 (im_pino n) @ le32 (im_namelen n)
     @ im_name n @ [im_dir_level n] @ concat (map le32 (im_ext n)) @ concat (map le32 (im_addr n)) @ concat (map le32 (im_nid n))"

definition footer_bytes :: "node_image \<Rightarrow> u8 list" where
  "footer_bytes n = le32 (nf_nid n) @ le32 (nf_ino n) @ le32 (nf_flag n) @ le64 (nf_cp_ver n) @ le32 (nf_next n)"

definition node_bytes_of :: "node_image \<Rightarrow> u8 list" where
  "node_bytes_of n = inode_bytes n @ footer_bytes n"

text \<open>The arrays have the lengths of the declarations, and the name is terminated.\<close>

definition well_formed_image :: "node_image \<Rightarrow> bool" where
  "well_formed_image n \<longleftrightarrow> length (im_name n) = 255 \<and> 0 \<in> set (im_name n) \<and> length (im_ext n) = 3 \<and>
     length (im_addr n) = 923 \<and> length (im_nid n) = 5"

section \<open>Reading it\<close>

definition inode_values :: "node_image \<Rightarrow> nat list list" where
  "inode_values n = [[unat (im_mode n)], [unat (im_advise n)], [unat (im_inline n)], [unat (im_uid n)],
     [unat (im_gid n)], [unat (im_links n)], [unat (im_size n)], [unat (im_blocks n)],
     [unat (im_atime n)], [unat (im_ctime n)], [unat (im_mtime n)], [unat (im_atime_nsec n)],
     [unat (im_ctime_nsec n)], [unat (im_mtime_nsec n)], [unat (im_generation n)],
     [unat (im_current_depth n)], [unat (im_xattr_nid n)], [unat (im_flags n)],
     [unat (im_pino n)], [unat (im_namelen n)], map unat (im_name n), [unat (im_dir_level n)],
     [le_nat (concat (map le32 (im_ext n)))], map unat (im_addr n), map unat (im_nid n)]"

definition footer_values :: "node_image \<Rightarrow> nat list list" where
  "footer_values n = [[unat (nf_nid n)], [unat (nf_ino n)], [unat (nf_flag n)], [unat (nf_cp_ver n)], [unat (nf_next n)]]"

lemma le_bytes_one: "le_bytes (Suc 0) (unat (b :: u8)) = [b]"
proof -
  have "unat b < 256" using unsigned_less [of b, where 'a = nat] by simp
  then show ?thesis by simp
qed

lemma concat_le_bytes_one: "concat (map (le_bytes (Suc 0)) (map unat bs)) = (bs :: u8 list)"
  by (induction bs) (simp_all only: list.map concat.simps le_bytes_one append.simps)

lemma length_le32s: "length (concat (map le32 xs)) = 4 * length xs"
  by (induction xs) (simp_all add: le32_def)

lemma word_sizes:
  "unat (a :: u8) < 256" "unat (b :: u16) < 65536" "unat (c :: u32) < 4294967296" "unat (d :: u64) < 18446744073709551616"
  using unsigned_less [of a, where 'a = nat] unsigned_less [of b, where 'a = nat]
    unsigned_less [of c, where 'a = nat] unsigned_less [of d, where 'a = nat] by simp_all

lemma footer_bytes_encode: "footer_bytes n = encode_fields node_footer_layout (footer_values n)"
  by (simp add: footer_bytes_def footer_values_def node_footer_layout_def le32_def le64_def del: le_bytes.simps)

lemma footer_fits: "fits node_footer_layout (footer_values n)"
  by (simp add: fits_def footer_values_def node_footer_layout_def word_sizes)

lemma inode_bytes_encode:
  assumes "well_formed_image n"
  shows "inode_bytes n = encode_fields f2fs_inode_layout (inode_values n)"
proof -
  have e: "le_bytes 12 (le_nat (concat (map le32 (im_ext n)))) = concat (map le32 (im_ext n))"
    using le_bytes_nat [of "concat (map le32 (im_ext n))"] assms by (simp add: well_formed_image_def length_le32s)
  have l: "concat (map (le_bytes 4 \<circ> unat) xs) = concat (map le32 xs)" for xs :: "u32 list"
    by (simp add: le32_def [abs_def] o_def)
  show ?thesis
    by (simp add: inode_bytes_def inode_values_def f2fs_inode_layout_def f2fs_extent_layout_def layout_size_def field_bytes_def
        e l concat_le_bytes_one [simplified] le_bytes_one le16_def le32_def le64_def del: le_bytes.simps)
qed

lemma inode_fits:
  assumes "well_formed_image n"
  shows "fits f2fs_inode_layout (inode_values n)"
proof -
  have "le_nat (concat (map le32 (im_ext n))) < 256 ^ 12"
    using le_nat_less [of "concat (map le32 (im_ext n))"] assms by (simp add: well_formed_image_def length_le32s)
  with assms show ?thesis
    by (simp add: fits_def inode_values_def f2fs_inode_layout_def f2fs_extent_layout_def layout_size_def field_bytes_def
        word_sizes well_formed_image_def)
qed

lemma footer_read:
  "fld node_footer_layout ''nid'' 0 (footer_bytes n) = unat (nf_nid n)"
  "fld node_footer_layout ''ino'' 0 (footer_bytes n) = unat (nf_ino n)"
  "fld node_footer_layout ''flag'' 0 (footer_bytes n) = unat (nf_flag n)"
  "fld node_footer_layout ''next_blkaddr'' 0 (footer_bytes n) = unat (nf_next n)"
proof -
  have d: "distinct (map fst node_footer_layout)" by (simp add: node_footer_layout_def)
  note F = fld_encode_fields [OF footer_fits d, where rest = "[]", simplified append_Nil2, folded footer_bytes_encode]
  show "fld node_footer_layout ''nid'' 0 (footer_bytes n) = unat (nf_nid n)"
    "fld node_footer_layout ''ino'' 0 (footer_bytes n) = unat (nf_ino n)"
    "fld node_footer_layout ''flag'' 0 (footer_bytes n) = unat (nf_flag n)"
    "fld node_footer_layout ''next_blkaddr'' 0 (footer_bytes n) = unat (nf_next n)"
    using F [of 0 0] F [of 1 0] F [of 2 0] F [of 4 0] by (simp_all add: node_footer_layout_def footer_values_def)
qed

text \<open>The numbers of the inode, in the order of the structure.\<close>

definition inode_numbers :: "node_image \<Rightarrow> (string \<times> nat) list" where
  "inode_numbers n =
    [(''i_mode'', unat (im_mode n)), (''i_advise'', unat (im_advise n)), (''i_inline'', unat (im_inline n)),
     (''i_uid'', unat (im_uid n)), (''i_gid'', unat (im_gid n)), (''i_links'', unat (im_links n)),
     (''i_size'', unat (im_size n)), (''i_blocks'', unat (im_blocks n)), (''i_atime'', unat (im_atime n)),
     (''i_ctime'', unat (im_ctime n)), (''i_mtime'', unat (im_mtime n)), (''i_atime_nsec'', unat (im_atime_nsec n)),
     (''i_ctime_nsec'', unat (im_ctime_nsec n)), (''i_mtime_nsec'', unat (im_mtime_nsec n)),
     (''i_generation'', unat (im_generation n)), (''i_current_depth'', unat (im_current_depth n)),
     (''i_xattr_nid'', unat (im_xattr_nid n)), (''i_flags'', unat (im_flags n)), (''i_pino'', unat (im_pino n)),
     (''i_namelen'', unat (im_namelen n))]"

lemma inode_read:
  assumes "well_formed_image n"
  shows "list_all (\<lambda>(f, v). fld f2fs_inode_layout f 0 (inode_bytes n) = v) (inode_numbers n)"
    "fld f2fs_inode_layout ''i_dir_level'' 0 (inode_bytes n) = unat (im_dir_level n)"
    "i < 5 \<Longrightarrow> fld f2fs_inode_layout ''i_nid'' i (inode_bytes n) = unat (im_nid n ! i)"
proof -
  have d: "distinct (map fst f2fs_inode_layout)" by (simp add: f2fs_inode_layout_def)
  note F = fld_encode_fields [OF inode_fits [OF assms] d, where rest = "[]", simplified append_Nil2, folded inode_bytes_encode [OF assms]]
  have l: "length f2fs_inode_layout = 25" by (simp add: f2fs_inode_layout_def)
  have N: "fst (inode_numbers n ! j) = fst (f2fs_inode_layout ! j) \<and> inode_values n ! j = [snd (inode_numbers n ! j)]"
    if "j < 20" for j
  proof -
    have "\<forall>j\<in>{..<20}. fst (inode_numbers n ! j) = fst (f2fs_inode_layout ! j) \<and> inode_values n ! j = [snd (inode_numbers n ! j)]"
      by (simp add: lessThan_nat_numeral inode_numbers_def inode_values_def f2fs_inode_layout_def)
    with that show ?thesis by simp
  qed
  have "fld f2fs_inode_layout (fst (inode_numbers n ! j)) 0 (inode_bytes n) = snd (inode_numbers n ! j)" if "j < 20" for j
    using F [of j 0] N [OF that] that by (simp add: l)
  moreover have "length (inode_numbers n) = 20" by (simp add: inode_numbers_def)
  ultimately show "list_all (\<lambda>(f, v). fld f2fs_inode_layout f 0 (inode_bytes n) = v) (inode_numbers n)"
    by (simp add: list_all_length split_def)
  show "fld f2fs_inode_layout ''i_dir_level'' 0 (inode_bytes n) = unat (im_dir_level n)"
    using F [of 21 0] by (simp add: f2fs_inode_layout_def inode_values_def)
  show "i < 5 \<Longrightarrow> fld f2fs_inode_layout ''i_nid'' i (inode_bytes n) = unat (im_nid n ! i)"
    using F [of 24 i] assms by (simp add: f2fs_inode_layout_def inode_values_def well_formed_image_def)
qed

lemma cstring_terminated: "0 \<in> set xs \<Longrightarrow> cstring (xs @ ys) = cstring xs"
  by (simp add: cstring_append)

lemma inode_name_read:
  assumes "well_formed_image n"
  shows "cstring (drop (field_off f2fs_inode_layout ''i_name'') (inode_bytes n)) = cstring (im_name n)"
proof -
  have o: "field_off f2fs_inode_layout ''i_name'' = 92" by (simp add: f2fs_inode_layout_def field_bytes_def)
  have "drop 92 (inode_bytes n) = im_name n @ drop 347 (inode_bytes n)"
    using assms by (simp add: inode_bytes_def well_formed_image_def le16_def le32_def le64_def del: le_bytes.simps)
  then show ?thesis using assms by (simp add: o cstring_terminated well_formed_image_def)
qed

section \<open>Printing it\<close>

text \<open>The names of the bits that are set.\<close>

definition set_names :: "(nat \<times> string) list \<Rightarrow> 'a::len word \<Rightarrow> string list" where
  "set_names tbl v = map snd (filter (\<lambda>(b, _). bit v b) tbl)"

definition advise_bits :: "(nat \<times> string) list" where
  "advise_bits = [(0, ''FADVISE_COLD_BIT''), (1, ''FADVISE_LOST_PINO_BIT''), (2, ''FADVISE_ENCRYPT_BIT''),
     (3, ''FADVISE_ENC_NAME_BIT''), (4, ''FADVISE_KEEP_SIZE_BIT''), (5, ''FADVISE_HOT_BIT''),
     (6, ''FADVISE_VERITY_BIT''), (7, ''FADVISE_TRUNC_BIT'')]"

definition inode_flag_bits :: "(nat \<times> string) list" where
  "inode_flag_bits = [(2, ''F2FS_COMPR_FL''), (3, ''F2FS_SYNC_FL''), (4, ''F2FS_IMMUTABLE_FL''),
     (5, ''F2FS_APPEND_FL''), (6, ''F2FS_NODUMP_FL''), (7, ''F2FS_NOATIME_FL''), (10, ''F2FS_NOCOMP_FL''),
     (12, ''F2FS_INDEX_FL''), (16, ''F2FS_DIRSYNC_FL''), (29, ''F2FS_PROJINHERIT_FL''), (30, ''F2FS_CASEFOLD_FL'')]"

lemma flag_names_bits: "flag_names (map (\<lambda>(b, s). (2 ^ b, s)) tbl) (unat v) = set_names tbl v"
proof -
  have "unat v AND 2 ^ b \<noteq> 0 \<longleftrightarrow> bit v b" for b
    by (simp add: and_exp_eq_0_iff_not_bit bit_unsigned_iff)
  then show ?thesis by (simp add: flag_names_def set_names_def filter_map o_def split_def)
qed

lemma flag_lines:
  assumes "well_formed_image n"
  shows "show_inode_fadvise_flags (inode_bytes n) = FlagLine (set_names advise_bits (im_advise n))"
    "show_inode_flags (inode_bytes n) = FlagLine (set_names inode_flag_bits (im_flags n))"
proof -
  have v: "fld f2fs_inode_layout ''i_advise'' 0 (inode_bytes n) = unat (im_advise n)"
    "fld f2fs_inode_layout ''i_flags'' 0 (inode_bytes n) = unat (im_flags n)"
    using inode_read(1) [OF assms] by (simp_all add: inode_numbers_def)
  show "show_inode_fadvise_flags (inode_bytes n) = FlagLine (set_names advise_bits (im_advise n))"
    unfolding show_inode_fadvise_flags_def v flag_names_bits [symmetric] by (simp add: advise_bits_def)
  show "show_inode_flags (inode_bytes n) = FlagLine (set_names inode_flag_bits (im_flags n))"
    unfolding show_inode_flags_def v flag_names_bits [symmetric] by (simp add: inode_flag_bits_def)
qed

definition inode_lines :: "node_image \<Rightarrow> out list" where
  "inode_lines n =
    [Field ''i_mode'' [N (unat (im_mode n))], FlagLine (set_names advise_bits (im_advise n)),
     Field ''i_inline'' [N (unat (im_inline n))], Field ''i_uid'' [N (unat (im_uid n))],
     Field ''i_gid'' [N (unat (im_gid n))], Field ''i_links'' [N (unat (im_links n))],
     Field ''i_size'' [N (unat (im_size n))], Field ''i_blocks'' [N (unat (im_blocks n))],
     Field ''i_atime'' [N (unat (im_atime n))], Field ''i_ctime'' [N (unat (im_ctime n))],
     Field ''i_mtime'' [N (unat (im_mtime n))], Field ''i_atime_nsec'' [N (unat (im_atime_nsec n))],
     Field ''i_ctime_nsec'' [N (unat (im_ctime_nsec n))], Field ''i_mtime_nsec'' [N (unat (im_mtime_nsec n))],
     Field ''i_generation'' [N (unat (im_generation n))], Field ''i_xattr_nid'' [N (unat (im_xattr_nid n))],
     FlagLine (set_names inode_flag_bits (im_flags n)), Field ''i_flags'' [N (unat (im_flags n))],
     Field ''i_pino'' [N (unat (im_pino n))], Field ''i_namelen'' [N (unat (im_namelen n))],
     Field ''i_name'' [S (cstring (im_name n))], Field ''i_dir_level'' [N (unat (im_dir_level n))]]
    @ map (\<lambda>i. Field ''i_nid'' [N i, N (unat (im_nid n ! i))]) [0, 1, 2, 3, 4]"

lemma inode_shown:
  assumes "well_formed_image n"
  shows "f2fs_show_inode_info (inode_bytes n) = inode_lines n"
  using inode_read(1) [OF assms]
  by (simp add: f2fs_show_inode_info_def Let_def inode_lines_def inode_numbers_def flag_lines [OF assms]
      inode_name_read [OF assms] inode_read(2,3) [OF assms])

lemma inode_bytes_length:
  assumes "well_formed_image n"
  shows "length (inode_bytes n) = 4072" "length (footer_bytes n) = 24"
  unfolding inode_bytes_encode [OF assms] footer_bytes_encode length_encode_fields [OF inode_fits [OF assms]]
    length_encode_fields [OF footer_fits]
  by (rule inode_size, rule node_footer_size)

section \<open>Properties\<close>

text \<open>C40. A node block that is on the device in the byte order and with the fields of the header, and with a terminated name, is read and
  printed as it is: the footer fields are those of the node, it is taken for an inode exactly when
  its node number is its inode number, and the lines that \<open>zns.imap\<close> prints for the inode show every value under
  its name, the bits of its two flag fields by name, and the name up to its terminator.\<close>

theorem node_block_roundtrip:
  assumes "os_open k p" "os_read k p (of_nat (unat b * 4096 mod 2 ^ 32)) 4096 = Some (node_bytes_of n)"
    "well_formed_image n"
  shows "\<exists>node. f2fs_get_node_block k p b = Inr node \<and> (IS_INODE node \<longleftrightarrow> nf_nid n = nf_ino n) \<and>
    map (node_footer node) [''nid'', ''ino'', ''flag'', ''next_blkaddr''] = [nf_nid n, nf_ino n, nf_flag n, nf_next n] \<and>
    f2fs_show_inode_info (inode_of node) = inode_lines n"
proof -
  have s: "layout_size f2fs_node_layout = 4096" "field_off f2fs_node_layout ''footer'' = 4072"
    by (simp_all add: f2fs_node_layout_def layout_size_def field_bytes_def inode_size [unfolded layout_size_def]
        node_footer_size [unfolded layout_size_def])
  have l: "length (node_bytes_of n) = 4096" by (simp add: node_bytes_of_def inode_bytes_length [OF assms(3)])
  have "f2fs_get_node_block k p b = Inr (node_bytes_of n)"
    using get_node_block_address [OF assms(1)] assms(2) by (simp add: s l)
  moreover have "node_footer (node_bytes_of n) f = of_nat (fld node_footer_layout f 0 (footer_bytes n))" for f
    by (simp add: node_footer_def node_bytes_of_def s inode_bytes_length [OF assms(3)])
  moreover have "inode_of (node_bytes_of n) = inode_bytes n"
    by (simp add: inode_of_def node_bytes_of_def inode_size inode_bytes_length [OF assms(3)])
  ultimately show ?thesis by (simp add: IS_INODE_def footer_read inode_shown [OF assms(3)])
qed

text \<open>The inode 7 with the name \<open>f\<close>, two links and 8192 bytes, on a disk that holds nothing else.\<close>

definition sample_node :: node_image where
  "sample_node = \<lparr>im_mode = 0x81A4, im_advise = 0x21, im_inline = 1, im_uid = 1000, im_gid = 1000, im_links = 2,
     im_size = 8192, im_blocks = 3, im_atime = 1, im_ctime = 2, im_mtime = 3, im_atime_nsec = 4, im_ctime_nsec = 5,
     im_mtime_nsec = 6, im_generation = 7, im_current_depth = 8, im_xattr_nid = 9, im_flags = 0x10, im_pino = 3,
     im_namelen = 1, im_name = 102 # replicate 254 0, im_dir_level = 0, im_ext = [0, 0, 0],
     im_addr = replicate 923 0, im_nid = [11, 12, 13, 14, 15], nf_nid = 7, nf_ino = 7, nf_flag = 0, nf_cp_ver = 5,
     nf_next = 0x1235\<rparr>"

definition sample_node_os :: os where
  "sample_node_os = blank_os\<lparr>os_read := \<lambda>p off n. Some (node_bytes_of sample_node)\<rparr>"

theorem node_block_roundtrip_witness:
  "\<exists>node. f2fs_get_node_block sample_node_os ''/dev/nvme0n2'' 5 = Inr node \<and> IS_INODE node \<and>
     node_footer node ''next_blkaddr'' = 0x1235 \<and> f2fs_show_inode_info (inode_of node) =
       [Field ''i_mode'' [N 0x81A4], FlagLine [''FADVISE_COLD_BIT'', ''FADVISE_HOT_BIT''], Field ''i_inline'' [N 1],
        Field ''i_uid'' [N 1000], Field ''i_gid'' [N 1000], Field ''i_links'' [N 2], Field ''i_size'' [N 8192],
        Field ''i_blocks'' [N 3], Field ''i_atime'' [N 1], Field ''i_ctime'' [N 2], Field ''i_mtime'' [N 3],
        Field ''i_atime_nsec'' [N 4], Field ''i_ctime_nsec'' [N 5], Field ''i_mtime_nsec'' [N 6],
        Field ''i_generation'' [N 7], Field ''i_xattr_nid'' [N 9], FlagLine [''F2FS_IMMUTABLE_FL''],
        Field ''i_flags'' [N 16], Field ''i_pino'' [N 3], Field ''i_namelen'' [N 1], Field ''i_name'' [S ''f''],
        Field ''i_dir_level'' [N 0], Field ''i_nid'' [N 0, N 11], Field ''i_nid'' [N 1, N 12],
        Field ''i_nid'' [N 2, N 13], Field ''i_nid'' [N 3, N 14], Field ''i_nid'' [N 4, N 15]]"
proof -
  have w: "well_formed_image sample_node" by (simp add: well_formed_image_def sample_node_def)
  have os: "os_open sample_node_os p" "os_read sample_node_os p x y = Some (node_bytes_of sample_node)" for p x y
    by (simp_all add: sample_node_os_def blank_os_def)
  have f: "nf_nid sample_node = 7" "nf_ino sample_node = 7" "nf_next sample_node = 0x1235"
    by (simp_all add: sample_node_def)
  have "set_names advise_bits (im_advise sample_node) = [''FADVISE_COLD_BIT'', ''FADVISE_HOT_BIT'']"
    "set_names inode_flag_bits (im_flags sample_node) = [''F2FS_IMMUTABLE_FL'']"
    by (simp_all add: set_names_def advise_bits_def inode_flag_bits_def sample_node_def bit_numeral_rec)
  moreover have "cstring (im_name sample_node) = ''f''" by (simp add: sample_node_def cstring_def char_of_def bit_0)
  ultimately show ?thesis
    using node_block_roundtrip [OF os w, of "''/dev/nvme0n2''" 5]
    by (simp add: inode_lines_def f) (auto simp: sample_node_def)
qed

end
