(* ===== verification/Spec2Isabelle.thy ===== *)
theory Spec2Isabelle
  imports Sample_Reports Sample_Stats Sample_Directory Sample_Segmap Sample_Imap Sample_Json Node_Image
begin

text \<open>
  A model of the file-system tools of zns-tools (\<open>src/zns-tools.fs\<close>): \<open>zns.fiemap\<close>,
  \<open>zns.segmap\<close> and \<open>zns.imap\<close> map files to the zones, F2FS segments and NAT entries of a zoned
  (ZNS) device. All three share \<open>struct control\<close>, initialise it from the kernel
  (\<open>libzns-tools.c\<close>) and, on F2FS, from the superblock (\<open>libf2fs.c\<close>); \<open>zns.fiemap\<close> and
  \<open>zns.segmap\<close> then collect extents by \<open>FS_IOC_FIEMAP\<close>, one call per extent, into one sorted
  list per zone, and print a report; \<open>zns.imap\<close> searches the NAT for the inode of a file.

  The theories, in the order of their imports:

  \<^item> \<open>Prelude\<close>: results (an error or a value), C strings, decimal and hexadecimal numbers,
    \<open>atoi\<close>, and the lemmas on words and lists that the other theories share.
  \<^item> \<open>Getopt\<close>: \<open>getopt\<close> of the C library, as a function from the words of the command line to the
    options; written options are read back; which options a help text documents.
  \<^item> \<open>Pow2_Geometry\<close>: the locale of address arithmetic with a power-of-two unit, for zones and
    for segments.
  \<^item> \<open>Tool_State\<close>: the structures of \<open>include/zns-tools.h\<close>, the control structure with what
    has been printed, and \<open>os\<close>, the kernel the tools talk to.
  \<^item> \<open>Zone_List\<close>: the list of a zone, as a list and as pointer code on a heap; the second
    refines the first; freeing the zone map. Locale \<open>ordered_store\<close>.
  \<^item> \<open>F2fs_Layout\<close>, \<open>F2fs_Lib\<close>: the on-disk structures of \<open>include/f2fs.h\<close> as byte layouts,
    and \<open>lib/libf2fs.c\<close>: blocks, superblock, checkpoint, NAT, nodes, the procfs segment table.
  \<^item> \<open>Nat_Scan\<close>, \<open>Procfs\<close>: the NAT scan finds the entry it should; the segment table is read
    back as it was printed.
  \<^item> \<open>Device\<close>, \<open>Geometry\<close>: devices, zones and the initialisation of \<open>lib/libzns-tools.c\<close>; the
    zone and the segment of an address; what the initialisation establishes.
  \<^item> \<open>File_Counters\<close>, \<open>Extents\<close>, \<open>Extents_Inv\<close>, \<open>Recorded\<close>, \<open>Untallied\<close>: the counters per file,
    \<open>get_extents\<close>, and the invariant of the collection with what is recorded, what recorded
    extents carry, and that no counter of the report is touched. Locale \<open>counter_table\<close>.
  \<^item> \<open>Fiemap_Report\<close>, \<open>Fiemap_Spec\<close>, \<open>Fiemap_Tool\<close>: \<open>print_fiemap_report\<close> and
    \<open>src/fiemap.c\<close>, the extents and holes that are printed, and the tool from end to end.
  \<^item> \<open>Segmap\<close>, \<open>Segmap_Spec\<close>, \<open>Segmap_Counts\<close>, \<open>Segmap_Total\<close>, \<open>Segmap_Stats\<close>:
    the segment report of \<open>src/segmap.c\<close>, the pieces of extents it prints, its counters, when it
    succeeds, the zone \<open>-z\<close> selects, and the statistics per file at its end. Locale \<open>segment_show\<close>: what the report
    relies on in the function the file system installs for showing a segment.
  \<^item> \<open>Json_Dump\<close>, \<open>Json_Total\<close>: \<open>lib/libjson.c\<close>, with the json-c library as a parameter; when the
    dump returns and what its members are.
  \<^item> \<open>Segmap_Main\<close>, \<open>Segmap_Tool\<close>: the command line, the initialisation and the directory walk of
    \<open>src/segmap.c\<close>; the tool from end to end, with the report and with \<open>-j\<close>, and when it never ends.
  \<^item> \<open>Segmap_Directory\<close>: the tool from end to end, with the statistics of a directory.
  \<^item> \<open>Collecting\<close>: the states of the control structure while files are read, as a transition
    system (\<open>collecting\<close>), what holds in all of them, and that the system does not get stuck.
  \<^item> \<open>Imap\<close>, \<open>Imap_Tool\<close>: \<open>src/imap.c\<close>, its search, and the tool from end to end.
  \<^item> \<open>Node_Image\<close>: a node block byte by byte as the header declares it, and that it is read and
    printed field by field.
  \<^item> \<open>Samples\<close>, \<open>Sample_Reports\<close>, \<open>Sample_Stats\<close>, \<open>Sample_Directory\<close>, \<open>Sample_Segmap\<close>, \<open>Sample_F2fs\<close>, \<open>Sample_Imap\<close>,
    \<open>Sample_Json\<close>: small machines, one with Btrfs and one with F2FS, on which the theorems are applied.

  Correspondence. Definitions have the names of the C functions and structures, records the
  names of the fields (with a prefix where two structures share a name). A function that reads
  or writes the global \<open>ctrl\<close> takes and returns a \<open>control\<close>. An error exit is \<open>ErrExit\<close>, the
  exit after the help text \<open>HelpExit\<close> with the lines of the text; reading through NULL, past the end of an array and
  dividing by zero are \<open>NullDeref\<close>, \<open>OutOfBounds\<close> and \<open>DivByZero\<close>. Integers are words of the
  width the code has. Every line a tool prints is an element of \<open>stdout\<close>, a constructor of
  \<open>out\<close> with the values \<open>printf\<close> is given.

  Fuel. \<open>get_extents\<close> uses one unit per extent the kernel reports: any fuel of at least the
  number of extents is enough (\<open>fiemap_main_prints\<close>, \<open>collect_extents_tree\<close>). The segment
  report uses one unit per extent of a zone (\<open>segmap_main_prints\<close>), the JSON dump in addition one
  per round of the loop over the segments of an extent, for which the number of the last segment is
  enough (\<open>json_dump_returns\<close>); with an extent in front of the start zone no fuel is enough for
  either (\<open>segmap_report_spins\<close>). The search of \<open>zns.imap\<close> uses one unit per candidate
  entry (\<open>imap_search_finds\<close>). The pointer code is \<open>partial_function\<close>, and shown to return.

  Hypotheses. \<open>os\<close>, the kernel, and the json-c library are parameters. Theorems about whole
  tools assume that the kernel describes a file completely (\<open>fiemap_serves\<close>: the extents in
  order, the last one flagged) and answers for the zones of its extents (\<open>recordable\<close>).

  Help texts. The help of each tool is a value, line by line; the theorem at the end of this theory
  compares the options it documents with the option string of \<open>getopt\<close> and with the options the
  \<open>switch\<close> accepts.

  Not modelled: the layout of the printed text (rulers, tabs, the floating-point averages);
  \<open>map_extents\<close>, whose body is empty;
  \<open>f2fs_fs_manager_clean\<close> and \<open>fs_info_clean\<close>, which only free; failures of \<open>malloc\<close>;
  \<open>struct extent_map\<close>, which nothing uses. \<open>zns-tools.app\<close> and \<open>zns-tools.nvme\<close> are probes for
  bpftrace, Python plots and a copy of a kernel header (\<open>zns-tools.app/f2fs.h\<close>) that the probes
  include; they have no C logic of their own.
\<close>

section \<open>The options of the tools\<close>

definition optstring_letters :: "string \<Rightarrow> char set" where
  "optstring_letters spec = {o'. option_kind spec o' \<noteq> Unknown_Option}"

definition optstring_arguments :: "string \<Rightarrow> char set" where
  "optstring_arguments spec = {o'. option_kind spec o' = Argument_Option}"

lemma option_kind_letters: "option_kind spec o' \<noteq> Unknown_Option \<longleftrightarrow> o' \<in> set spec \<and> o' \<noteq> CHR '':''"
  by (induction spec) auto

lemma option_lines_eq:
  "option_lines segmap_show_help = [''-d [dir]'', ''-h'', ''-l [uint, 0-2]'', ''-i'', ''-p'', ''-w'', ''-s [uint]'',
     ''-z [uint]'', ''-e [uint]'', ''-c'', ''-o'', ''-n'']"
  "option_lines fiemap_show_help = [''-f [file]'', ''-h'', ''-w'', ''-s'', ''-l [Int]'', ''-s'']"
  "option_lines imap_show_help = [''-f [file]'', ''-l [Int, 0-2]'', ''-s'', ''-c'']"
  by (simp_all add: option_lines_def is_option_def segmap_show_help_def segmap_show_info_def fiemap_show_help_def
      fiemap_show_info_def imap_show_help_def)

lemma documented_eq:
  "documented segmap_show_help = set ''dhlipwszecon''" "documented_argument segmap_show_help = set ''dlsze''"
  "documented fiemap_show_help = set ''fhwsl''" "documented_argument fiemap_show_help = set ''fl''"
  "documented imap_show_help = set ''flsc''" "documented_argument imap_show_help = set ''fl''"
  unfolding documented_def documented_argument_def option_lines_eq set_filter [symmetric] by auto

lemma optstring_letters_filter: "optstring_letters spec = set (filter (\<lambda>o'. o' \<noteq> CHR '':'') spec)"
  by (auto simp: optstring_letters_def option_kind_letters)

lemma optstring_arguments_filter:
  "optstring_arguments spec = set (filter (\<lambda>o'. option_kind spec o' = Argument_Option) spec)"
proof -
  have "option_kind spec o' = Argument_Option \<Longrightarrow> o' \<in> set spec" for o'
    using option_kind_letters [of spec o'] by simp
  then show ?thesis by (auto simp: optstring_arguments_def)
qed

lemma optstring_letters_eq:
  "optstring_letters segmap_optstring = set ''dhilwsepzconj''" "optstring_letters fiemap_optstring = set ''fhilsw''"
  "optstring_letters imap_optstring = set ''cfhls''"
  by (simp_all add: optstring_letters_filter segmap_optstring_def fiemap_optstring_def imap_optstring_def)

lemma optstring_arguments_eq:
  "optstring_arguments segmap_optstring = set ''dlsezj''" "optstring_arguments fiemap_optstring = set ''fl''"
  "optstring_arguments imap_optstring = set ''fl''"
  by (simp_all add: optstring_arguments_filter segmap_optstring_def fiemap_optstring_def imap_optstring_def)

lemma accepted_if: "(\<exists>y. (if b then Inr x else r) = Inr y) \<longleftrightarrow> b \<or> (\<exists>y. r = Inr y)"
  by simp

lemma accepted_options_eq:
  "{o'. \<exists>s'. segmap_option o' arg s = Inr s'} = set ''dlijwszepcon''"
  "{o'. \<exists>t'. fiemap_options [(o', arg)] t = Inr t'} = set ''fwls''"
  "{o'. \<exists>t'. imap_option_list [(o', arg)] t = Inr t'} = set ''flsc''"
proof -
  show "{o'. \<exists>s'. segmap_option o' arg s = Inr s'} = set ''dlijwszepcon''"
    by (cases s) (rule set_eqI, simp only: segmap_option_def prod.case mem_Collect_eq accepted_if, simp)
  show "{o'. \<exists>t'. fiemap_options [(o', arg)] t = Inr t'} = set ''fwls''"
    by (cases t) (rule set_eqI, simp only: fiemap_options.simps mem_Collect_eq accepted_if, simp)
  show "{o'. \<exists>t'. imap_option_list [(o', arg)] t = Inr t'} = set ''flsc''"
    by (cases t) (rule set_eqI, simp only: imap_option_list.simps mem_Collect_eq accepted_if, simp)
qed

text \<open>C38. The help texts against the code: \<open>zns.segmap\<close> documents all options its \<open>switch\<close> accepts but \<open>-j\<close>,
  \<open>zns.fiemap\<close> lists \<open>-i\<close> in its option string but neither accepts nor documents it,
  \<open>zns.imap\<close> does not document \<open>-h\<close>; otherwise the option strings, the options that are accepted and the help agree,
  also in which options take an argument.\<close>

theorem help_agrees:
  "optstring_letters segmap_optstring = insert CHR ''j'' (documented segmap_show_help) \<and>
   optstring_letters fiemap_optstring = insert CHR ''i'' (documented fiemap_show_help) \<and>
   optstring_letters imap_optstring = insert CHR ''h'' (documented imap_show_help) \<and>
   optstring_arguments segmap_optstring = insert CHR ''j'' (documented_argument segmap_show_help) \<and>
   optstring_arguments fiemap_optstring = documented_argument fiemap_show_help \<and>
   optstring_arguments imap_optstring = documented_argument imap_show_help \<and>
   {o'. \<exists>s'. segmap_option o' arg s = Inr s'} = insert CHR ''j'' (documented segmap_show_help) - {CHR ''h''} \<and>
   {o'. \<exists>t'. fiemap_options [(o', arg)] t = Inr t'} = documented fiemap_show_help - {CHR ''h''} \<and>
   {o'. \<exists>t'. imap_option_list [(o', arg)] t = Inr t'} = documented imap_show_help"
  unfolding optstring_letters_eq optstring_arguments_eq documented_eq accepted_options_eq
  by (intro conjI) auto

end
